(* ===== verification/Prelude.thy ===== *)
theory Prelude
  imports Main "HOL-Library.Word" "HOL-Library.List_Lexorder"
begin

text \<open>
  Shared vocabulary of the development: the fixed-width integer types of
  \<^verbatim>\<open>include/GlobalConfig.h\<close>, byte strings, the collections of rewrite rules the
  component theories extend, and generic facts on little- and big-endian byte
  strings and on the lexicographic order of byte strings (the key order of the
  storage engine).
\<close>

unbundle bit_operations_syntax

section \<open>Types\<close>

type_synonym u8 = "8 word"
type_synonym u16 = "16 word"
type_synonym u32 = "32 word"
type_synonym u64 = "64 word"
type_synonym u128 = "128 word"

type_synonym bytes = "u8 list"

text \<open>A 32-byte value: \<^verbatim>\<open>Crypto::Hash\<close>, \<^verbatim>\<open>Crypto::PublicKey\<close>, \<^verbatim>\<open>Crypto::Address\<close>.\<close>

type_synonym address = bytes
type_synonym hash = bytes
type_synonym pubkey = bytes

type_synonym height = u64
type_synonym amount = u64
type_synonym id = u64

section \<open>Collections\<close>

named_theorems codec_simps \<open>reading back what a writer has appended\<close>
named_theorems key_simps \<open>distinctness and injectivity of state keys\<close>
named_theorems frame_simps \<open>what an operation leaves unchanged\<close>

section \<open>Unsigned words as naturals\<close>

lemma unat_u64_less [simp]: "unat (x :: u64) < 18446744073709551616"
  using unsigned_less [of x, where ?'a = nat] by simp

lemma unat_u32_less [simp]: "unat (x :: u32) < 4294967296"
  using unsigned_less [of x, where ?'a = nat] by simp

lemma unat_u16_less [simp]: "unat (x :: u16) < 65536"
  using unsigned_less [of x, where ?'a = nat] by simp

lemma unat_u8_less [simp]: "unat (x :: u8) < 256"
  using unsigned_less [of x, where ?'a = nat] by simp

lemma unat_add_no_overflow:
  "unat (x :: 'a::len word) + unat y < 2 ^ LENGTH('a) \<Longrightarrow> unat (x + y) = unat x + unat y"
  by (simp add: unat_word_ariths)

lemma unat_sub_le: "(y :: 'a::len word) \<le> x \<Longrightarrow> unat (x - y) = unat x - unat y"
  by (rule unat_sub)

lemma unat_of_nat_small: "n < 2 ^ LENGTH('a) \<Longrightarrow> unat (of_nat n :: 'a::len word) = n"
  by (simp add: unat_of_nat)

text \<open>Products of 64-bit values at 128 bits.\<close>

lemma unat_ucast_u128 [simp]: "unat (ucast (a :: u64) :: u128) = unat a"
proof -
  have "unat a < 2 ^ 128" by (rule less_trans [OF unat_u64_less]) simp
  then show ?thesis by (simp add: unsigned_ucast_eq take_bit_eq_mod)
qed

lemma mult_u64_less: "a < 18446744073709551616 \<Longrightarrow> b < 18446744073709551616 \<Longrightarrow>
    (a :: nat) * b < 340282366920938463463374607431768211456"
  using mult_strict_mono [of a 18446744073709551616 b 18446744073709551616] by simp

lemma unat_ucast_u16_u128 [simp]: "unat (ucast (a :: u16) :: u128) = unat a"
proof -
  have "unat a < 2 ^ 128" by (rule less_trans [OF unat_u16_less]) simp
  then show ?thesis by (simp add: unsigned_ucast_eq take_bit_eq_mod)
qed

lemma unat_u128_mult [simp]: "unat ((ucast (a :: u64) :: u128) * ucast b) = unat a * unat (b :: u64)"
  by (simp add: unat_word_ariths mult_u64_less)

lemma unat_ucast_u64 [simp]: "unat (ucast (q :: u128) :: u64) = unat q mod 18446744073709551616"
  by (simp add: unsigned_ucast_eq take_bit_eq_mod)

lemma unat_div_u128 [simp]: "unat ((x :: u128) div y) = unat x div unat y"
  by (rule unat_div)

lemma unat_u128_mult_less:
  "unat (a :: u128) * unat b < 340282366920938463463374607431768211456 \<Longrightarrow> unat (a * b) = unat a * unat b"
  by (simp add: unat_word_ariths)

lemma unat_u128_add_less:
  "unat (a :: u128) + unat b < 340282366920938463463374607431768211456 \<Longrightarrow> unat (a + b) = unat a + unat b"
  by (simp add: unat_word_ariths)

section \<open>Little-endian byte strings\<close>

text \<open>
  The \<open>n\<close> low bytes of a word, least significant first: the loop
  \<^verbatim>\<open>for (i < n) out.push_back(uint8_t(v >> (i * 8)))\<close>.
\<close>

definition le_bytes :: "nat \<Rightarrow> 'a::len word \<Rightarrow> bytes" where
  "le_bytes n v = map (\<lambda>i. ucast (drop_bit (i * 8) v)) [0..<n]"

text \<open>The loop \<^verbatim>\<open>for (i < n) v |= T(p[i]) << (i * 8)\<close>.\<close>

definition le_word :: "nat \<Rightarrow> bytes \<Rightarrow> 'a::len word" where
  "le_word n p = foldl (\<lambda>v i. v OR push_bit (i * 8) (ucast (p ! i))) 0 [0..<n]"

lemma length_le_bytes [simp]: "length (le_bytes n v) = n"
  by (simp add: le_bytes_def)

lemma nth_le_bytes: "i < n \<Longrightarrow> le_bytes n v ! i = ucast (drop_bit (i * 8) v)"
  by (simp add: le_bytes_def)

lemma bit_le_bytes:
  "i < n \<Longrightarrow> bit (le_bytes n (v :: 'a::len word) ! i) k \<longleftrightarrow> k < 8 \<and> bit v (i * 8 + k)"
  by (auto simp: nth_le_bytes bit_simps)

lemma bit_le_word:
  "bit (le_word n p :: 'a::len word) k \<longleftrightarrow>
     k < LENGTH('a) \<and> k div 8 < n \<and> bit (p ! (k div 8)) (k mod 8)"
proof (induction n)
  case 0
  then show ?case by (simp add: le_word_def)
next
  case (Suc n)
  have step: "le_word (Suc n) p = (le_word n p OR push_bit (n * 8) (ucast (p ! n)) :: 'a word)"
    by (simp add: le_word_def)
  have top: "bit (push_bit (n * 8) (ucast (p ! n)) :: 'a word) k \<longleftrightarrow>
      k < LENGTH('a) \<and> k div 8 = n \<and> bit (p ! n) (k mod 8)"
  proof (cases "k div 8 = n")
    case True
    then have "n * 8 \<le> k" and "k - n * 8 = k mod 8" by (auto simp: mult.commute [of _ 8] minus_mult_div_eq_mod)
    then show ?thesis using True by (auto simp: bit_simps)
  next
    case False
    have "n * 8 \<le> k \<Longrightarrow> 8 \<le> k - n * 8"
    proof -
      assume "n * 8 \<le> k"
      then have "n \<le> k div 8" by (simp add: less_eq_div_iff_mult_less_eq)
      with False have "Suc n \<le> k div 8" by simp
      then have "Suc n * 8 \<le> k" by (simp only: less_eq_div_iff_mult_less_eq zero_less_numeral)
      then show "8 \<le> k - n * 8" by simp
    qed
    then have "n * 8 \<le> k \<Longrightarrow> \<not> bit (p ! n) (k - n * 8)"
      using bit_imp_le_length [of "p ! n" "k - n * 8"] by auto
    then show ?thesis using False by (auto simp: bit_simps)
  qed
  show ?case using Suc by (auto simp: step bit_or_iff top less_Suc_eq)
qed


lemma le_word_le_bytes:
  "LENGTH('a) \<le> n * 8 \<Longrightarrow> le_word n (le_bytes n (v :: 'a::len word)) = v"
proof (rule bit_word_eqI)
  fix k assume len: "LENGTH('a) \<le> n * 8" and k: "k < LENGTH('a)"
  then have i: "k div 8 < n" by (simp add: less_mult_imp_div_less)
  show "bit (le_word n (le_bytes n v) :: 'a word) k = bit v k"
    using i k by (simp add: bit_le_word bit_le_bytes)
qed

lemma le_bytes_le_word:
  assumes "length p = n" and "n * 8 \<le> LENGTH('a)"
  shows "le_bytes n (le_word n p :: 'a::len word) = p"
proof (rule nth_equalityI)
  show "length (le_bytes n (le_word n p :: 'a word)) = length p" using assms by simp
next
  fix i assume "i < length (le_bytes n (le_word n p :: 'a word))"
  then have i: "i < n" by simp
  show "le_bytes n (le_word n p :: 'a word) ! i = p ! i"
  proof (rule bit_word_eqI)
    fix k assume "k < LENGTH(8)"
    then have "k < 8" by simp
    moreover from this i have "i * 8 + k < n * 8" by simp
    ultimately show "bit (le_bytes n (le_word n p :: 'a word) ! i) k = bit (p ! i) k"
      using i assms(2) by (simp add: bit_le_bytes bit_le_word)
  qed
qed

lemma le_word_append:
  "n \<le> length p \<Longrightarrow> (le_word n (p @ q) :: 'a::len word) = le_word n p"
  by (rule bit_word_eqI) (auto simp: bit_le_word nth_append)

lemma le_word_take [simp]: "le_word n (take n p) = (le_word n p :: 'a::len word)"
  by (rule bit_word_eqI) (auto simp: bit_le_word)

lemma le_bytes_inj:
  assumes "LENGTH('a) \<le> n * 8" and "le_bytes n (v :: 'a::len word) = le_bytes n w"
  shows "v = w"
proof -
  have "(le_word n (le_bytes n v) :: 'a word) = le_word n (le_bytes n w)"
    using assms(2) by simp
  then show ?thesis using assms(1) by (simp add: le_word_le_bytes)
qed

section \<open>Big-endian byte strings\<close>

text \<open>Index keys store heights, prices and sequence numbers most significant byte first.\<close>

definition be_bytes :: "nat \<Rightarrow> 'a::len word \<Rightarrow> bytes" where
  "be_bytes n v = map (\<lambda>i. ucast (drop_bit ((n - 1 - i) * 8) v)) [0..<n]"

text \<open>The loop \<^verbatim>\<open>for (i < n) v = (v << 8) | T(p[i])\<close>.\<close>

definition be_word :: "nat \<Rightarrow> bytes \<Rightarrow> 'a::len word" where
  "be_word n p = foldl (\<lambda>v i. push_bit 8 v OR ucast (p ! i)) 0 [0..<n]"

lemma length_be_bytes [simp]: "length (be_bytes n v) = n"
  by (simp add: be_bytes_def)

lemma be_bytes_rev: "be_bytes n v = rev (le_bytes n v)"
  by (rule nth_equalityI) (auto simp: be_bytes_def le_bytes_def rev_nth)

lemma bit_be_word:
  "n \<le> length p \<Longrightarrow> bit (be_word n p :: 'a::len word) k \<longleftrightarrow>
     k < LENGTH('a) \<and> k div 8 < n \<and> bit (p ! (n - 1 - k div 8)) (k mod 8)"
proof (induction n arbitrary: k)
  case 0
  then show ?case by (simp add: be_word_def)
next
  case (Suc n)
  have step: "be_word (Suc n) p = (push_bit 8 (be_word n p) OR ucast (p ! n) :: 'a word)"
    by (simp add: be_word_def)
  show ?case
  proof (cases "k < 8")
    case True
    then show ?thesis by (auto simp: step bit_simps)
  next
    case False
    then have "\<not> bit (p ! n) k" using bit_imp_le_length [of "p ! n" k] by auto
    moreover obtain m where "k = m + 8"
      using False by (metis add.commute le_Suc_ex not_less)
    moreover have "(m + 8) div 8 = Suc (m div 8)" by simp
    ultimately show ?thesis using Suc.IH [of m] Suc.prems
      by (auto simp: step bit_or_iff bit_push_bit_iff bit_ucast_iff)
  qed
qed

lemma be_word_be_bytes:
  "LENGTH('a) \<le> n * 8 \<Longrightarrow> be_word n (be_bytes n (v :: 'a::len word)) = v"
proof (rule bit_word_eqI)
  fix k assume len: "LENGTH('a) \<le> n * 8" and k: "k < LENGTH('a)"
  then have i: "k div 8 < n" by (simp add: less_mult_imp_div_less)
  then have "be_bytes n v ! (n - 1 - k div 8) = le_bytes n v ! (k div 8)"
    by (simp add: be_bytes_rev rev_nth)
  then show "bit (be_word n (be_bytes n v) :: 'a word) k = bit v k"
    using i k by (simp add: bit_be_word bit_le_bytes)
qed

lemma be_word_append:
  "n \<le> length p \<Longrightarrow> (be_word n (p @ q) :: 'a::len word) = be_word n p"
  by (rule bit_word_eqI) (auto simp: bit_be_word nth_append)

lemma be_word_rev: "length p = n \<Longrightarrow> (be_word n p :: 'a::len word) = le_word n (rev p)"
  by (rule bit_word_eqI) (auto simp: bit_be_word bit_le_word rev_nth)

lemma be_bytes_be_word:
  "length p = n \<Longrightarrow> n * 8 \<le> LENGTH('a) \<Longrightarrow> be_bytes n (be_word n p :: 'a::len word) = p"
  by (simp add: be_word_rev be_bytes_rev le_bytes_le_word)

section \<open>Lexicographic order\<close>

text \<open>
  The storage engine compares keys as \<^verbatim>\<open>memcmp\<close> does, a proper prefix first; this is
  the lexicographic order on byte lists.
\<close>

lemma append_less_same [simp]: "(p @ xs < p @ ys) \<longleftrightarrow> ((xs :: 'a::linorder list) < ys)"
  by (induction p) auto

lemma append_le_same [simp]: "(p @ xs \<le> p @ ys) \<longleftrightarrow> ((xs :: 'a::linorder list) \<le> ys)"
  by (induction p) auto

lemma append_less_iff:
  fixes xs ys :: "'a::linorder list"
  shows "length xs = length ys \<Longrightarrow>
    (xs @ us < ys @ vs) \<longleftrightarrow> xs < ys \<or> (xs = ys \<and> us < vs)"
  by (induction xs ys rule: list_induct2) auto

fun be_nat :: "bytes \<Rightarrow> nat" where
  "be_nat [] = 0"
| "be_nat (b # p) = unat b * 256 ^ length p + be_nat p"

lemma be_nat_less: "be_nat p < 256 ^ length p"
proof (induction p)
  case Nil
  then show ?case by simp
next
  case (Cons b p)
  have "Suc (unat b) \<le> 256" using unat_u8_less [of b] by linarith
  then have "Suc (unat b) * 256 ^ length p \<le> 256 * 256 ^ length p"
    by (rule mult_le_mono1)
  then have "unat b * 256 ^ length p + 256 ^ length p \<le> 256 ^ Suc (length p)"
    by (simp only: mult_Suc power_Suc add.commute)
  with Cons show ?case by (simp only: be_nat.simps list.size(4) add_0_right add_Suc_right)
qed

lemma lex_less_be_nat: "length p = length q \<Longrightarrow> p < q \<longleftrightarrow> be_nat p < be_nat q"
proof (induction p q rule: list_induct2)
  case Nil
  then show ?case by simp
next
  case (Cons a p b q)
  have p: "be_nat p < 256 ^ length q" and q: "be_nat q < 256 ^ length q"
    using be_nat_less [of p] be_nat_less [of q] Cons.hyps by simp_all
  have aux: "x * m + r < y * m + s" if "x < y" "r < m" for x y m r s :: nat
  proof -
    have "(x + 1) * m \<le> y * m" using that(1) by (intro mult_le_mono1) simp
    with that(2) show ?thesis by simp
  qed
  consider "a < b" | "a = b" | "b < a" by fastforce
  then show ?case
  proof cases
    case 1
    then show ?thesis using aux [OF _ p] Cons.hyps
      by (simp add: be_nat.simps word_less_nat_alt)
  next
    case 2
    then show ?thesis using Cons by (simp add: be_nat.simps)
  next
    case 3
    then have "be_nat (b # q) < be_nat (a # p)" using aux [OF _ q, of "unat b" "unat a" "be_nat p"] Cons.hyps
      by (simp add: be_nat.simps word_less_nat_alt)
    with 3 show ?thesis by auto
  qed
qed

lemma be_nat_snoc: "be_nat (p @ [b]) = be_nat p * 256 + unat b"
  by (induction p) (auto simp: algebra_simps)

lemma be_bytes_Suc: "be_bytes (Suc n) v = be_bytes n (drop_bit 8 v) @ [ucast v]"
proof -
  have "drop_bit ((n - i) * 8) v = drop_bit ((n - Suc i) * 8) (drop_bit 8 v)" if "i < n" for i
  proof -
    have "(n - i) * 8 = (n - Suc i) * 8 + 8" using that by (simp add: Suc_diff_Suc flip: mult_Suc)
    then show ?thesis by (simp only: drop_bit_drop_bit)
  qed
  then show ?thesis by (simp add: be_bytes_def)
qed

lemma be_nat_be_bytes: "be_nat (be_bytes n (v :: 'a::len word)) = unat v mod 256 ^ n"
proof (induction n arbitrary: v)
  case 0
  then show ?case by (simp add: be_bytes_def)
next
  case (Suc n)
  have d: "unat (drop_bit 8 v) = unat v div 256"
    by (simp only: unsigned_drop_bit_eq) (simp add: drop_bit_eq_div take_bit_nat_eq_self)
  have m: "unat (ucast v :: u8) = unat v mod 256"
    by (simp add: unsigned_ucast_eq take_bit_eq_mod)
  have "be_nat (be_bytes (Suc n) v) = (unat v div 256 mod 256 ^ n) * 256 + unat v mod 256"
    by (simp add: be_bytes_Suc be_nat_snoc Suc d m)
  also have "\<dots> = unat v mod (256 * 256 ^ n)"
    by (simp only: mod_mult2_eq mult.commute)
  finally show ?case by simp
qed

text \<open>Big-endian keys are ordered as the numbers they encode.\<close>

lemma be_bytes_less_iff:
  assumes "LENGTH('a) \<le> n * 8"
  shows "be_bytes n (v :: 'a::len word) < be_bytes n w \<longleftrightarrow> v < w"
proof -
  have "(2 :: nat) ^ LENGTH('a) \<le> 2 ^ (n * 8)" using assms by (rule power_increasing) simp
  also have "\<dots> = 256 ^ n" by (simp add: power_mult mult.commute [of n])
  finally have "unat x < 256 ^ n" for x :: "'a word"
    by (rule less_le_trans [OF unsigned_less])
  then have "unat x mod 256 ^ n = unat x" for x :: "'a word"
    by (rule mod_less)
  then show ?thesis by (simp add: lex_less_be_nat be_nat_be_bytes word_less_nat_alt)
qed

lemma be_bytes_inj:
  assumes "LENGTH('a) \<le> n * 8" and "be_bytes n (v :: 'a::len word) = be_bytes n w"
  shows "v = w"
  using assms le_bytes_inj [of n v w] by (simp add: be_bytes_rev)

end
