(* ===== verification/Wire.thy ===== *)
theory Wire
  imports Prelude
begin

text \<open>
  The wire format of \<^verbatim>\<open>src/Common/Wire.h\<close>: little- and big-endian primitives, the
  bounds-checked \<^verbatim>\<open>Reader\<close> cursor and the \<^verbatim>\<open>Writer\<close>. A pointer to a buffer is the list
  of bytes it points at. The cursor of a \<^verbatim>\<open>Reader\<close> only moves forward, so it is the
  list of the bytes from \<^verbatim>\<open>p_\<close> to \<^verbatim>\<open>end_\<close> together with the sticky error flag.
\<close>

section \<open>Primitives\<close>

definition readU8 :: "bytes \<Rightarrow> u8" where
  "readU8 p = p ! 0"

definition readU16 :: "bytes \<Rightarrow> u16" where
  "readU16 p = ucast (p ! 0) OR push_bit 8 (ucast (p ! 1))"

definition readU32 :: "bytes \<Rightarrow> u32" where
  "readU32 p = ucast (p ! 0) OR push_bit 8 (ucast (p ! 1)) OR
     push_bit 16 (ucast (p ! 2)) OR push_bit 24 (ucast (p ! 3))"

definition readU64 :: "bytes \<Rightarrow> u64" where
  "readU64 p = foldl (\<lambda>v i. v OR push_bit (i * 8) (ucast (p ! i))) 0 [0..<8]"

definition putU8 :: "bytes \<Rightarrow> u8 \<Rightarrow> bytes" where
  "putU8 out v = out @ [v]"

definition putU16 :: "bytes \<Rightarrow> u16 \<Rightarrow> bytes" where
  "putU16 out v = out @ [ucast v, ucast (drop_bit 8 v)]"

definition putU32 :: "bytes \<Rightarrow> u32 \<Rightarrow> bytes" where
  "putU32 out v = out @ [ucast v, ucast (drop_bit 8 v), ucast (drop_bit 16 v), ucast (drop_bit 24 v)]"

definition putU64 :: "bytes \<Rightarrow> u64 \<Rightarrow> bytes" where
  "putU64 out v = foldl (\<lambda>out i. out @ [ucast (drop_bit (i * 8) v)]) out [0..<8]"

definition putBytes :: "bytes \<Rightarrow> bytes \<Rightarrow> nat \<Rightarrow> bytes" where
  "putBytes out p n = out @ take n p"

text \<open>The raw-buffer writers fill a caller's buffer: the model is the bytes written.\<close>

definition writeU16 :: "u16 \<Rightarrow> bytes" where
  "writeU16 v = [ucast v, ucast (drop_bit 8 v)]"

definition writeU32 :: "u32 \<Rightarrow> bytes" where
  "writeU32 v = [ucast v, ucast (drop_bit 8 v), ucast (drop_bit 16 v), ucast (drop_bit 24 v)]"

definition writeU64 :: "u64 \<Rightarrow> bytes" where
  "writeU64 v = map (\<lambda>i. ucast (drop_bit (i * 8) v)) [0..<8]"

definition writeU32BE :: "u32 \<Rightarrow> bytes" where
  "writeU32BE v = [ucast (drop_bit 24 v), ucast (drop_bit 16 v), ucast (drop_bit 8 v), ucast v]"

definition writeU64BE :: "u64 \<Rightarrow> bytes" where
  "writeU64BE v = map (\<lambda>i. ucast (drop_bit ((7 - i) * 8) v)) [0..<8]"

definition readU32BE :: "bytes \<Rightarrow> u32" where
  "readU32BE p = push_bit 24 (ucast (p ! 0)) OR push_bit 16 (ucast (p ! 1)) OR
     push_bit 8 (ucast (p ! 2)) OR ucast (p ! 3)"

definition readU64BE :: "bytes \<Rightarrow> u64" where
  "readU64BE p = foldl (\<lambda>v i. push_bit 8 v OR ucast (p ! i)) 0 [0..<8]"

definition putU32BE :: "bytes \<Rightarrow> u32 \<Rightarrow> bytes" where
  "putU32BE out v =
     out @ [ucast (drop_bit 24 v), ucast (drop_bit 16 v), ucast (drop_bit 8 v), ucast v]"

definition putU64BE :: "bytes \<Rightarrow> u64 \<Rightarrow> bytes" where
  "putU64BE out v = foldl (\<lambda>out i. out @ [ucast (drop_bit ((7 - i) * 8) v)]) out [0..<8]"

text \<open>The unrolled and the looping forms are the generic byte strings of the prelude.\<close>

lemma upt_2: "[0..<2] = [0, 1]" and upt_4: "[0..<4] = [0, 1, 2, 3]"
  by (simp_all add: upt_rec)

lemma foldl_snoc: "foldl (\<lambda>out i. out @ [f i]) out xs = out @ map f xs"
  by (induction xs arbitrary: out) auto

lemma readU16_le: "readU16 p = le_word 2 p"
  by (simp add: readU16_def le_word_def upt_2)

lemma readU32_le: "readU32 p = le_word 4 p"
  by (simp add: readU32_def le_word_def upt_4 or.assoc)

lemma readU64_le: "readU64 p = le_word 8 p"
  by (simp add: readU64_def le_word_def)

lemma readU64BE_be: "readU64BE p = be_word 8 p"
  by (simp add: readU64BE_def be_word_def)

lemma writeU16_le: "writeU16 v = le_bytes 2 v"
  by (simp add: writeU16_def le_bytes_def upt_2)

lemma writeU32_le: "writeU32 v = le_bytes 4 v"
  by (simp add: writeU32_def le_bytes_def upt_4)

lemma writeU64_le: "writeU64 v = le_bytes 8 v"
  by (simp add: writeU64_def le_bytes_def)

lemma writeU64BE_be: "writeU64BE v = be_bytes 8 v"
  by (simp add: writeU64BE_def be_bytes_def)

lemma writeU32BE_be: "writeU32BE v = be_bytes 4 v"
  by (simp add: writeU32BE_def be_bytes_def upt_4)

lemma readU32BE_be: "readU32BE p = be_word 4 p"
  by (rule bit_word_eqI) (auto simp: readU32BE_def be_word_def upt_4 bit_simps)

lemma putU16_write: "putU16 out v = out @ writeU16 v"
  by (simp add: putU16_def writeU16_def)

lemma putU32_write: "putU32 out v = out @ writeU32 v"
  by (simp add: putU32_def writeU32_def)

lemma putU64_write: "putU64 out v = out @ writeU64 v"
  by (simp add: putU64_def writeU64_def foldl_snoc)

lemma putU32BE_write: "putU32BE out v = out @ writeU32BE v"
  by (simp add: putU32BE_def writeU32BE_def)

lemma putU64BE_write: "putU64BE out v = out @ writeU64BE v"
  by (simp add: putU64BE_def writeU64BE_def foldl_snoc)

lemmas put_writes = putU16_write putU32_write putU64_write putU32BE_write putU64BE_write

lemma length_writes [simp]:
  "length (writeU16 a) = 2" "length (writeU32 b) = 4" "length (writeU64 c) = 8"
  "length (writeU32BE b) = 4" "length (writeU64BE c) = 8"
  by (simp_all add: writeU16_le writeU32_le writeU64_le writeU64BE_be writeU32BE_be)

lemma read_writes [codec_simps]:
  "readU16 (writeU16 a @ q) = a" "readU32 (writeU32 b @ q) = b" "readU64 (writeU64 c @ q) = c"
  "readU32BE (writeU32BE b @ q) = b" "readU64BE (writeU64BE c @ q) = c"
  "readU16 (writeU16 a) = a" "readU32 (writeU32 b) = b" "readU64 (writeU64 c) = c"
  "readU32BE (writeU32BE b) = b" "readU64BE (writeU64BE c) = c"
  by (simp_all add: readU16_le readU32_le readU64_le readU64BE_be readU32BE_be writeU16_le
      writeU32_le writeU64_le writeU64BE_be writeU32BE_be le_word_append be_word_append
      le_word_le_bytes be_word_be_bytes)

lemma write_inj [key_simps]:
  "writeU16 a = writeU16 a' \<longleftrightarrow> a = a'" "writeU32 b = writeU32 b' \<longleftrightarrow> b = b'"
  "writeU64 c = writeU64 c' \<longleftrightarrow> c = c'" "writeU32BE b = writeU32BE b' \<longleftrightarrow> b = b'"
  "writeU64BE c = writeU64BE c' \<longleftrightarrow> c = c'"
  by (auto simp: writeU16_le writeU32_le writeU64_le writeU64BE_be writeU32BE_be
      dest: le_bytes_inj [rotated] be_bytes_inj [rotated])

lemma writeU64BE_readU64BE: "8 \<le> length p \<Longrightarrow> writeU64BE (readU64BE p) = take 8 p"
  using be_word_append [of 8 "take 8 p" "drop 8 p", where ?'a = 64]
  by (simp add: writeU64BE_be readU64BE_be be_bytes_be_word)

lemma writeU64BE_less_iff: "writeU64BE a < writeU64BE b \<longleftrightarrow> a < b"
  by (simp add: writeU64BE_be be_bytes_less_iff)

section \<open>Reader\<close>

record reader =
  rd_rest :: bytes
  rd_error :: bool

definition Reader :: "bytes \<Rightarrow> reader" where
  "Reader data = \<lparr>rd_rest = data, rd_error = False\<rparr>"

definition rd_ok :: "reader \<Rightarrow> bool" where
  "rd_ok r = (\<not> rd_error r)"

definition rd_remaining :: "reader \<Rightarrow> nat" where
  "rd_remaining r = length (rd_rest r)"

definition rd_u8 :: "reader \<Rightarrow> u8 \<times> reader" where
  "rd_u8 r = (if length (rd_rest r) < 1 then (0, r\<lparr>rd_error := True\<rparr>)
     else (readU8 (rd_rest r), r\<lparr>rd_rest := drop 1 (rd_rest r)\<rparr>))"

definition rd_u16 :: "reader \<Rightarrow> u16 \<times> reader" where
  "rd_u16 r = (if length (rd_rest r) < 2 then (0, r\<lparr>rd_error := True\<rparr>)
     else (readU16 (rd_rest r), r\<lparr>rd_rest := drop 2 (rd_rest r)\<rparr>))"

definition rd_u32 :: "reader \<Rightarrow> u32 \<times> reader" where
  "rd_u32 r = (if length (rd_rest r) < 4 then (0, r\<lparr>rd_error := True\<rparr>)
     else (readU32 (rd_rest r), r\<lparr>rd_rest := drop 4 (rd_rest r)\<rparr>))"

definition rd_u64 :: "reader \<Rightarrow> u64 \<times> reader" where
  "rd_u64 r = (if length (rd_rest r) < 8 then (0, r\<lparr>rd_error := True\<rparr>)
     else (readU64 (rd_rest r), r\<lparr>rd_rest := drop 8 (rd_rest r)\<rparr>))"

text \<open>\<open>rd_bytes out n r\<close> is \<^verbatim>\<open>r.readBytes(out, n)\<close>; the destination keeps \<open>out\<close> on underflow.\<close>

definition rd_bytes :: "bytes \<Rightarrow> nat \<Rightarrow> reader \<Rightarrow> bytes \<times> reader" where
  "rd_bytes out n r = (if rd_remaining r < n then (out, r\<lparr>rd_error := True\<rparr>)
     else (take n (rd_rest r), r\<lparr>rd_rest := drop n (rd_rest r)\<rparr>))"

definition rd_skip :: "nat \<Rightarrow> reader \<Rightarrow> bool \<times> reader" where
  "rd_skip n r = (if rd_remaining r < n then (False, r\<lparr>rd_error := True\<rparr>)
     else (True, r\<lparr>rd_rest := drop n (rd_rest r)\<rparr>))"

definition rd_string :: "nat \<Rightarrow> reader \<Rightarrow> bytes \<times> reader" where
  "rd_string n r = (if rd_remaining r < n then ([], r\<lparr>rd_error := True\<rparr>)
     else (take n (rd_rest r), r\<lparr>rd_rest := drop n (rd_rest r)\<rparr>))"

definition rd_vector :: "nat \<Rightarrow> reader \<Rightarrow> bytes \<times> reader" where
  "rd_vector n r = (if rd_remaining r < n then ([], r\<lparr>rd_error := True\<rparr>)
     else (take n (rd_rest r), r\<lparr>rd_rest := drop n (rd_rest r)\<rparr>))"

definition rd_i64 :: "reader \<Rightarrow> int \<times> reader" where
  "rd_i64 r = (case rd_u64 r of (v, r') \<Rightarrow> (sint v, r'))"

definition rd_lpstring :: "reader \<Rightarrow> bytes \<times> reader" where
  "rd_lpstring r = (case rd_u8 r of (len, r1) \<Rightarrow>
     if \<not> rd_ok r1 then ([], r1)
     else if rd_remaining r1 < unat len then ([], r1\<lparr>rd_error := True\<rparr>)
     else (take (unat len) (rd_rest r1), r1\<lparr>rd_rest := drop (unat len) (rd_rest r1)\<rparr>))"

section \<open>Writer\<close>

text \<open>
  A \<^verbatim>\<open>Writer\<close> appends to its vector; a method is a function on the vector, and a body
  that calls one method after the other is the list of those calls.
\<close>

definition run_writer :: "(bytes \<Rightarrow> bytes) list \<Rightarrow> bytes" where
  "run_writer ws = foldl (\<lambda>out w. w out) [] ws"

definition wr_u8 :: "u8 \<Rightarrow> bytes \<Rightarrow> bytes" where
  "wr_u8 v out = putU8 out v"

definition wr_u16 :: "u16 \<Rightarrow> bytes \<Rightarrow> bytes" where
  "wr_u16 v out = putU16 out v"

definition wr_u32 :: "u32 \<Rightarrow> bytes \<Rightarrow> bytes" where
  "wr_u32 v out = putU32 out v"

definition wr_u64 :: "u64 \<Rightarrow> bytes \<Rightarrow> bytes" where
  "wr_u64 v out = putU64 out v"

definition wr_bytes :: "bytes \<Rightarrow> nat \<Rightarrow> bytes \<Rightarrow> bytes" where
  "wr_bytes p n out = putBytes out p n"

definition wr_i64 :: "64 word \<Rightarrow> bytes \<Rightarrow> bytes" where
  "wr_i64 v out = putU64 out v"

definition wr_string :: "bytes \<Rightarrow> bytes \<Rightarrow> bytes" where
  "wr_string s out = putBytes out s (length s)"

definition wr_lpstring :: "bytes \<Rightarrow> bytes \<times> bool \<Rightarrow> bytes \<times> bool" where
  "wr_lpstring s w = (case w of (out, err) \<Rightarrow>
     if length s > 255 then (out, True)
     else (putBytes (putU8 out (of_nat (length s))) s (length s), err))"

lemma wr_simps [simp]:
  "wr_u8 a out = out @ [a]" "wr_u16 b out = out @ writeU16 b" "wr_u32 c out = out @ writeU32 c"
  "wr_u64 d out = out @ writeU64 d" "wr_bytes p n out = out @ take n p" "wr_string p out = out @ p"
  by (simp_all add: wr_u8_def wr_u16_def wr_u32_def wr_u64_def wr_bytes_def wr_string_def putU8_def
      putBytes_def put_writes)

lemma run_writer_simps [simp]:
  "run_writer [] = []" "run_writer (ws @ [w]) = w (run_writer ws)"
  by (simp_all add: run_writer_def)

lemma run_writer_Cons: "run_writer (w # ws) = foldl (\<lambda>out w. w out) (w []) ws"
  by (simp add: run_writer_def)

text \<open>Reading back what a writer has appended.\<close>

lemma rd_u8_wr [codec_simps]:
  "rd_u8 \<lparr>rd_rest = v # q, rd_error = e\<rparr> = (v, \<lparr>rd_rest = q, rd_error = e\<rparr>)"
  by (simp add: rd_u8_def readU8_def)

lemma rd_u16_wr [codec_simps]:
  "rd_u16 \<lparr>rd_rest = writeU16 v @ q, rd_error = e\<rparr> = (v, \<lparr>rd_rest = q, rd_error = e\<rparr>)"
  "rd_u16 \<lparr>rd_rest = writeU16 v, rd_error = e\<rparr> = (v, \<lparr>rd_rest = [], rd_error = e\<rparr>)"
  by (simp_all add: rd_u16_def codec_simps)

lemma rd_u32_wr [codec_simps]:
  "rd_u32 \<lparr>rd_rest = writeU32 v @ q, rd_error = e\<rparr> = (v, \<lparr>rd_rest = q, rd_error = e\<rparr>)"
  "rd_u32 \<lparr>rd_rest = writeU32 v, rd_error = e\<rparr> = (v, \<lparr>rd_rest = [], rd_error = e\<rparr>)"
  by (simp_all add: rd_u32_def codec_simps)

lemma rd_u64_wr [codec_simps]:
  "rd_u64 \<lparr>rd_rest = writeU64 v @ q, rd_error = e\<rparr> = (v, \<lparr>rd_rest = q, rd_error = e\<rparr>)"
  "rd_u64 \<lparr>rd_rest = writeU64 v, rd_error = e\<rparr> = (v, \<lparr>rd_rest = [], rd_error = e\<rparr>)"
  by (simp_all add: rd_u64_def codec_simps)

lemma rd_bytes_wr [codec_simps]:
  "length p = n \<Longrightarrow>
     rd_bytes d n \<lparr>rd_rest = p @ q, rd_error = e\<rparr> = (p, \<lparr>rd_rest = q, rd_error = e\<rparr>)"
  "length p = n \<Longrightarrow>
     rd_bytes d n \<lparr>rd_rest = p, rd_error = e\<rparr> = (p, \<lparr>rd_rest = [], rd_error = e\<rparr>)"
  by (simp_all add: rd_bytes_def rd_remaining_def)

lemma rd_string_wr [codec_simps]:
  "length p = n \<Longrightarrow>
     rd_string n \<lparr>rd_rest = p @ q, rd_error = e\<rparr> = (p, \<lparr>rd_rest = q, rd_error = e\<rparr>)"
  by (simp add: rd_string_def rd_remaining_def)

lemma rd_ok_simps [codec_simps]:
  "rd_ok \<lparr>rd_rest = q, rd_error = e\<rparr> = (\<not> e)" "rd_remaining \<lparr>rd_rest = q, rd_error = e\<rparr> = length q"
  by (simp_all add: rd_ok_def rd_remaining_def)

lemma Reader_simp [codec_simps]: "Reader p = \<lparr>rd_rest = p, rd_error = False\<rparr>"
  by (simp add: Reader_def)

end
