(* ===== verification/Config.thy ===== *)
theory Config
  imports Wire
begin

text \<open>
  Protocol constants (\<^verbatim>\<open>include/GlobalConfig.h\<close>, \<^verbatim>\<open>src/Core/RewardTypes.h\<close>), the fixed-size
  byte arrays of \<^verbatim>\<open>src/Crypto/Types.h\<close>, and the interface every state record's codec
  satisfies.
\<close>

section \<open>Constants\<close>

definition INVALID_ID :: id where "INVALID_ID = 0"
definition NATIVE_TOKEN_ID :: u64 where "NATIVE_TOKEN_ID = 0"
definition ATOMIC_UNITS_PER_COIN :: amount where "ATOMIC_UNITS_PER_COIN = 100000"
definition BLOCK_REWARD :: amount where "BLOCK_REWARD = ATOMIC_UNITS_PER_COIN * 1"
definition STAKER_SHARE_BPS :: u16 where "STAKER_SHARE_BPS = 4000"
definition VALIDATOR_SHARE_BPS :: u16 where "VALIDATOR_SHARE_BPS = 6000"
definition PRODUCER_BONUS_BPS :: u16 where "PRODUCER_BONUS_BPS = 2000"
definition VALIDATOR_MIN_STAKE :: amount where "VALIDATOR_MIN_STAKE = 10 * ATOMIC_UNITS_PER_COIN"
definition ACTIVE_SET_MIN :: u64 where "ACTIVE_SET_MIN = 2"
definition ACTIVE_SET_MAX :: u64 where "ACTIVE_SET_MAX = 100"
definition ACTIVE_SET_DEFAULT :: u64 where "ACTIVE_SET_DEFAULT = 11"
definition AUTO_STAKE_THRESHOLD :: amount where "AUTO_STAKE_THRESHOLD = 1 * ATOMIC_UNITS_PER_COIN"
definition APY_BASE_BPS :: u16 where "APY_BASE_BPS = 300"
definition APY_ACTIVITY_MAX_BPS :: u16 where "APY_ACTIVITY_MAX_BPS = 300"
definition APY_POT_BONUS_MAX_BPS :: u16 where "APY_POT_BONUS_MAX_BPS = 300"

definition ROTATION_INTERVAL :: u64 where "ROTATION_INTERVAL = 60"
definition TRAFFIC_SATURATION_TX :: u64 where "TRAFFIC_SATURATION_TX = 1000"
definition UPTIME_REMOVAL_THRESHOLD_BPS :: u16 where "UPTIME_REMOVAL_THRESHOLD_BPS = 2500"
definition UPTIME_ACTIVE_MIN_BPS :: u16 where "UPTIME_ACTIVE_MIN_BPS = 9000"
definition NOMINAL_BLOCK_SECONDS :: u64 where "NOMINAL_BLOCK_SECONDS = 10"
definition SECONDS_PER_EPOCH :: u64 where
  "SECONDS_PER_EPOCH = ROTATION_INTERVAL * NOMINAL_BLOCK_SECONDS"
definition POT_LOW_EPOCHS :: u64 where "POT_LOW_EPOCHS = (7 * 24 * 3600) div SECONDS_PER_EPOCH"
definition POT_HIGH_EPOCHS :: u64 where "POT_HIGH_EPOCHS = (30 * 24 * 3600) div SECONDS_PER_EPOCH"
definition POT_MAX_EPOCHS :: u64 where "POT_MAX_EPOCHS = (90 * 24 * 3600) div SECONDS_PER_EPOCH"
definition OFFLINE_KICK_BLOCKS :: u64 where "OFFLINE_KICK_BLOCKS = 20"
definition REWARD_MULTIPLIER_START :: u16 where "REWARD_MULTIPLIER_START = 10000"
definition REWARD_MULTIPLIER_FLOOR :: u16 where "REWARD_MULTIPLIER_FLOOR = 2000"
definition REWARD_MULTIPLIER_PENALTY :: u16 where "REWARD_MULTIPLIER_PENALTY = 2000"
definition SLASH_AMOUNT_BPS :: u16 where "SLASH_AMOUNT_BPS = 500"
definition UNBONDING_PERIOD :: u64 where "UNBONDING_PERIOD = 2 * ROTATION_INTERVAL"

lemmas config_defs = INVALID_ID_def NATIVE_TOKEN_ID_def ATOMIC_UNITS_PER_COIN_def BLOCK_REWARD_def
  STAKER_SHARE_BPS_def VALIDATOR_SHARE_BPS_def PRODUCER_BONUS_BPS_def VALIDATOR_MIN_STAKE_def
  ACTIVE_SET_MIN_def ACTIVE_SET_MAX_def ACTIVE_SET_DEFAULT_def AUTO_STAKE_THRESHOLD_def
  APY_BASE_BPS_def APY_ACTIVITY_MAX_BPS_def APY_POT_BONUS_MAX_BPS_def ROTATION_INTERVAL_def
  TRAFFIC_SATURATION_TX_def UPTIME_REMOVAL_THRESHOLD_BPS_def UPTIME_ACTIVE_MIN_BPS_def
  NOMINAL_BLOCK_SECONDS_def SECONDS_PER_EPOCH_def POT_LOW_EPOCHS_def POT_HIGH_EPOCHS_def
  POT_MAX_EPOCHS_def OFFLINE_KICK_BLOCKS_def REWARD_MULTIPLIER_START_def
  REWARD_MULTIPLIER_FLOOR_def REWARD_MULTIPLIER_PENALTY_def SLASH_AMOUNT_BPS_def
  UNBONDING_PERIOD_def

section \<open>Byte arrays\<close>

definition isNull :: "bytes \<Rightarrow> bool" where
  "isNull a = list_all (\<lambda>b. b = 0) a"

text \<open>A value-initialised 32-byte array.\<close>

definition null32 :: bytes where
  "null32 = replicate 32 0"

lemma length_null32 [simp]: "length null32 = 32"
  by (simp add: null32_def)

lemma isNull_null32 [simp]: "isNull null32"
  by (simp add: isNull_def null32_def list_all_iff)

lemma isNull_iff: "length a = 32 \<Longrightarrow> isNull a \<longleftrightarrow> a = null32"
  by (auto simp: isNull_def null32_def list_all_iff intro: nth_equalityI)

definition bool_byte :: "bool \<Rightarrow> u8" where
  "bool_byte b = (if b then 1 else 0)"

lemma bool_byte_neq_0 [simp]: "(bool_byte b \<noteq> 0) = b" "(bool_byte b = 0) = (\<not> b)"
  by (simp_all add: bool_byte_def)

text \<open>A token identifier survives the codec when it fits the 32 bits the codec writes.\<close>

definition fits32 :: "u64 \<Rightarrow> bool" where
  "fits32 x \<longleftrightarrow> x < 2 ^ 32"

lemma ucast_fits32: "fits32 x \<Longrightarrow> ucast (ucast x :: u32) = x"
  by (simp add: fits32_def word_less_nat_alt word_unat_eq_iff unsigned_ucast_eq take_bit_eq_mod
      unat_mod)

lemma ucast_u32_fits32 [simp]: "fits32 (ucast (x :: u32))"
  using unat_u32_less [of x]
  by (simp add: fits32_def word_less_nat_alt unsigned_ucast_eq take_bit_eq_mod less_trans [of _ 4294967296])

section \<open>The contract of a state codec\<close>

text \<open>
  Every record kept in the state tree has a \<^verbatim>\<open>serializeState\<close> and a \<^verbatim>\<open>deserializeState\<close>.
  The clients of a codec rely on one law: what is written is read back. Inside the
  interface this gives that the encoding is injective and that a typed read after a
  typed write of a key/value store returns the object, other keys being untouched.
\<close>

definition typed_get :: "(bytes \<Rightarrow> 'a option) \<Rightarrow> ('k \<rightharpoonup> bytes) \<Rightarrow> 'k \<Rightarrow> 'a option" where
  "typed_get decode m k = (case m k of None \<Rightarrow> None | Some v \<Rightarrow> decode v)"

locale state_codec =
  fixes encode :: "'a \<Rightarrow> bytes"
    and decode :: "bytes \<Rightarrow> 'a option"
    and wf :: "'a \<Rightarrow> bool"
  assumes decode_encode: "wf x \<Longrightarrow> decode (encode x) = Some x"
begin

lemma encode_inj:
  assumes "wf x" and "wf y" and "encode x = encode y"
  shows "x = y"
proof -
  have "Some x = decode (encode x)" by (simp only: decode_encode [OF assms(1)])
  also have "\<dots> = Some y" by (simp only: assms(3) decode_encode [OF assms(2)])
  finally show ?thesis by simp
qed

lemma typed_get_update:
  "wf x \<Longrightarrow> typed_get decode (m(k \<mapsto> encode x)) k' = (if k' = k then Some x else typed_get decode m k')"
  by (simp add: typed_get_def decode_encode)

lemma typed_get_remove:
  "typed_get decode (m(k := None)) k' = (if k' = k then None else typed_get decode m k')"
  by (simp add: typed_get_def)

end

end
