(* ===== verification/Store.thy ===== *)
theory Store
  imports Config "HOL-Library.Sublist"
begin

text \<open>
  The key/value store below the state (\<^verbatim>\<open>src/State/StateDB\<close>): the table identifiers, the
  names the tables are opened under, and the operations of a write transaction.

  A table is the list of its rows in cursor order. MDBX keeps the rows of a named table
  ordered by the bytes of their keys (a proper prefix before its extensions), one row per
  key, and gives the same handle to every open of the same name; so the content of the
  environment is a function from names to such lists, and a \<^verbatim>\<open>TableId\<close> reaches its rows
  through \<open>tableName\<close>. Failures of MDBX itself (a full map, an I/O error) are thrown by
  the code and are not modelled.
\<close>

section \<open>Tables of rows\<close>

type_synonym row = "bytes \<times> bytes"
type_synonym rows = "row list"

definition rows_ok :: "rows \<Rightarrow> bool" where
  "rows_ok t \<longleftrightarrow> sorted_wrt (<) (map fst t)"

fun rows_put :: "bytes \<Rightarrow> bytes \<Rightarrow> rows \<Rightarrow> rows" where
  "rows_put k v [] = [(k, v)]"
| "rows_put k v ((k', v') # t) =
     (if k < k' then (k, v) # (k', v') # t
      else if k = k' then (k, v) # t
      else (k', v') # rows_put k v t)"

fun rows_del :: "bytes \<Rightarrow> rows \<Rightarrow> rows" where
  "rows_del k [] = []"
| "rows_del k ((k', v') # t) = (if k = k' then t else (k', v') # rows_del k t)"

fun rows_get :: "bytes \<Rightarrow> rows \<Rightarrow> bytes option" where
  "rows_get k [] = None"
| "rows_get k ((k', v') # t) = (if k = k' then Some v' else rows_get k t)"

lemma rows_ok_Nil [simp]: "rows_ok []"
  by (simp add: rows_ok_def)

lemma rows_ok_Cons: "rows_ok ((k, v) # t) \<longleftrightarrow> (\<forall>(k', v') \<in> set t. k < k') \<and> rows_ok t"
  by (auto simp: rows_ok_def)

lemma set_rows_put: "fst ` set (rows_put k v t) = insert k (fst ` set t)"
  by (induction k v t rule: rows_put.induct) auto

lemma set_rows_del_subset: "set (rows_del k t) \<subseteq> set t"
  by (induction k t rule: rows_del.induct) auto

lemma rows_ok_put [intro]: "rows_ok t \<Longrightarrow> rows_ok (rows_put k v t)"
proof (induction k v t rule: rows_put.induct)
  case (2 k v k' v' t)
  then show ?case
    using set_rows_put [of k v t]
    by (force simp: rows_ok_Cons not_less_iff_gr_or_eq image_iff)
qed (simp add: rows_ok_def)

lemma rows_ok_del [intro]: "rows_ok t \<Longrightarrow> rows_ok (rows_del k t)"
proof (induction k t rule: rows_del.induct)
  case (2 k k' v' t)
  then show ?case
    using set_rows_del_subset [of k t] by (auto simp: rows_ok_Cons)
qed simp

lemma rows_get_put [simp]: "rows_get k (rows_put k' v t) = (if k = k' then Some v else rows_get k t)"
  by (induction k' v t rule: rows_put.induct) auto

lemma rows_get_None: "rows_get k t = None \<longleftrightarrow> k \<notin> fst ` set t"
  by (induction k t rule: rows_get.induct) auto

lemma rows_get_del: "rows_ok t \<Longrightarrow> rows_get k (rows_del k' t) = (if k = k' then None else rows_get k t)"
proof (induction k' t rule: rows_del.induct)
  case (2 k' k1 v1 t)
  then have "rows_get k1 t = None" by (force simp: rows_get_None rows_ok_Cons)
  with 2 show ?case by (auto simp: rows_ok_Cons)
qed simp

lemma rows_get_mem: "rows_ok t \<Longrightarrow> rows_get k t = Some v \<longleftrightarrow> (k, v) \<in> set t"
proof (induction t)
  case (Cons r t)
  then show ?case by (cases r) (auto simp: rows_ok_Cons)
qed simp

lemma rows_eqI:
  "rows_ok s \<Longrightarrow> rows_ok t \<Longrightarrow> (\<And>k. rows_get k s = rows_get k t) \<Longrightarrow> s = t"
proof (induction s arbitrary: t)
  case Nil
  then show ?case
  proof (cases t)
    case (Cons r t')
    with Nil.prems(3) [of "fst r"] show ?thesis by (cases r) simp
  qed simp
next
  case (Cons r s)
  obtain k v where r: "r = (k, v)" by (cases r)
  obtain k' v' t' where t: "t = (k', v') # t'"
  proof (cases t)
    case Nil
    with Cons.prems(3) [of k] r show ?thesis by simp
  next
    case (Cons p t')
    then show ?thesis using that by (cases p) auto
  qed
  have s_above: "rows_get x s = None" if "x \<le> k" for x
    using Cons.prems(1) that unfolding r rows_ok_Cons rows_get_None by force
  have t_above: "rows_get x t' = None" if "x \<le> k'" for x
    using Cons.prems(2) that unfolding t rows_ok_Cons rows_get_None by force
  have "k' \<le> k"
  proof (rule ccontr)
    assume "\<not> k' \<le> k"
    then have "rows_get k t = None" using t_above [of k] unfolding t by auto
    with Cons.prems(3) [of k] r show False by simp
  qed
  moreover have "k \<le> k'"
  proof (rule ccontr)
    assume "\<not> k \<le> k'"
    then have "rows_get k' (r # s) = None" using s_above [of k'] unfolding r by auto
    with Cons.prems(3) [of k'] t show False by simp
  qed
  ultimately have kk: "k = k'" by simp
  have vv: "v = v'" using Cons.prems(3) [of k] r t kk by simp
  have "rows_get x s = rows_get x t'" for x
    using Cons.prems(3) [of x] s_above [of x] t_above [of x] r t kk by (cases "x = k") auto
  then have "s = t'" using Cons.IH [of t'] Cons.prems(1,2) r t by (auto simp: rows_ok_Cons)
  then show ?case using r t kk vv by simp
qed

section \<open>Cursor scans\<close>

text \<open>\<open>set_range k\<close> is the cursor positioned by \<^verbatim>\<open>MDBX_SET_RANGE\<close>: the rows from the first key not below \<open>k\<close> on.\<close>

definition set_range :: "bytes \<Rightarrow> rows \<Rightarrow> rows" where
  "set_range k t = dropWhile (\<lambda>r. fst r < k) t"

text \<open>The rows before the cursor, nearest first: what \<^verbatim>\<open>MDBX_PREV\<close> walks through.\<close>

definition before_range :: "bytes \<Rightarrow> rows \<Rightarrow> rows" where
  "before_range k t = rev (takeWhile (\<lambda>r. fst r < k) t)"

definition has_prefix :: "bytes \<Rightarrow> row \<Rightarrow> bool" where
  "has_prefix p r = (\<not> (length (fst r) < length p \<or> take (length p) (fst r) \<noteq> p))"

definition scan_prefix :: "bytes \<Rightarrow> rows \<Rightarrow> rows" where
  "scan_prefix p t = takeWhile (has_prefix p) (set_range p t)"

fun upper_bound_rev :: "bytes \<Rightarrow> bytes" where
  "upper_bound_rev [] = []"
| "upper_bound_rev (b # bs) = (if b = 0xFF then upper_bound_rev bs else (b + 1) # bs)"

text \<open>
  The end of the prefix range: the prefix without its trailing 0xFF bytes, its last byte
  incremented; empty when nothing is left.
\<close>

definition upper_bound :: "bytes \<Rightarrow> bytes" where
  "upper_bound p = rev (upper_bound_rev (rev p))"

definition scan_prefix_rev :: "bytes \<Rightarrow> rows \<Rightarrow> rows" where
  "scan_prefix_rev p t =
     (let upper = upper_bound p;
          start = (if upper = [] then rev t
                   else if set_range upper t \<noteq> [] then before_range upper t
                   else rev t)
      in takeWhile (has_prefix p) start)"

lemma has_prefix_iff: "has_prefix p r \<longleftrightarrow> prefix p (fst r)"
  by (auto simp: has_prefix_def prefix_def not_less intro: exI [of _ "drop (length p) (fst r)"])
    (metis append_take_drop_id)

lemma prefix_le: "prefix p k \<Longrightarrow> p \<le> (k :: bytes)"
  using append_le_same [of p "[]"] by (auto simp: prefix_def)

text \<open>Between a prefix and one of its extensions there are only extensions of the prefix.\<close>

lemma prefix_convex:
  "prefix p k \<Longrightarrow> p \<le> j \<Longrightarrow> j \<le> k \<Longrightarrow> prefix p (j :: bytes)"
proof (induction p arbitrary: j k)
  case (Cons a p)
  then show ?case by (cases j; cases k) auto
qed simp

lemma takeWhile_prefix_filter:
  "rows_ok t \<Longrightarrow> \<forall>r \<in> set t. p \<le> fst r \<Longrightarrow> takeWhile (has_prefix p) t = filter (has_prefix p) t"
proof (induction t)
  case (Cons r t)
  show ?case
  proof (cases "has_prefix p r")
    case True
    with Cons show ?thesis by (cases r) (simp add: rows_ok_Cons)
  next
    case False
    have "\<not> has_prefix p r'" if "r' \<in> set t" for r'
    proof
      assume "has_prefix p r'"
      moreover have "fst r \<le> fst r'" "p \<le> fst r"
        using Cons.prems that by (cases r; cases r'; force simp: rows_ok_Cons)+
      ultimately have "prefix p (fst r)" using prefix_convex by (auto simp: has_prefix_iff)
      with False show False by (simp add: has_prefix_iff)
    qed
    with False show ?thesis by (simp add: filter_empty_conv)
  qed
qed simp

theorem scan_prefix_filter: "rows_ok t \<Longrightarrow> scan_prefix p t = filter (has_prefix p) t"
proof (induction t)
  case (Cons r t)
  then have ok: "rows_ok t" by (cases r) (simp add: rows_ok_Cons)
  show ?case
  proof (cases "fst r < p")
    case True
    then have "\<not> has_prefix p r" using prefix_le [of p "fst r"] by (auto simp: has_prefix_iff)
    with True Cons.IH [OF ok] show ?thesis by (simp add: scan_prefix_def set_range_def)
  next
    case False
    then have "\<forall>q \<in> set (r # t). p \<le> fst q"
      using Cons.prems by (cases r) (force simp: rows_ok_Cons not_less)
    then have "takeWhile (has_prefix p) (r # t) = filter (has_prefix p) (r # t)"
      by (rule takeWhile_prefix_filter [OF Cons.prems])
    with False show ?thesis unfolding scan_prefix_def set_range_def by simp
  qed
qed (simp add: scan_prefix_def set_range_def)

lemma upper_bound_snoc:
  "upper_bound (p @ [b]) = (if b = 0xFF then upper_bound p else p @ [b + 1])"
  by (simp add: upper_bound_def)

lemma byte_succ_less: "b \<noteq> (0xFF :: u8) \<Longrightarrow> c < b + 1 \<longleftrightarrow> c \<le> b"
proof -
  assume "b \<noteq> 0xFF"
  then have "unat b \<noteq> 255" by (auto simp: word_unat_eq_iff)
  moreover have "unat b < 256" by simp
  ultimately have "unat b < 255" by linarith
  then have "unat (b + 1) = unat b + 1" by (simp add: unat_word_ariths)
  then show "c < b + 1 \<longleftrightarrow> c \<le> b" by (simp add: word_less_nat_alt word_le_nat_alt less_Suc_eq_le)
qed

lemma byte_le_FF: "(0xFF :: u8) \<le> c \<longleftrightarrow> c = 0xFF" "\<not> (0xFF :: u8) < c"
proof -
  have c: "unat c < 256" by simp
  have "255 \<le> unat c \<longleftrightarrow> unat c = 255" using c by linarith
  then show "(0xFF :: u8) \<le> c \<longleftrightarrow> c = 0xFF" by (simp add: word_le_nat_alt word_unat_eq_iff)
  have "\<not> 255 < unat c" using c by linarith
  then show "\<not> (0xFF :: u8) < c" by (simp add: word_less_nat_alt)
qed

lemma prefix_range: "prefix p j \<longleftrightarrow> p \<le> j \<and> (upper_bound p = [] \<or> j < upper_bound p)"
proof (induction p arbitrary: j rule: rev_induct)
  case Nil
  then show ?case by (simp add: upper_bound_def)
next
  case (snoc b p)
  have in_p: "prefix p j" if "p @ [b] \<le> j" "upper_bound (p @ [b]) = [] \<or> j < upper_bound (p @ [b])"
  proof (cases "b = 0xFF")
    case True
    with that show ?thesis using append_le_same [of p "[]" "[b]"] snoc.IH
      by (auto simp: upper_bound_snoc intro: order_trans)
  next
    case False
    with that have "p \<le> j" "j \<le> p @ [b + 1]"
      using append_le_same [of p "[]" "[b]"] by (auto simp: upper_bound_snoc intro: order_trans)
    then show ?thesis using prefix_convex [of p "p @ [b + 1]" j] by simp
  qed
  show ?case
  proof (cases "prefix p j")
    case False
    then show ?thesis using in_p append_prefixD by blast
  next
    case True
    then obtain z where j: "j = p @ z" by (auto simp: prefix_def)
    have "prefix [b] z \<longleftrightarrow> [b] \<le> z \<and> (b = 0xFF \<or> z < [b + 1])"
      by (cases "b = 0xFF"; cases z) (auto simp: byte_succ_less byte_le_FF)
    then show ?thesis using True snoc.IH [of j] unfolding j
      by (cases "b = 0xFF") (auto simp: upper_bound_snoc)
  qed
qed

lemma takeWhile_rev_upward:
  "rows_ok t \<Longrightarrow> (\<And>r r'. r \<in> set t \<Longrightarrow> r' \<in> set t \<Longrightarrow> P r \<Longrightarrow> fst r < fst r' \<Longrightarrow> P r') \<Longrightarrow>
     takeWhile P (rev t) = rev (filter P t)"
proof (induction t)
  case (Cons r t)
  have above: "P r \<Longrightarrow> \<forall>q \<in> set t. P q"
    using Cons.prems(1) Cons.prems(2) [of r] by (cases r) (force simp: rows_ok_Cons)
  have IH: "takeWhile P (rev t) = rev (filter P t)"
    using Cons.prems by (intro Cons.IH) (cases r, auto simp: rows_ok_Cons)
  show ?case
  proof (cases "\<forall>q \<in> set t. P q")
    case True
    then show ?thesis by (auto simp: takeWhile_append)
  next
    case False
    then have "takeWhile P (rev t @ [r]) = takeWhile P (rev t)"
      by (auto simp: takeWhile_append)
    with False above IH show ?thesis by auto
  qed
qed simp

lemma takeWhile_below: "rows_ok t \<Longrightarrow> takeWhile (\<lambda>r. fst r < u) t = filter (\<lambda>r. fst r < u) t"
proof (induction t)
  case (Cons r t)
  then have ok: "rows_ok t" and above: "\<forall>q \<in> set t. fst r < fst q"
    by (cases r; force simp: rows_ok_Cons)+
  show ?case
  proof (cases "fst r < u")
    case True
    with Cons.IH [OF ok] show ?thesis by simp
  next
    case False
    with above have "\<forall>q \<in> set t. \<not> fst q < u" by (meson less_trans)
    with False show ?thesis by (simp add: filter_empty_conv)
  qed
qed simp

lemma rows_ok_filter: "rows_ok t \<Longrightarrow> rows_ok (filter P t)"
  by (induction t) (auto simp: rows_ok_Cons)

theorem scan_prefix_rev_filter:
  assumes "rows_ok t"
  shows "scan_prefix_rev p t = rev (filter (has_prefix p) t)"
proof -
  let ?u = "upper_bound p"
  let ?s = "if ?u = [] then t else filter (\<lambda>r. fst r < ?u) t"
  have "before_range ?u t = rev t" if "set_range ?u t = []"
    using that by (auto simp: before_range_def set_range_def takeWhile_eq_all_conv dropWhile_eq_Nil_conv)
  then have "scan_prefix_rev p t = takeWhile (has_prefix p) (rev ?s)"
    using takeWhile_below [OF assms, of ?u] by (auto simp: scan_prefix_rev_def Let_def before_range_def)
  also have "\<dots> = rev (filter (has_prefix p) ?s)"
  proof (rule takeWhile_rev_upward)
    show "rows_ok ?s" using assms by (simp add: rows_ok_filter)
    show "has_prefix p r'"
      if "r \<in> set ?s" "r' \<in> set ?s" "has_prefix p r" "fst r < fst r'" for r r'
      using that prefix_range [of p "fst r"] prefix_range [of p "fst r'"]
      by (auto simp: has_prefix_iff split: if_splits)
  qed
  also have "filter (has_prefix p) ?s = filter (has_prefix p) t"
  proof (cases "?u = []")
    case False
    then have "has_prefix p r \<Longrightarrow> fst r < ?u" for r
      using prefix_range [of p "fst r"] by (simp add: has_prefix_iff)
    then have "filter (has_prefix p) (filter (\<lambda>r. fst r < ?u) t) = filter (has_prefix p) t"
      unfolding filter_filter by (intro filter_cong) auto
    with False show ?thesis by simp
  qed simp
  finally show ?thesis .
qed

end
