(* ===== verification/Database.thy ===== *)
theory Database
  imports Store
begin

text \<open>
  The environment of named tables and the write transaction (\<^verbatim>\<open>StateDB\<close>, \<^verbatim>\<open>StateDB::Txn\<close>), with
  the history rows of the state tree and their pruning. The state tree itself is seen here
  through its contract: a map from 32-byte keys to values.
\<close>

section \<open>Table identifiers\<close>

datatype (plugins only: code) TableId = TBL_SMT_NODES | TBL_SMT_LEAVES | TBL_META | TBL_ACCOUNTS | TBL_TOKEN_BALANCES
  | TBL_TOKENS | TBL_VALIDATORS | TBL_ORDERS | TBL_INDEX_STAKERS | TBL_INDEX_VALIDATORS |
  TBL_INDEX_ORDERS_EXPIRY | TBL_RECEIPTS | TBL_TX_INDEX | TBL_BLOCKS_BY_HASH |
  TBL_BLOCKS_BY_HEIGHT | TBL_MEMPOOL | TBL_CONSENSUS_WAL | TBL_SMT_NODES_HIST |
  TBL_SMT_LEAVES_HIST | TBL_SMT_NODES_BY_VER | TBL_SMT_LEAVES_BY_VER | TBL_AMM_POOLS |
  TBL_AMM_POSITIONS | TBL_INDEX_POSITIONS_BY_OWNER | TBL_INDEX_ORDERS_BY_OWNER |
  TBL_INDEX_BALANCES_BY_TOKEN | TBL_INDEX_POOLS_BY_TOKEN | TBL_INDEX_TX_BY_ADDRESS |
  TBL_INDEX_TX_BY_TOKEN | TBL_INDEX_TX_BY_TYPE | TBL_INDEX_BLOCKS_BY_PRODUCER |
  TBL_INDEX_ORDERS_BY_PAIR | TBL_INDEX_ORDERS_BY_POOL | TBL_INDEX_ORDER_BOOK | TBL_FILL_HISTORY |
  TBL_NFTS | TBL_NFT_COLLECTIONS | TBL_INDEX_NFTS_BY_OWNER | TBL_INDEX_NFTS_BY_COLLECTION

definition tableName :: "TableId \<Rightarrow> string" where
  "tableName t = (case t of
      TBL_SMT_NODES \<Rightarrow> ''smt_nodes''
    | TBL_SMT_LEAVES \<Rightarrow> ''smt_leaves''
    | TBL_META \<Rightarrow> ''meta''
    | TBL_ACCOUNTS \<Rightarrow> ''accounts''
    | TBL_TOKEN_BALANCES \<Rightarrow> ''token_balances''
    | TBL_TOKENS \<Rightarrow> ''tokens''
    | TBL_VALIDATORS \<Rightarrow> ''validators''
    | TBL_ORDERS \<Rightarrow> ''orders''
    | TBL_INDEX_STAKERS \<Rightarrow> ''index_stakers''
    | TBL_INDEX_VALIDATORS \<Rightarrow> ''index_validators''
    | TBL_INDEX_ORDERS_EXPIRY \<Rightarrow> ''index_orders_expiry''
    | TBL_RECEIPTS \<Rightarrow> ''receipts''
    | TBL_TX_INDEX \<Rightarrow> ''tx_index''
    | TBL_BLOCKS_BY_HASH \<Rightarrow> ''blocks_by_hash''
    | TBL_BLOCKS_BY_HEIGHT \<Rightarrow> ''blocks_by_height''
    | TBL_MEMPOOL \<Rightarrow> ''mempool''
    | TBL_CONSENSUS_WAL \<Rightarrow> ''consensus_wal''
    | TBL_SMT_NODES_HIST \<Rightarrow> ''smt_nodes_hist''
    | TBL_SMT_LEAVES_HIST \<Rightarrow> ''smt_leaves_hist''
    | TBL_SMT_NODES_BY_VER \<Rightarrow> ''smt_nodes_by_ver''
    | TBL_SMT_LEAVES_BY_VER \<Rightarrow> ''smt_leaves_by_ver''
    | TBL_AMM_POOLS \<Rightarrow> ''amm_pools''
    | TBL_AMM_POSITIONS \<Rightarrow> ''amm_positions''
    | TBL_INDEX_POSITIONS_BY_OWNER \<Rightarrow> ''index_positions_by_owner''
    | TBL_INDEX_ORDERS_BY_OWNER \<Rightarrow> ''index_orders_by_owner''
    | TBL_INDEX_BALANCES_BY_TOKEN \<Rightarrow> ''index_balances_by_token''
    | TBL_INDEX_POOLS_BY_TOKEN \<Rightarrow> ''index_pools_by_token''
    | TBL_INDEX_TX_BY_ADDRESS \<Rightarrow> ''index_tx_by_address''
    | TBL_INDEX_TX_BY_TOKEN \<Rightarrow> ''index_tx_by_token''
    | TBL_INDEX_TX_BY_TYPE \<Rightarrow> ''index_tx_by_type''
    | TBL_INDEX_BLOCKS_BY_PRODUCER \<Rightarrow> ''index_blocks_by_producer''
    | TBL_INDEX_ORDERS_BY_PAIR \<Rightarrow> ''index_orders_by_pair''
    | TBL_INDEX_ORDERS_BY_POOL \<Rightarrow> ''index_orders_by_pool''
    | TBL_INDEX_ORDER_BOOK \<Rightarrow> ''index_order_book''
    | TBL_FILL_HISTORY \<Rightarrow> ''fill_history''
    | _ \<Rightarrow> ''<unknown>'')"

lemma tableName_simps [simp]:
  "tableName TBL_SMT_NODES = ''smt_nodes''"
  "tableName TBL_SMT_LEAVES = ''smt_leaves''"
  "tableName TBL_META = ''meta''"
  "tableName TBL_ACCOUNTS = ''accounts''"
  "tableName TBL_TOKEN_BALANCES = ''token_balances''"
  "tableName TBL_TOKENS = ''tokens''"
  "tableName TBL_VALIDATORS = ''validators''"
  "tableName TBL_ORDERS = ''orders''"
  "tableName TBL_INDEX_STAKERS = ''index_stakers''"
  "tableName TBL_INDEX_VALIDATORS = ''index_validators''"
  "tableName TBL_INDEX_ORDERS_EXPIRY = ''index_orders_expiry''"
  "tableName TBL_RECEIPTS = ''receipts''"
  "tableName TBL_TX_INDEX = ''tx_index''"
  "tableName TBL_BLOCKS_BY_HASH = ''blocks_by_hash''"
  "tableName TBL_BLOCKS_BY_HEIGHT = ''blocks_by_height''"
  "tableName TBL_MEMPOOL = ''mempool''"
  "tableName TBL_CONSENSUS_WAL = ''consensus_wal''"
  "tableName TBL_SMT_NODES_HIST = ''smt_nodes_hist''"
  "tableName TBL_SMT_LEAVES_HIST = ''smt_leaves_hist''"
  "tableName TBL_SMT_NODES_BY_VER = ''smt_nodes_by_ver''"
  "tableName TBL_SMT_LEAVES_BY_VER = ''smt_leaves_by_ver''"
  "tableName TBL_AMM_POOLS = ''amm_pools''"
  "tableName TBL_AMM_POSITIONS = ''amm_positions''"
  "tableName TBL_INDEX_POSITIONS_BY_OWNER = ''index_positions_by_owner''"
  "tableName TBL_INDEX_ORDERS_BY_OWNER = ''index_orders_by_owner''"
  "tableName TBL_INDEX_BALANCES_BY_TOKEN = ''index_balances_by_token''"
  "tableName TBL_INDEX_POOLS_BY_TOKEN = ''index_pools_by_token''"
  "tableName TBL_INDEX_TX_BY_ADDRESS = ''index_tx_by_address''"
  "tableName TBL_INDEX_TX_BY_TOKEN = ''index_tx_by_token''"
  "tableName TBL_INDEX_TX_BY_TYPE = ''index_tx_by_type''"
  "tableName TBL_INDEX_BLOCKS_BY_PRODUCER = ''index_blocks_by_producer''"
  "tableName TBL_INDEX_ORDERS_BY_PAIR = ''index_orders_by_pair''"
  "tableName TBL_INDEX_ORDERS_BY_POOL = ''index_orders_by_pool''"
  "tableName TBL_INDEX_ORDER_BOOK = ''index_order_book''"
  "tableName TBL_FILL_HISTORY = ''fill_history''"
  "tableName TBL_NFTS = ''<unknown>''"
  "tableName TBL_NFT_COLLECTIONS = ''<unknown>''"
  "tableName TBL_INDEX_NFTS_BY_OWNER = ''<unknown>''"
  "tableName TBL_INDEX_NFTS_BY_COLLECTION = ''<unknown>''"
  by (simp_all add: tableName_def)

section \<open>The environment and the write transaction\<close>

text \<open>
  \<open>db_hash\<close> is the 32-byte Blake2b digest the keys are derived with, \<open>db_version\<close> the
  version a \<^verbatim>\<open>StateAccess\<close> was constructed with, \<open>db_smt\<close> the content of the state tree and
  \<open>db_named\<close> the rows of the table opened under each name.
\<close>

record db =
  db_hash :: "bytes \<Rightarrow> bytes"
  db_version :: u64
  db_smt :: "bytes \<rightharpoonup> bytes"
  db_named :: "string \<Rightarrow> rows"

definition tab :: "TableId \<Rightarrow> db \<Rightarrow> rows" where
  "tab t d = db_named d (tableName t)"

definition Txn_put :: "TableId \<Rightarrow> bytes \<Rightarrow> bytes \<Rightarrow> db \<Rightarrow> db" where
  "Txn_put t k v d = d\<lparr>db_named := (db_named d)(tableName t := rows_put k v (db_named d (tableName t)))\<rparr>"

definition Txn_get :: "TableId \<Rightarrow> bytes \<Rightarrow> db \<Rightarrow> bytes option" where
  "Txn_get t k d = rows_get k (db_named d (tableName t))"

definition Txn_del :: "TableId \<Rightarrow> bytes \<Rightarrow> db \<Rightarrow> db" where
  "Txn_del t k d = d\<lparr>db_named := (db_named d)(tableName t := rows_del k (db_named d (tableName t)))\<rparr>"

definition Txn_has :: "TableId \<Rightarrow> bytes \<Rightarrow> db \<Rightarrow> bool" where
  "Txn_has t k d = (Txn_get t k d \<noteq> None)"

text \<open>
  A visitor is called on each row of a scan, threads a state of its own and says whether to
  go on.
\<close>

fun visit :: "(bytes \<Rightarrow> bytes \<Rightarrow> 's \<Rightarrow> bool \<times> 's) \<Rightarrow> rows \<Rightarrow> 's \<Rightarrow> 's" where
  "visit f [] s = s"
| "visit f ((k, v) # t) s = (let (go, s') = f k v s in if go then visit f t s' else s')"

definition Txn_forEach :: "TableId \<Rightarrow> (bytes \<Rightarrow> bytes \<Rightarrow> 's \<Rightarrow> bool \<times> 's) \<Rightarrow> db \<Rightarrow> 's \<Rightarrow> 's" where
  "Txn_forEach t f d s = visit f (tab t d) s"

definition Txn_forEachWithPrefix ::
    "TableId \<Rightarrow> bytes \<Rightarrow> (bytes \<Rightarrow> bytes \<Rightarrow> 's \<Rightarrow> bool \<times> 's) \<Rightarrow> db \<Rightarrow> 's \<Rightarrow> 's" where
  "Txn_forEachWithPrefix t p f d s = visit f (scan_prefix p (tab t d)) s"

definition Txn_forEachReverse ::
    "TableId \<Rightarrow> (bytes \<Rightarrow> bytes \<Rightarrow> 's \<Rightarrow> bool \<times> 's) \<Rightarrow> db \<Rightarrow> 's \<Rightarrow> 's" where
  "Txn_forEachReverse t f d s = visit f (rev (tab t d)) s"

definition Txn_forEachWithPrefixReverse ::
    "TableId \<Rightarrow> bytes \<Rightarrow> (bytes \<Rightarrow> bytes \<Rightarrow> 's \<Rightarrow> bool \<times> 's) \<Rightarrow> db \<Rightarrow> 's \<Rightarrow> 's" where
  "Txn_forEachWithPrefixReverse t p f d s = visit f (scan_prefix_rev p (tab t d)) s"

definition smt_get :: "bytes \<Rightarrow> db \<Rightarrow> bytes option" where
  "smt_get k d = db_smt d k"

definition smt_update :: "bytes \<Rightarrow> bytes \<Rightarrow> db \<Rightarrow> db" where
  "smt_update k v d = d\<lparr>db_smt := (db_smt d)(k \<mapsto> v)\<rparr>"

definition smt_remove :: "bytes \<Rightarrow> db \<Rightarrow> db" where
  "smt_remove k d = d\<lparr>db_smt := (db_smt d)(k := None)\<rparr>"

definition db_ok :: "db \<Rightarrow> bool" where
  "db_ok d \<longleftrightarrow> (\<forall>n. rows_ok (db_named d n))"

definition db_init :: "(bytes \<Rightarrow> bytes) \<Rightarrow> u64 \<Rightarrow> db" where
  "db_init H v = \<lparr>db_hash = H, db_version = v, db_smt = Map.empty, db_named = (\<lambda>_. [])\<rparr>"

lemma db_ok_init [simp]: "db_ok (db_init H v)"
  by (simp add: db_ok_def db_init_def)

section \<open>The contract of a key/value component\<close>

text \<open>
  What the state layer relies on, for a table of the environment and for the state tree
  alike: a write is read back under its key and under no other, a delete removes one key,
  and both keep the component well formed.
\<close>

locale kv_component =
  fixes kv_put :: "'k \<Rightarrow> 'v \<Rightarrow> 's \<Rightarrow> 's"
    and kv_del :: "'k \<Rightarrow> 's \<Rightarrow> 's"
    and kv_get :: "'k \<Rightarrow> 's \<Rightarrow> 'v option"
    and kv_ok :: "'s \<Rightarrow> bool"
  assumes ok_put: "kv_ok s \<Longrightarrow> kv_ok (kv_put k v s)"
    and ok_del: "kv_ok s \<Longrightarrow> kv_ok (kv_del k s)"
    and get_put: "kv_ok s \<Longrightarrow> kv_get k' (kv_put k v s) = (if k' = k then Some v else kv_get k' s)"
    and get_del: "kv_ok s \<Longrightarrow> kv_get k' (kv_del k s) = (if k' = k then None else kv_get k' s)"
begin

lemma get_del_put: "kv_ok s \<Longrightarrow> kv_get k' (kv_del k (kv_put k v s)) = (if k' = k then None else kv_get k' s)"
  by (simp add: get_del get_put ok_put)

lemma get_put_put: "kv_ok s \<Longrightarrow> kv_get k' (kv_put k w (kv_put k v s)) = kv_get k' (kv_put k w s)"
  by (simp add: get_put ok_put)

lemma ok_foldl_del: "kv_ok s \<Longrightarrow> kv_ok (foldl (\<lambda>s k. kv_del k s) s ks)"
  by (induction ks arbitrary: s) (simp_all add: ok_del)

lemma get_foldl_del:
  "kv_ok s \<Longrightarrow> kv_get k (foldl (\<lambda>s k. kv_del k s) s ks) = (if k \<in> set ks then None else kv_get k s)"
  by (induction ks arbitrary: s) (auto simp: ok_del get_del)

lemma ok_foldl_put: "kv_ok s \<Longrightarrow> kv_ok (foldl (\<lambda>s k. kv_put k v s) s ks)"
  by (induction ks arbitrary: s) (simp_all add: ok_put)

lemma get_foldl_put:
  "kv_ok s \<Longrightarrow> kv_get k (foldl (\<lambda>s k. kv_put k v s) s ks) = (if k \<in> set ks then Some v else kv_get k s)"
  by (induction ks arbitrary: s) (auto simp: ok_put get_put)

end

interpretation table: kv_component rows_put rows_del rows_get rows_ok
  by unfold_locales (auto simp: rows_get_del)

interpretation txn: kv_component "Txn_put t" "Txn_del t" "Txn_get t" db_ok for t
  by unfold_locales (auto simp: Txn_put_def Txn_del_def Txn_get_def db_ok_def table.get_put table.get_del)

interpretation smt: kv_component smt_update smt_remove smt_get db_ok
  by unfold_locales (auto simp: smt_update_def smt_remove_def smt_get_def db_ok_def)

section \<open>Frame laws\<close>

lemma Txn_get_put [simp]:
  "Txn_get t k (Txn_put t' k' v d) = (if tableName t = tableName t' \<and> k = k' then Some v else Txn_get t k d)"
  by (simp add: Txn_get_def Txn_put_def)

lemma Txn_get_del:
  "db_ok d \<Longrightarrow> Txn_get t k (Txn_del t' k' d) = (if tableName t = tableName t' \<and> k = k' then None else Txn_get t k d)"
  by (auto simp: Txn_get_def Txn_del_def db_ok_def rows_get_del)

lemma tab_put [simp]:
  "tab t (Txn_put t' k v d) = (if tableName t = tableName t' then rows_put k v (tab t d) else tab t d)"
  by (auto simp: tab_def Txn_put_def)

lemma tab_del [simp]:
  "tab t (Txn_del t' k d) = (if tableName t = tableName t' then rows_del k (tab t d) else tab t d)"
  by (auto simp: tab_def Txn_del_def)

lemma smt_get_update [simp]: "smt_get k (smt_update k' v d) = (if k = k' then Some v else smt_get k d)"
  by (simp add: smt_get_def smt_update_def)

lemma smt_get_remove [simp]: "smt_get k (smt_remove k' d) = (if k = k' then None else smt_get k d)"
  by (simp add: smt_get_def smt_remove_def)

lemma smt_frame [simp]:
  "smt_get k (Txn_put t k' v d) = smt_get k d"
  "smt_get k (Txn_del t k' d) = smt_get k d"
  "Txn_get t k' (smt_update k v d) = Txn_get t k' d"
  "Txn_get t k' (smt_remove k d) = Txn_get t k' d"
  "tab t (smt_update k v d) = tab t d"
  "tab t (smt_remove k d) = tab t d"
  by (simp_all add: smt_get_def smt_update_def smt_remove_def Txn_get_def Txn_put_def Txn_del_def tab_def)

lemma db_fields [simp]:
  "db_hash (Txn_put t k v d) = db_hash d" "db_version (Txn_put t k v d) = db_version d"
  "db_hash (Txn_del t k d) = db_hash d" "db_version (Txn_del t k d) = db_version d"
  "db_hash (smt_update k v d) = db_hash d" "db_version (smt_update k v d) = db_version d"
  "db_hash (smt_remove k d) = db_hash d" "db_version (smt_remove k d) = db_version d"
  by (simp_all add: Txn_put_def Txn_del_def smt_update_def smt_remove_def)

lemma db_ok_ops [simp]:
  "db_ok d \<Longrightarrow> db_ok (Txn_put t k v d)" "db_ok d \<Longrightarrow> db_ok (Txn_del t k d)"
  "db_ok d \<Longrightarrow> db_ok (smt_update k v d)" "db_ok d \<Longrightarrow> db_ok (smt_remove k d)"
  by (simp_all add: txn.ok_put txn.ok_del smt.ok_put smt.ok_del)

lemma rows_ok_tab: "db_ok d \<Longrightarrow> rows_ok (tab t d)"
  by (simp add: db_ok_def tab_def)

lemma Txn_get_tab: "db_ok d \<Longrightarrow> Txn_get t k d = Some v \<longleftrightarrow> (k, v) \<in> set (tab t d)"
  by (simp add: Txn_get_def tab_def rows_get_mem db_ok_def)

text \<open>A visitor that never stops folds over the rows.\<close>

lemma visit_fold: "visit (\<lambda>k v s. (True, g k v s)) t s = foldl (\<lambda>s (k, v). g k v s) s t"
  by (induction t arbitrary: s) auto

lemma visit_collect:
  "visit (\<lambda>k v acc. (True, case dec k v of None \<Rightarrow> acc | Some x \<Rightarrow> acc @ [x])) t acc
     = acc @ List.map_filter (\<lambda>(k, v). dec k v) t"
  by (induction t arbitrary: acc) (auto simp: List.map_filter_simps split: option.splits)

section \<open>History rows of the state tree\<close>

definition makeHistKey :: "hash \<Rightarrow> u64 \<Rightarrow> bytes" where
  "makeHistKey h version = take 32 h @ writeU64BE version"

definition makeByVersionKey :: "u64 \<Rightarrow> hash \<Rightarrow> bytes" where
  "makeByVersionKey version h = writeU64BE version @ take 32 h"

definition readVersionFromByVersionKey :: "bytes \<Rightarrow> u64" where
  "readVersionFromByVersionKey key = readU64BE key"

definition putNodeAtVersion :: "hash \<Rightarrow> u64 \<Rightarrow> bytes \<Rightarrow> db \<Rightarrow> db" where
  "putNodeAtVersion h version children d =
     Txn_put TBL_SMT_NODES_BY_VER (makeByVersionKey version h) []
       (Txn_put TBL_SMT_NODES_HIST (makeHistKey h version) children d)"

definition getNodeAtVersion :: "hash \<Rightarrow> u64 \<Rightarrow> db \<Rightarrow> bytes option" where
  "getNodeAtVersion h version d = Txn_get TBL_SMT_NODES_HIST (makeHistKey h version) d"

definition putLeafDataAtVersion :: "hash \<Rightarrow> u64 \<Rightarrow> bytes \<Rightarrow> db \<Rightarrow> db" where
  "putLeafDataAtVersion h version value' d =
     Txn_put TBL_SMT_LEAVES_BY_VER (makeByVersionKey version h) []
       (Txn_put TBL_SMT_LEAVES_HIST (makeHistKey h version) value' d)"

definition getLeafDataAtVersion :: "hash \<Rightarrow> u64 \<Rightarrow> db \<Rightarrow> bytes option" where
  "getLeafDataAtVersion h version d = Txn_get TBL_SMT_LEAVES_HIST (makeHistKey h version) d"

definition prune_visitor :: "u64 \<Rightarrow> bytes \<Rightarrow> bytes \<Rightarrow> bytes list \<Rightarrow> bool \<times> bytes list" where
  "prune_visitor keepFrom key v to_delete =
     (if length key \<noteq> 40 then (True, to_delete)
      else if readVersionFromByVersionKey key \<ge> keepFrom then (False, to_delete)
      else (True, to_delete @ [key]))"

definition pruneOneTableImpl :: "TableId \<Rightarrow> TableId \<Rightarrow> u64 \<Rightarrow> db \<Rightarrow> db" where
  "pruneOneTableImpl index_table hist_table keepFrom d =
     foldl (\<lambda>d k. Txn_del hist_table (take 32 (drop 8 k) @ take 8 k) (Txn_del index_table k d)) d
       (Txn_forEach index_table (prune_visitor keepFrom) d [])"

definition pruneHistoryBeforeTxn :: "u64 \<Rightarrow> db \<Rightarrow> db" where
  "pruneHistoryBeforeTxn keepFrom d =
     pruneOneTableImpl TBL_SMT_LEAVES_BY_VER TBL_SMT_LEAVES_HIST keepFrom
       (pruneOneTableImpl TBL_SMT_NODES_BY_VER TBL_SMT_NODES_HIST keepFrom d)"

definition hist_swap :: "bytes \<Rightarrow> bytes" where
  "hist_swap k = take 32 (drop 8 k) @ take 8 k"

lemma hist_swap_key: "hist_swap (makeByVersionKey v h) = makeHistKey h v"
  by (simp add: hist_swap_def makeByVersionKey_def makeHistKey_def)

lemma version_of_key [simp]: "readVersionFromByVersionKey (makeByVersionKey v h) = v"
  by (simp add: readVersionFromByVersionKey_def makeByVersionKey_def codec_simps)

lemma by_version_key_split:
  "length k = 40 \<Longrightarrow> k = makeByVersionKey (readVersionFromByVersionKey k) (drop 8 k)"
  by (simp add: makeByVersionKey_def readVersionFromByVersionKey_def writeU64BE_readU64BE)

lemma by_version_key_mono:
  assumes "length j = 40" "length k = 40" "j < k"
  shows "readVersionFromByVersionKey j \<le> readVersionFromByVersionKey k"
proof (rule ccontr)
  let ?v = "readVersionFromByVersionKey"
  assume "\<not> ?v j \<le> ?v k"
  then have "writeU64BE (?v k) < writeU64BE (?v j)" by (simp add: writeU64BE_less_iff)
  then have "makeByVersionKey (?v k) (drop 8 k) < makeByVersionKey (?v j) (drop 8 j)"
    by (simp add: makeByVersionKey_def append_less_iff)
  with by_version_key_split assms show False by (metis less_asym)
qed

lemma hist_swap_inj: "length j = 40 \<Longrightarrow> length k = 40 \<Longrightarrow> hist_swap j = hist_swap k \<longleftrightarrow> j = k"
proof
  assume len: "length j = 40" "length k = 40" and eq: "hist_swap j = hist_swap k"
  then have "drop 8 j = drop 8 k" "take 8 j = take 8 k"
    by (auto simp: hist_swap_def append_eq_append_conv)
  then show "j = k" by (metis append_take_drop_id)
qed simp

lemma prune_visit:
  assumes "rows_ok t" and "\<forall>r \<in> set t. length (fst r) = 40"
  shows "visit (prune_visitor keepFrom) t acc
           = acc @ map fst (filter (\<lambda>r. readVersionFromByVersionKey (fst r) < keepFrom) t)"
  using assms
proof (induction t arbitrary: acc)
  case (Cons r t)
  obtain k v where r: "r = (k, v)" by (cases r)
  show ?case
  proof (cases "readVersionFromByVersionKey k < keepFrom")
    case True
    with Cons r show ?thesis by (simp add: prune_visitor_def rows_ok_Cons not_le)
  next
    case False
    have "keepFrom \<le> readVersionFromByVersionKey (fst q)" if "q \<in> set t" for q
    proof -
      have "k < fst q" using Cons.prems(1) that r by (cases q) (auto simp: rows_ok_Cons)
      then have "readVersionFromByVersionKey k \<le> readVersionFromByVersionKey (fst q)"
        using Cons.prems(2) that r by (intro by_version_key_mono) auto
      with False show ?thesis by (simp add: not_less)
    qed
    then have "filter (\<lambda>r. readVersionFromByVersionKey (fst r) < keepFrom) t = []"
      by (auto simp: filter_empty_conv not_less)
    with False Cons.prems(2) r show ?thesis by (simp add: prune_visitor_def not_less)
  qed
qed simp

lemma foldl_prune:
  assumes "db_ok d" and "tableName idx \<noteq> tableName hist"
  shows "db_ok (foldl (\<lambda>d k. Txn_del hist (hist_swap k) (Txn_del idx k d)) d ks)"
    and "Txn_get idx k (foldl (\<lambda>d k. Txn_del hist (hist_swap k) (Txn_del idx k d)) d ks)
           = (if k \<in> set ks then None else Txn_get idx k d)"
    and "Txn_get hist k (foldl (\<lambda>d k. Txn_del hist (hist_swap k) (Txn_del idx k d)) d ks)
           = (if k \<in> hist_swap ` set ks then None else Txn_get hist k d)"
    and "tableName t \<noteq> tableName idx \<Longrightarrow> tableName t \<noteq> tableName hist \<Longrightarrow>
           tab t (foldl (\<lambda>d k. Txn_del hist (hist_swap k) (Txn_del idx k d)) d ks) = tab t d"
  using assms by (induction ks arbitrary: d) (auto simp: Txn_get_del)

text \<open>
  The index and the history table agree: both have 40-byte keys, and a history row of a node
  at a version is indexed under that version and the other way round.
\<close>

definition hist_indexed :: "TableId \<Rightarrow> TableId \<Rightarrow> db \<Rightarrow> bool" where
  "hist_indexed idx hist d \<longleftrightarrow>
     (\<forall>r \<in> set (tab idx d). length (fst r) = 40) \<and>
     (\<forall>k. length k = 40 \<longrightarrow> (Txn_get hist (hist_swap k) d \<noteq> None) = (Txn_get idx k d \<noteq> None))"

lemma prune_one:
  assumes ok: "db_ok d" and names: "tableName idx \<noteq> tableName hist" and ind: "hist_indexed idx hist d"
  shows "db_ok (pruneOneTableImpl idx hist keepFrom d)"
    and "length k = 40 \<Longrightarrow> Txn_get idx k (pruneOneTableImpl idx hist keepFrom d)
           = (if readVersionFromByVersionKey k < keepFrom then None else Txn_get idx k d)"
    and "length k = 40 \<Longrightarrow> Txn_get hist (hist_swap k) (pruneOneTableImpl idx hist keepFrom d)
           = (if readVersionFromByVersionKey k < keepFrom then None else Txn_get hist (hist_swap k) d)"
    and "hist_indexed idx hist (pruneOneTableImpl idx hist keepFrom d)"
    and "tableName t \<noteq> tableName idx \<Longrightarrow> tableName t \<noteq> tableName hist \<Longrightarrow>
           tab t (pruneOneTableImpl idx hist keepFrom d) = tab t d"
proof -
  let ?ks = "map fst (filter (\<lambda>r. readVersionFromByVersionKey (fst r) < keepFrom) (tab idx d))"
  have len: "\<forall>r \<in> set (tab idx d). length (fst r) = 40" using ind by (simp add: hist_indexed_def)
  have impl: "pruneOneTableImpl idx hist keepFrom d
      = foldl (\<lambda>d k. Txn_del hist (hist_swap k) (Txn_del idx k d)) d ?ks"
    using prune_visit [OF rows_ok_tab [OF ok] len, of keepFrom "[]"]
    by (simp add: pruneOneTableImpl_def Txn_forEach_def hist_swap_def)
  have mem: "k \<in> set ?ks \<longleftrightarrow> readVersionFromByVersionKey k < keepFrom \<and> Txn_get idx k d \<noteq> None" for k
    using Txn_get_tab [OF ok, of idx k] by force
  note fold = foldl_prune [OF ok names, where ks = ?ks, folded impl]
  show "db_ok (pruneOneTableImpl idx hist keepFrom d)" by (rule fold(1))
  show get_idx: "Txn_get idx k (pruneOneTableImpl idx hist keepFrom d)
      = (if readVersionFromByVersionKey k < keepFrom then None else Txn_get idx k d)" for k
    unfolding fold(2) mem by auto
  show get_hist: "Txn_get hist (hist_swap k) (pruneOneTableImpl idx hist keepFrom d)
      = (if readVersionFromByVersionKey k < keepFrom then None else Txn_get hist (hist_swap k) d)"
    if k: "length k = 40" for k
  proof -
    have "hist_swap k \<in> hist_swap ` set ?ks \<longleftrightarrow> k \<in> set ?ks"
      using len k hist_swap_inj by force
    then show ?thesis unfolding fold(3) using mem [of k] ind k by (auto simp: hist_indexed_def)
  qed
  show "tab t (pruneOneTableImpl idx hist keepFrom d) = tab t d"
    if "tableName t \<noteq> tableName idx" "tableName t \<noteq> tableName hist"
    using fold(4) that by simp
  have "length (fst r) = 40" if "r \<in> set (tab idx (pruneOneTableImpl idx hist keepFrom d))" for r
  proof -
    have "Txn_get idx (fst r) (pruneOneTableImpl idx hist keepFrom d) \<noteq> None"
      using that Txn_get_tab [OF fold(1), of idx "fst r" "snd r"] by simp
    then obtain v where "(fst r, v) \<in> set (tab idx d)"
      using Txn_get_tab [OF ok] by (fastforce simp: get_idx split: if_splits)
    with len show ?thesis by fastforce
  qed
  then show "hist_indexed idx hist (pruneOneTableImpl idx hist keepFrom d)"
    using ind unfolding hist_indexed_def get_idx by (simp add: get_hist)
qed

end
