(* ===== verification/State_Keys.thy ===== *)
theory State_Keys
  imports Database
begin

text \<open>
  The derivation of state-tree keys (\<^verbatim>\<open>src/State/Keys.h\<close>, \<^verbatim>\<open>hashDomain\<close> of
  \<^verbatim>\<open>src/Crypto/Helpers.h\<close>). The 32-byte Blake2b digest is the parameter \<open>H\<close>. What the code
  relies on is that two different objects of the state never get the same key; the
  derivations before hashing are shown injective here, so this is exactly that \<open>H\<close> has no
  collision among the preimages of the objects in question.
\<close>

section \<open>Derivations\<close>

definition str :: "string \<Rightarrow> bytes" where
  "str s = map of_char s"

definition hashDomain :: "(bytes \<Rightarrow> bytes) \<Rightarrow> string \<Rightarrow> bytes \<Rightarrow> hash" where
  "hashDomain H domain data = H (str domain @ data)"

definition Keys_account :: "(bytes \<Rightarrow> bytes) \<Rightarrow> address \<Rightarrow> hash" where
  "Keys_account H address = hashDomain H ''acct'' address"

definition Keys_tokenBalance :: "(bytes \<Rightarrow> bytes) \<Rightarrow> address \<Rightarrow> id \<Rightarrow> hash" where
  "Keys_tokenBalance H address token_id =
     hashDomain H ''bal '' (address @ [ucast token_id, ucast (drop_bit 8 token_id),
       ucast (drop_bit 16 token_id), ucast (drop_bit 24 token_id)])"

definition Keys_token :: "(bytes \<Rightarrow> bytes) \<Rightarrow> id \<Rightarrow> hash" where
  "Keys_token H token_id = hashDomain H ''tok '' [ucast token_id, ucast (drop_bit 8 token_id),
       ucast (drop_bit 16 token_id), ucast (drop_bit 24 token_id)]"

definition Keys_tokenSupply :: "(bytes \<Rightarrow> bytes) \<Rightarrow> id \<Rightarrow> hash" where
  "Keys_tokenSupply H token_id = hashDomain H ''tsup'' [ucast token_id, ucast (drop_bit 8 token_id),
       ucast (drop_bit 16 token_id), ucast (drop_bit 24 token_id)]"

definition Keys_validator :: "(bytes \<Rightarrow> bytes) \<Rightarrow> u64 \<Rightarrow> hash" where
  "Keys_validator H validator_id = hashDomain H ''val '' (writeU64 validator_id)"

definition Keys_validatorByAddress :: "(bytes \<Rightarrow> bytes) \<Rightarrow> address \<Rightarrow> hash" where
  "Keys_validatorByAddress H address = hashDomain H ''vadr'' address"

definition Keys_order :: "(bytes \<Rightarrow> bytes) \<Rightarrow> u64 \<Rightarrow> hash" where
  "Keys_order H order_id = hashDomain H ''ord '' (writeU64 order_id)"

definition Keys_orderExpiry :: "(bytes \<Rightarrow> bytes) \<Rightarrow> u64 \<Rightarrow> hash" where
  "Keys_orderExpiry H height = hashDomain H ''oexh'' (writeU64 height)"

definition Keys_global :: "(bytes \<Rightarrow> bytes) \<Rightarrow> string \<Rightarrow> hash" where
  "Keys_global H name =
     (let len = (if length name > 64 then 64 else length name)
      in hashDomain H ''glob'' (take len (str name)))"

definition Keys_ammPool :: "(bytes \<Rightarrow> bytes) \<Rightarrow> u64 \<Rightarrow> hash" where
  "Keys_ammPool H pool_id = hashDomain H ''pool'' (writeU64 pool_id)"

definition Keys_ammPosition :: "(bytes \<Rightarrow> bytes) \<Rightarrow> u64 \<Rightarrow> hash" where
  "Keys_ammPosition H position_id = hashDomain H ''pos '' (writeU64 position_id)"

definition Keys_ammPositionIndex :: "(bytes \<Rightarrow> bytes) \<Rightarrow> address \<Rightarrow> u64 \<Rightarrow> hash" where
  "Keys_ammPositionIndex H owner pool_id = hashDomain H ''pidx'' (owner @ writeU64 pool_id)"

definition Keys_receipt :: "(bytes \<Rightarrow> bytes) \<Rightarrow> hash \<Rightarrow> hash" where
  "Keys_receipt H tx_hash = hashDomain H ''rcpt'' tx_hash"

definition Keys_orderSequence :: "(bytes \<Rightarrow> bytes) \<Rightarrow> u64 \<Rightarrow> hash" where
  "Keys_orderSequence H order_id = hashDomain H ''oseq'' (writeU64 order_id)"

definition Keys_validatorKeyHistory :: "(bytes \<Rightarrow> bytes) \<Rightarrow> u64 \<Rightarrow> hash" where
  "Keys_validatorKeyHistory H validator_id = hashDomain H ''vkey'' (writeU64 validator_id)"

definition Keys_nft :: "(bytes \<Rightarrow> bytes) \<Rightarrow> u64 \<Rightarrow> hash" where
  "Keys_nft H nft_id = hashDomain H ''nft '' (writeU64 nft_id)"

definition Keys_nftCollection :: "(bytes \<Rightarrow> bytes) \<Rightarrow> u64 \<Rightarrow> hash" where
  "Keys_nftCollection H collection_id = hashDomain H ''ncol'' (writeU64 collection_id)"

definition Keys_nftAddress :: "(bytes \<Rightarrow> bytes) \<Rightarrow> u64 \<Rightarrow> address" where
  "Keys_nftAddress H nft_id = H (str ''nfa '' @ writeU64 nft_id)"

definition Keys_nftCollectionAddress :: "(bytes \<Rightarrow> bytes) \<Rightarrow> u64 \<Rightarrow> address" where
  "Keys_nftCollectionAddress H collection_id = H (str ''nca '' @ writeU64 collection_id)"

section \<open>Objects of the state and their preimages\<close>

datatype skey =
    KAccount address
  | KTokenBalance address u32
  | KToken u32
  | KTokenSupply u32
  | KValidator u64
  | KValidatorByAddress address
  | KOrder u64
  | KOrderExpiry u64
  | KGlobal string
  | KAmmPool u64
  | KAmmPosition u64
  | KAmmPositionIndex address u64
  | KReceipt hash
  | KOrderSequence u64
  | KValidatorKeyHistory u64
  | KNft u64
  | KNftCollection u64

fun key_domain :: "skey \<Rightarrow> string" where
  "key_domain (KAccount _) = ''acct''"
| "key_domain (KTokenBalance _ _) = ''bal ''"
| "key_domain (KToken _) = ''tok ''"
| "key_domain (KTokenSupply _) = ''tsup''"
| "key_domain (KValidator _) = ''val ''"
| "key_domain (KValidatorByAddress _) = ''vadr''"
| "key_domain (KOrder _) = ''ord ''"
| "key_domain (KOrderExpiry _) = ''oexh''"
| "key_domain (KGlobal _) = ''glob''"
| "key_domain (KAmmPool _) = ''pool''"
| "key_domain (KAmmPosition _) = ''pos ''"
| "key_domain (KAmmPositionIndex _ _) = ''pidx''"
| "key_domain (KReceipt _) = ''rcpt''"
| "key_domain (KOrderSequence _) = ''oseq''"
| "key_domain (KValidatorKeyHistory _) = ''vkey''"
| "key_domain (KNft _) = ''nft ''"
| "key_domain (KNftCollection _) = ''ncol''"

fun key_payload :: "skey \<Rightarrow> bytes" where
  "key_payload (KAccount a) = a"
| "key_payload (KTokenBalance a t) = a @ writeU32 t"
| "key_payload (KToken t) = writeU32 t"
| "key_payload (KTokenSupply t) = writeU32 t"
| "key_payload (KValidator v) = writeU64 v"
| "key_payload (KValidatorByAddress a) = a"
| "key_payload (KOrder n) = writeU64 n"
| "key_payload (KOrderExpiry h) = writeU64 h"
| "key_payload (KGlobal s) = take 64 (str s)"
| "key_payload (KAmmPool n) = writeU64 n"
| "key_payload (KAmmPosition n) = writeU64 n"
| "key_payload (KAmmPositionIndex a n) = a @ writeU64 n"
| "key_payload (KReceipt h) = h"
| "key_payload (KOrderSequence n) = writeU64 n"
| "key_payload (KValidatorKeyHistory v) = writeU64 v"
| "key_payload (KNft n) = writeU64 n"
| "key_payload (KNftCollection n) = writeU64 n"

definition key_pre :: "skey \<Rightarrow> bytes" where
  "key_pre k = str (key_domain k) @ key_payload k"

definition skey_of :: "(bytes \<Rightarrow> bytes) \<Rightarrow> skey \<Rightarrow> hash" where
  "skey_of H k = H (key_pre k)"

lemma unat_of_char: "unat (of_char c :: u8) = of_char c"
proof -
  have "(of_char c :: u8) = of_nat (of_char c)" by (simp add: of_nat_of_char)
  moreover have "(of_char c :: nat) < 256" by (rule nat_of_char_less_256)
  ultimately show ?thesis by (simp add: unat_of_nat)
qed

lemma str_inj [simp]: "str s = str t \<longleftrightarrow> s = t"
proof -
  have "inj (of_char :: char \<Rightarrow> u8)"
  proof (rule injI)
    fix c d :: char assume "(of_char c :: u8) = of_char d"
    then have "unat (of_char c :: u8) = unat (of_char d :: u8)" by simp
    then show "c = d" by (simp add: unat_of_char)
  qed
  then show ?thesis by (simp add: str_def inj_map_eq_map)
qed

lemma length_str [simp]: "length (str s) = length s"
  by (simp add: str_def)

lemma length_key_domain: "length (key_domain k) = 4"
  by (cases k) simp_all

lemma key_pre_eq: "key_pre k = key_pre k' \<longleftrightarrow> key_domain k = key_domain k' \<and> key_payload k = key_payload k'"
  by (auto simp: key_pre_def length_key_domain append_eq_append_conv)

text \<open>Global names are at most 64 bytes long.\<close>

definition key_wf :: "skey \<Rightarrow> bool" where
  "key_wf k = (case k of KGlobal s \<Rightarrow> length s \<le> 64 | _ \<Rightarrow> True)"

lemma key_pre_inj: "key_wf k \<Longrightarrow> key_wf k' \<Longrightarrow> key_pre k = key_pre k' \<longleftrightarrow> k = k'"
  unfolding key_pre_eq
  by (cases k; cases k'; simp add: key_wf_def key_simps append_eq_append_conv)

section \<open>Freedom from collisions\<close>

text \<open>\<open>H\<close> separates the objects of \<open>K\<close>.\<close>

definition collision_free :: "(bytes \<Rightarrow> bytes) \<Rightarrow> skey set \<Rightarrow> bool" where
  "collision_free H K \<longleftrightarrow> inj_on (skey_of H) K"

lemma skey_eq: "collision_free H K \<Longrightarrow> k \<in> K \<Longrightarrow> k' \<in> K \<Longrightarrow> skey_of H k = skey_of H k' \<longleftrightarrow> k = k'"
  by (auto simp: collision_free_def inj_on_def)

lemma collision_free_subset: "collision_free H K \<Longrightarrow> L \<subseteq> K \<Longrightarrow> collision_free H L"
  by (auto simp: collision_free_def intro: inj_on_subset)

lemma collision_free_id: "\<forall>k \<in> K. key_wf k \<Longrightarrow> collision_free (\<lambda>b. b) K"
  by (auto simp: collision_free_def inj_on_def skey_of_def key_pre_inj)

lemma writeU32_of_id: "[ucast t, ucast (drop_bit 8 t), ucast (drop_bit 16 t), ucast (drop_bit 24 t)]
    = writeU32 (ucast (t :: u64))"
  unfolding writeU32_def by (auto intro!: bit_word_eqI simp: bit_simps)

lemma Keys_skey:
  "Keys_account H a = skey_of H (KAccount a)"
  "Keys_tokenBalance H a t = skey_of H (KTokenBalance a (ucast t))"
  "Keys_token H t = skey_of H (KToken (ucast t))"
  "Keys_tokenSupply H t = skey_of H (KTokenSupply (ucast t))"
  "Keys_validator H n = skey_of H (KValidator n)"
  "Keys_validatorByAddress H a = skey_of H (KValidatorByAddress a)"
  "Keys_order H n = skey_of H (KOrder n)"
  "Keys_orderExpiry H n = skey_of H (KOrderExpiry n)"
  "Keys_global H s = skey_of H (KGlobal s)"
  "Keys_ammPool H n = skey_of H (KAmmPool n)"
  "Keys_ammPosition H n = skey_of H (KAmmPosition n)"
  "Keys_ammPositionIndex H a n = skey_of H (KAmmPositionIndex a n)"
  "Keys_receipt H h = skey_of H (KReceipt h)"
  "Keys_orderSequence H n = skey_of H (KOrderSequence n)"
  "Keys_validatorKeyHistory H n = skey_of H (KValidatorKeyHistory n)"
  "Keys_nft H n = skey_of H (KNft n)"
  "Keys_nftCollection H n = skey_of H (KNftCollection n)"
  by (simp_all add: Keys_account_def Keys_tokenBalance_def Keys_token_def Keys_tokenSupply_def
      Keys_validator_def Keys_validatorByAddress_def Keys_order_def Keys_orderExpiry_def
      Keys_global_def Keys_ammPool_def Keys_ammPosition_def Keys_ammPositionIndex_def
      Keys_receipt_def Keys_orderSequence_def Keys_validatorKeyHistory_def Keys_nft_def
      Keys_nftCollection_def hashDomain_def skey_of_def key_pre_def writeU32_of_id Let_def)

end
