(* ===== verification/Accounts.thy ===== *)
theory Accounts
  imports Config
begin

text \<open>The chain-level account: \<^verbatim>\<open>src/Core/Account.h\<close> and \<^verbatim>\<open>src/Core/Account.cpp\<close>.\<close>

record account =
  acct_nonce :: u64
  acct_balance :: u64
  acct_staked :: u64
  acct_pending_rewards :: u64
  acct_last_reward_epoch :: u64
  acct_staker_since_height :: u64
  acct_created_at_height :: u64
  acct_staking_opted_out :: bool

definition Account_default :: account where
  "Account_default = \<lparr>acct_nonce = 0, acct_balance = 0, acct_staked = 0, acct_pending_rewards = 0,
     acct_last_reward_epoch = 0, acct_staker_since_height = 0, acct_created_at_height = 0,
     acct_staking_opted_out = False\<rparr>"

definition Account_isEmpty :: "account \<Rightarrow> bool" where
  "Account_isEmpty a = (acct_nonce a = 0 \<and> acct_balance a = 0 \<and> acct_staked a = 0 \<and>
     acct_pending_rewards a = 0 \<and> \<not> acct_staking_opted_out a)"

definition totalValue :: "account \<Rightarrow> u64" where
  "totalValue a = acct_balance a + acct_pending_rewards a"

definition recalculateStaked :: "u64 \<Rightarrow> account \<Rightarrow> account" where
  "recalculateStaked auto_stake_threshold a =
     (if acct_staking_opted_out a \<or> acct_balance a < auto_stake_threshold
      then a\<lparr>acct_staked := 0\<rparr>
      else a\<lparr>acct_staked := acct_balance a\<rparr>)"

definition Account_STATE_SIZE :: nat where
  "Account_STATE_SIZE = 8 + 8 + 8 + 8 + 8 + 8 + 8 + 1"

definition Account_serializeState :: "account \<Rightarrow> bytes" where
  "Account_serializeState a = run_writer
     [wr_u64 (acct_nonce a),
      wr_u64 (acct_balance a),
      wr_u64 (acct_staked a),
      wr_u64 (acct_pending_rewards a),
      wr_u64 (acct_last_reward_epoch a),
      wr_u64 (acct_staker_since_height a),
      wr_u64 (acct_created_at_height a),
      wr_u8 (if acct_staking_opted_out a then 1 else 0)]"

definition Account_deserializeState :: "bytes \<Rightarrow> account option" where
  "Account_deserializeState data =
     (if length data \<noteq> Account_STATE_SIZE then None
      else
        let r = Reader data;
            (nonce, r) = rd_u64 r;
            (balance, r) = rd_u64 r;
            (staked, r) = rd_u64 r;
            (pending_rewards, r) = rd_u64 r;
            (last_reward_epoch, r) = rd_u64 r;
            (staker_since_height, r) = rd_u64 r;
            (created_at_height, r) = rd_u64 r;
            (opted_out, r) = rd_u8 r
        in if rd_ok r
           then Some \<lparr>acct_nonce = nonce, acct_balance = balance, acct_staked = staked,
                  acct_pending_rewards = pending_rewards, acct_last_reward_epoch = last_reward_epoch,
                  acct_staker_since_height = staker_since_height,
                  acct_created_at_height = created_at_height,
                  acct_staking_opted_out = (opted_out \<noteq> 0)\<rparr>
           else None)"

lemma Account_serializeState_eq:
  "Account_serializeState a =
     writeU64 (acct_nonce a) @ writeU64 (acct_balance a) @ writeU64 (acct_staked a) @
     writeU64 (acct_pending_rewards a) @ writeU64 (acct_last_reward_epoch a) @
     writeU64 (acct_staker_since_height a) @ writeU64 (acct_created_at_height a) @
     [bool_byte (acct_staking_opted_out a)]"
  by (simp add: Account_serializeState_def run_writer_Cons bool_byte_def)

lemma length_Account_serializeState: "length (Account_serializeState a) = Account_STATE_SIZE"
  by (simp add: Account_serializeState_eq Account_STATE_SIZE_def)

lemma Account_codec: "Account_deserializeState (Account_serializeState a) = Some a"
  by (simp add: Account_deserializeState_def Account_serializeState_eq Account_STATE_SIZE_def
      codec_simps Let_def)

interpretation acct_codec: state_codec Account_serializeState Account_deserializeState "\<lambda>_. True"
  by unfold_locales (rule Account_codec)

text \<open>
  The staking rule of \<^verbatim>\<open>Account.h\<close>: an account above the threshold that has not opted out
  stakes its whole balance, any other account stakes nothing.
\<close>

definition staking_rule :: "account \<Rightarrow> bool" where
  "staking_rule a \<longleftrightarrow> acct_staked a =
     (if acct_staking_opted_out a \<or> acct_balance a < AUTO_STAKE_THRESHOLD then 0 else acct_balance a)"

lemma recalculateStaked_rule: "staking_rule (recalculateStaked AUTO_STAKE_THRESHOLD a)"
  by (simp add: staking_rule_def recalculateStaked_def)

lemma recalculateStaked_frame [simp]:
  "acct_nonce (recalculateStaked t a) = acct_nonce a"
  "acct_balance (recalculateStaked t a) = acct_balance a"
  "acct_pending_rewards (recalculateStaked t a) = acct_pending_rewards a"
  "acct_last_reward_epoch (recalculateStaked t a) = acct_last_reward_epoch a"
  "acct_staker_since_height (recalculateStaked t a) = acct_staker_since_height a"
  "acct_created_at_height (recalculateStaked t a) = acct_created_at_height a"
  "acct_staking_opted_out (recalculateStaked t a) = acct_staking_opted_out a"
  by (simp_all add: recalculateStaked_def)

lemma staking_rule_default: "staking_rule Account_default"
  by (simp add: staking_rule_def Account_default_def config_defs)

end
