(* ===== verification/State_Accounts.thy ===== *)
theory State_Accounts
  imports State_Keys Accounts
begin

text \<open>
  The account part of \<^verbatim>\<open>src/State/StateAccess.cpp\<close>: row primitives, globals, native and token
  balances, accounts and the aggregates that \<^verbatim>\<open>putAccount\<close> and \<^verbatim>\<open>deleteAccount\<close> maintain
  (\<^verbatim>\<open>total_staked\<close>, \<^verbatim>\<open>staker_count\<close>, the staker index). A \<^verbatim>\<open>StateAccess\<close> is taken in its
  transaction-bound mode: reads see the writes of the transaction, and releasing a held read
  transaction is a no-op.
\<close>

section \<open>Row primitives\<close>

definition putSentinel :: "TableId \<Rightarrow> bytes \<Rightarrow> db \<Rightarrow> db" where
  "putSentinel t key d = Txn_put t key [0x01] d"

definition putU64Row :: "TableId \<Rightarrow> bytes \<Rightarrow> u64 \<Rightarrow> db \<Rightarrow> db" where
  "putU64Row t key v d = Txn_put t key (writeU64 v) d"

definition putBlobRow :: "TableId \<Rightarrow> bytes \<Rightarrow> bytes \<Rightarrow> db \<Rightarrow> db" where
  "putBlobRow t key v d = Txn_put t key v d"

definition deleteRow :: "TableId \<Rightarrow> bytes \<Rightarrow> db \<Rightarrow> db" where
  "deleteRow t key d = Txn_del t key d"

lemmas row_defs = putSentinel_def putU64Row_def putBlobRow_def deleteRow_def

section \<open>Globals and metadata\<close>

definition getGlobal :: "string \<Rightarrow> db \<Rightarrow> bytes option" where
  "getGlobal name d = smt_get (Keys_global (db_hash d) name) d"

definition putGlobal :: "string \<Rightarrow> bytes \<Rightarrow> db \<Rightarrow> db" where
  "putGlobal name v d = smt_update (Keys_global (db_hash d) name) v d"

definition getGlobalU64 :: "string \<Rightarrow> db \<Rightarrow> u64" where
  "getGlobalU64 name d =
     (case getGlobal name d of
        None \<Rightarrow> 0
      | Some b \<Rightarrow> if length b \<noteq> 8 then 0 else readU64 b)"

definition putGlobalU64 :: "string \<Rightarrow> u64 \<Rightarrow> db \<Rightarrow> db" where
  "putGlobalU64 name v d = putGlobal name (writeU64 v) d"

definition getMetaImpl :: "string \<Rightarrow> db \<Rightarrow> bytes option" where
  "getMetaImpl key d = Txn_get TBL_META (str key) d"

definition putMetaImpl :: "string \<Rightarrow> bytes \<Rightarrow> db \<Rightarrow> db" where
  "putMetaImpl key v d = Txn_put TBL_META (str key) v d"

definition getMetaU64 :: "string \<Rightarrow> db \<Rightarrow> u64" where
  "getMetaU64 key d =
     (case getMetaImpl key d of
        None \<Rightarrow> 0
      | Some b \<Rightarrow> if length b \<noteq> 8 then 0 else readU64 b)"

definition putMetaU64 :: "string \<Rightarrow> u64 \<Rightarrow> db \<Rightarrow> db" where
  "putMetaU64 key v d = putMetaImpl key (writeU64 v) d"

definition getRaw :: "hash \<Rightarrow> db \<Rightarrow> bytes option" where
  "getRaw k d = smt_get k d"

definition putRaw :: "hash \<Rightarrow> bytes \<Rightarrow> db \<Rightarrow> db" where
  "putRaw k v d = smt_update k v d"

definition deleteRaw :: "hash \<Rightarrow> db \<Rightarrow> db" where
  "deleteRaw k d = smt_remove k d"

section \<open>Balance index rows and stakers\<close>

definition balance_owner_key :: "address \<Rightarrow> id \<Rightarrow> bytes" where
  "balance_owner_key a t = a @ writeU32 (ucast t)"

definition balance_token_key :: "address \<Rightarrow> id \<Rightarrow> bytes" where
  "balance_token_key a t = writeU32 (ucast t) @ a"

definition indexTokenBalanceRow :: "address \<Rightarrow> id \<Rightarrow> u64 \<Rightarrow> db \<Rightarrow> db" where
  "indexTokenBalanceRow a t balance d =
     putU64Row TBL_INDEX_BALANCES_BY_TOKEN (balance_token_key a t) balance
       (putU64Row TBL_TOKEN_BALANCES (balance_owner_key a t) balance d)"

definition unindexTokenBalanceRow :: "address \<Rightarrow> id \<Rightarrow> db \<Rightarrow> db" where
  "unindexTokenBalanceRow a t d =
     deleteRow TBL_INDEX_BALANCES_BY_TOKEN (balance_token_key a t)
       (deleteRow TBL_TOKEN_BALANCES (balance_owner_key a t) d)"

definition indexStaker :: "address \<Rightarrow> db \<Rightarrow> db" where
  "indexStaker a d = putSentinel TBL_INDEX_STAKERS a d"

definition unindexStaker :: "address \<Rightarrow> db \<Rightarrow> db" where
  "unindexStaker a d = deleteRow TBL_INDEX_STAKERS a d"

definition forEachStaker :: "(address \<Rightarrow> 's \<Rightarrow> 's) \<Rightarrow> db \<Rightarrow> 's \<Rightarrow> 's" where
  "forEachStaker fn d s =
     Txn_forEach TBL_INDEX_STAKERS
       (\<lambda>key v s. if length key \<noteq> 32 then (True, s) else (True, fn key s)) d s"

section \<open>Accounts\<close>

definition getAccount :: "address \<Rightarrow> db \<Rightarrow> account" where
  "getAccount a d =
     (case smt_get (Keys_account (db_hash d) a) d of
        None \<Rightarrow> Account_default
      | Some v \<Rightarrow> (case Account_deserializeState v of None \<Rightarrow> Account_default | Some acct \<Rightarrow> acct))"

definition accountExists :: "address \<Rightarrow> db \<Rightarrow> bool" where
  "accountExists a d =
     (case smt_get (Keys_account (db_hash d) a) d of
        None \<Rightarrow> False
      | Some v \<Rightarrow> (case Account_deserializeState v of
                     None \<Rightarrow> False
                   | Some acct \<Rightarrow> \<not> Account_isEmpty acct))"

definition indexAccountRow :: "address \<Rightarrow> db \<Rightarrow> db" where
  "indexAccountRow a d = putBlobRow TBL_ACCOUNTS a (Account_serializeState (getAccount a d)) d"

definition unindexAccountRow :: "address \<Rightarrow> db \<Rightarrow> db" where
  "unindexAccountRow a d = deleteRow TBL_ACCOUNTS a d"

definition putAccount :: "address \<Rightarrow> account \<Rightarrow> db \<Rightarrow> db" where
  "putAccount a account d =
     (let copy = recalculateStaked AUTO_STAKE_THRESHOLD account;
          old = getAccount a d;
          was_staker = (acct_staked old > 0);
          is_staker = (acct_staked copy > 0);
          copy = (if is_staker \<and> \<not> was_staker
                  then copy\<lparr>acct_staker_since_height := db_version d\<rparr>
                  else if \<not> is_staker \<and> was_staker
                  then copy\<lparr>acct_staker_since_height := 0\<rparr>
                  else if is_staker \<and> was_staker
                  then copy\<lparr>acct_staker_since_height := acct_staker_since_height old\<rparr>
                  else copy\<lparr>acct_staker_since_height := 0\<rparr>);
          d = smt_update (Keys_account (db_hash d) a) (Account_serializeState copy) d;
          d = putBlobRow TBL_ACCOUNTS a (Account_serializeState copy) d;
          d = (if acct_balance copy \<noteq> acct_balance old
               then (if acct_balance copy = 0 then unindexTokenBalanceRow a NATIVE_TOKEN_ID d
                     else indexTokenBalanceRow a NATIVE_TOKEN_ID (acct_balance copy) d)
               else d);
          d = (if acct_staked copy \<noteq> acct_staked old
               then (let total = getGlobalU64 ''total_staked'' d;
                         total = (if acct_staked copy \<ge> acct_staked old
                                  then total + (acct_staked copy - acct_staked old)
                                  else total - (acct_staked old - acct_staked copy))
                     in putGlobalU64 ''total_staked'' total d)
               else d)
      in if is_staker \<and> \<not> was_staker
         then (let d = indexStaker a d
               in putGlobalU64 ''staker_count'' (getGlobalU64 ''staker_count'' d + 1) d)
         else if \<not> is_staker \<and> was_staker
         then (let d = unindexStaker a d;
                   count = getGlobalU64 ''staker_count'' d;
                   count = (if count > 0 then count - 1 else count)
               in putGlobalU64 ''staker_count'' count d)
         else d)"

definition deleteAccount :: "address \<Rightarrow> db \<Rightarrow> db" where
  "deleteAccount a d =
     (let old = getAccount a d;
          was_staker = (acct_staked old > 0);
          d = smt_remove (Keys_account (db_hash d) a) d;
          d = unindexAccountRow a d;
          d = unindexTokenBalanceRow a NATIVE_TOKEN_ID d
      in if \<not> was_staker then d
         else
           let d = unindexStaker a d;
               total = getGlobalU64 ''total_staked'' d;
               total = (if total \<ge> acct_staked old then total - acct_staked old else 0);
               d = putGlobalU64 ''total_staked'' total d;
               count = getGlobalU64 ''staker_count'' d;
               count = (if count > 0 then count - 1 else count)
           in putGlobalU64 ''staker_count'' count d)"

definition forEachAccount :: "(address \<Rightarrow> account \<Rightarrow> 's \<Rightarrow> 's) \<Rightarrow> db \<Rightarrow> 's \<Rightarrow> 's" where
  "forEachAccount fn d s =
     Txn_forEach TBL_ACCOUNTS
       (\<lambda>key v s. if length key \<noteq> 32 then (True, s)
                  else (case Account_deserializeState v of
                          None \<Rightarrow> (True, s)
                        | Some acct \<Rightarrow> (True, fn key acct s))) d s"

section \<open>Token balances\<close>

definition getTokenBalance :: "address \<Rightarrow> id \<Rightarrow> db \<Rightarrow> u64" where
  "getTokenBalance a t d =
     (case smt_get (Keys_tokenBalance (db_hash d) a t) d of
        None \<Rightarrow> 0
      | Some v \<Rightarrow> if length v \<noteq> 8 then 0 else readU64 v)"

definition putTokenBalance :: "address \<Rightarrow> id \<Rightarrow> u64 \<Rightarrow> db \<Rightarrow> db" where
  "putTokenBalance a t balance d =
     (let key = Keys_tokenBalance (db_hash d) a t
      in if balance = 0 then unindexTokenBalanceRow a t (smt_remove key d)
         else indexTokenBalanceRow a t balance (smt_update key (writeU64 balance) d))"

definition deleteTokenBalance :: "address \<Rightarrow> id \<Rightarrow> db \<Rightarrow> db" where
  "deleteTokenBalance a t d =
     unindexTokenBalanceRow a t (smt_remove (Keys_tokenBalance (db_hash d) a t) d)"

definition forEachTokenBalanceForOwner :: "address \<Rightarrow> (id \<Rightarrow> u64 \<Rightarrow> 's \<Rightarrow> 's) \<Rightarrow> db \<Rightarrow> 's \<Rightarrow> 's" where
  "forEachTokenBalanceForOwner owner fn d s =
     Txn_forEachWithPrefix TBL_TOKEN_BALANCES owner
       (\<lambda>key v s. if length key \<noteq> 36 \<or> length v \<noteq> 8 then (True, s)
                  else (True, fn (ucast (readU32 (drop 32 key))) (readU64 v) s)) d s"

definition forEachHolderOfToken ::
    "id \<Rightarrow> (address \<Rightarrow> u64 \<Rightarrow> 's \<Rightarrow> bool \<times> 's) \<Rightarrow> db \<Rightarrow> 's \<Rightarrow> 's" where
  "forEachHolderOfToken token_id fn d s =
     Txn_forEachWithPrefix TBL_INDEX_BALANCES_BY_TOKEN (writeU32 (ucast token_id))
       (\<lambda>key v s. if length key \<noteq> 36 \<or> length v \<noteq> 8 then (True, s)
                  else fn (take 32 (drop 4 key)) (readU64 v) s) d s"

section \<open>Frame laws of the helpers\<close>

definition keys_ok :: "skey set \<Rightarrow> db \<Rightarrow> bool" where
  "keys_ok K d \<longleftrightarrow> db_ok d \<and> collision_free (db_hash d) K"

lemma keys_okD: "keys_ok K d \<Longrightarrow> db_ok d"
  by (simp add: keys_ok_def)

lemma keys_eq: "keys_ok K d \<Longrightarrow> k \<in> K \<Longrightarrow> k' \<in> K \<Longrightarrow> skey_of (db_hash d) k = skey_of (db_hash d) k' \<longleftrightarrow> k = k'"
  by (rule skey_eq [of _ K]) (simp_all add: keys_ok_def)

lemma keys_ok_init: "\<forall>k \<in> K. key_wf k \<Longrightarrow> keys_ok K (db_init (\<lambda>b. b) v)"
  using db_ok_init by (simp add: keys_ok_def db_init_def collision_free_id)

lemma row_frame [simp]:
  "smt_get k (indexTokenBalanceRow a t b d) = smt_get k d"
  "smt_get k (unindexTokenBalanceRow a t d) = smt_get k d"
  "smt_get k (indexStaker a d) = smt_get k d"
  "smt_get k (unindexStaker a d) = smt_get k d"
  "smt_get k (putBlobRow tb x y d) = smt_get k d"
  "smt_get k (putSentinel tb x d) = smt_get k d"
  "smt_get k (putU64Row tb x u d) = smt_get k d"
  "smt_get k (deleteRow tb x d) = smt_get k d"
  "smt_get k (unindexAccountRow a d) = smt_get k d"
  by (simp_all add: indexTokenBalanceRow_def unindexTokenBalanceRow_def indexStaker_def
      unindexStaker_def unindexAccountRow_def row_defs)

lemma row_fields [simp]:
  "db_hash (indexTokenBalanceRow a t b d) = db_hash d" "db_version (indexTokenBalanceRow a t b d) = db_version d"
  "db_hash (unindexTokenBalanceRow a t d) = db_hash d" "db_version (unindexTokenBalanceRow a t d) = db_version d"
  "db_hash (indexStaker a d) = db_hash d" "db_version (indexStaker a d) = db_version d"
  "db_hash (unindexStaker a d) = db_hash d" "db_version (unindexStaker a d) = db_version d"
  "db_hash (putBlobRow tb x y d) = db_hash d" "db_version (putBlobRow tb x y d) = db_version d"
  "db_hash (putSentinel tb x d) = db_hash d" "db_version (putSentinel tb x d) = db_version d"
  "db_hash (putU64Row tb x u d) = db_hash d" "db_version (putU64Row tb x u d) = db_version d"
  "db_hash (deleteRow tb x d) = db_hash d" "db_version (deleteRow tb x d) = db_version d"
  "db_hash (unindexAccountRow a d) = db_hash d" "db_version (unindexAccountRow a d) = db_version d"
  "db_hash (putGlobalU64 n v d) = db_hash d" "db_version (putGlobalU64 n v d) = db_version d"
  by (simp_all add: indexTokenBalanceRow_def unindexTokenBalanceRow_def indexStaker_def
      unindexStaker_def unindexAccountRow_def putGlobalU64_def putGlobal_def row_defs)

lemma row_db_ok [simp]:
  "db_ok d \<Longrightarrow> db_ok (indexTokenBalanceRow a t b d)"
  "db_ok d \<Longrightarrow> db_ok (unindexTokenBalanceRow a t d)"
  "db_ok d \<Longrightarrow> db_ok (indexStaker a d)"
  "db_ok d \<Longrightarrow> db_ok (unindexStaker a d)"
  "db_ok d \<Longrightarrow> db_ok (putBlobRow tb x y d)"
  "db_ok d \<Longrightarrow> db_ok (putSentinel tb x d)"
  "db_ok d \<Longrightarrow> db_ok (putU64Row tb x u d)"
  "db_ok d \<Longrightarrow> db_ok (deleteRow tb x d)"
  "db_ok d \<Longrightarrow> db_ok (unindexAccountRow a d)"
  "db_ok d \<Longrightarrow> db_ok (putGlobalU64 n v d)"
  by (simp_all add: indexTokenBalanceRow_def unindexTokenBalanceRow_def indexStaker_def
      unindexStaker_def unindexAccountRow_def putGlobalU64_def putGlobal_def row_defs)

lemma smt_get_putGlobalU64 [simp]:
  "smt_get k (putGlobalU64 n v d) = (if k = Keys_global (db_hash d) n then Some (writeU64 v) else smt_get k d)"
  by (simp add: putGlobalU64_def putGlobal_def)

text \<open>A global read depends on one entry of the state tree.\<close>

definition decode_u64 :: "bytes option \<Rightarrow> u64" where
  "decode_u64 v = (case v of None \<Rightarrow> 0 | Some b \<Rightarrow> if length b \<noteq> 8 then 0 else readU64 b)"

lemma decode_u64_write [simp]: "decode_u64 (Some (writeU64 v)) = v"
  by (simp add: decode_u64_def codec_simps)

lemma decode_u64_None [simp]: "decode_u64 None = 0"
  by (simp add: decode_u64_def)

lemma getGlobalU64_smt: "getGlobalU64 n d = decode_u64 (smt_get (skey_of (db_hash d) (KGlobal n)) d)"
  by (simp add: getGlobalU64_def getGlobal_def decode_u64_def Keys_skey)

lemma getTokenBalance_smt:
  "getTokenBalance a t d = decode_u64 (smt_get (skey_of (db_hash d) (KTokenBalance a (ucast t))) d)"
  by (simp add: getTokenBalance_def decode_u64_def Keys_skey)

definition decode_account :: "bytes option \<Rightarrow> account" where
  "decode_account v = (case v of
      None \<Rightarrow> Account_default
    | Some b \<Rightarrow> (case Account_deserializeState b of None \<Rightarrow> Account_default | Some acct \<Rightarrow> acct))"

lemma decode_account_write [simp]: "decode_account (Some (Account_serializeState x)) = x"
  by (simp add: decode_account_def Account_codec)

lemma getAccount_smt: "getAccount a d = decode_account (smt_get (skey_of (db_hash d) (KAccount a)) d)"
  by (simp add: getAccount_def decode_account_def Keys_skey)

lemmas smt_views = getGlobalU64_smt getTokenBalance_smt getAccount_smt

text \<open>A state with the same tree and the same digest gives the same typed reads.\<close>

lemma typed_reads_cong:
  assumes "\<And>k. smt_get k d' = smt_get k d" and "db_hash d' = db_hash d"
  shows "getAccount a d' = getAccount a d" "getGlobalU64 n d' = getGlobalU64 n d"
    "getTokenBalance a t d' = getTokenBalance a t d"
  using assms by (simp_all add: smt_views)

section \<open>What putAccount does\<close>

definition stored_account :: "address \<Rightarrow> account \<Rightarrow> db \<Rightarrow> account" where
  "stored_account a x d =
     (let copy = recalculateStaked AUTO_STAKE_THRESHOLD x; old = getAccount a d
      in copy\<lparr>acct_staker_since_height :=
           (if acct_staked copy = 0 then 0
            else if acct_staked old = 0 then db_version d
            else acct_staker_since_height old)\<rparr>)"

lemma stored_account_staked [simp]:
  "acct_staked (stored_account a x d) = acct_staked (recalculateStaked AUTO_STAKE_THRESHOLD x)"
  "acct_balance (stored_account a x d) = acct_balance x"
  by (simp_all add: stored_account_def Let_def)

lemma word_gt_0_iff [simp]: "(0 < (x :: u64)) = (x \<noteq> 0)"
  by (simp add: word_neq_0_conv)

lemma db_if [simp]:
  "smt_get k (if c then d1 else d2) = (if c then smt_get k d1 else smt_get k d2)"
  "db_hash (if c then d1 else d2) = (if c then db_hash d1 else db_hash d2)"
  "Txn_get t k (if c then d1 else d2) = (if c then Txn_get t k d1 else Txn_get t k d2)"
  by simp_all

lemma putAccount_smt:
  fixes x :: account and a :: address and d :: db
  assumes "keys_ok K d"
    and "KAccount a \<in> K" "KGlobal ''total_staked'' \<in> K" "KGlobal ''staker_count'' \<in> K" "k \<in> K"
  defines "new \<equiv> acct_staked (recalculateStaked AUTO_STAKE_THRESHOLD x)"
    and "old \<equiv> acct_staked (getAccount a d)"
  shows "smt_get (skey_of (db_hash d) k) (putAccount a x d) =
     (if k = KAccount a then Some (Account_serializeState (stored_account a x d))
      else if k = KGlobal ''total_staked'' \<and> new \<noteq> old
      then Some (writeU64 (getGlobalU64 ''total_staked'' d + new - old))
      else if k = KGlobal ''staker_count'' \<and> (new = 0) \<noteq> (old = 0)
      then Some (writeU64 (if old = 0 then getGlobalU64 ''staker_count'' d + 1
                           else if getGlobalU64 ''staker_count'' d = 0 then 0
                           else getGlobalU64 ''staker_count'' d - 1))
      else smt_get (skey_of (db_hash d) k) d)"
  using assms(2-5) unfolding new_def old_def
  apply (cases "acct_staked (recalculateStaked AUTO_STAKE_THRESHOLD x) = 0";
      cases "acct_staked (getAccount a d) = 0")
     apply (simp_all add: putAccount_def Let_def Keys_skey keys_eq [OF assms(1)] getGlobalU64_smt
      stored_account_def cong: if_cong split del: if_split)
    apply (auto simp: algebra_simps)
  done

lemma putAccount_fields [simp]:
  "db_hash (putAccount a x d) = db_hash d" "db_version (putAccount a x d) = db_version d"
  by (simp_all add: putAccount_def Let_def)

lemma putAccount_db_ok [simp]: "db_ok d \<Longrightarrow> db_ok (putAccount a x d)"
  by (simp add: putAccount_def Let_def)

lemma putAccount_keys_ok [simp]: "keys_ok K d \<Longrightarrow> keys_ok K (putAccount a x d)"
  by (simp add: keys_ok_def)

lemma getAccount_putAccount:
  assumes "keys_ok K d"
    and "{KAccount a, KAccount b, KGlobal ''total_staked'', KGlobal ''staker_count''} \<subseteq> K"
  shows "getAccount b (putAccount a x d) = (if b = a then stored_account a x d else getAccount b d)"
  using assms by (simp add: getAccount_smt [of b] putAccount_smt)

lemma getTokenBalance_putAccount:
  assumes "keys_ok K d"
    and "{KAccount a, KTokenBalance b (ucast t), KGlobal ''total_staked'', KGlobal ''staker_count''} \<subseteq> K"
  shows "getTokenBalance b t (putAccount a x d) = getTokenBalance b t d"
  using assms by (simp add: getTokenBalance_smt putAccount_smt)

lemma total_staked_putAccount:
  assumes "keys_ok K d"
    and "{KAccount a, KGlobal ''total_staked'', KGlobal ''staker_count''} \<subseteq> K"
  shows "getGlobalU64 ''total_staked'' (putAccount a x d) =
    getGlobalU64 ''total_staked'' d + acct_staked (recalculateStaked AUTO_STAKE_THRESHOLD x)
      - acct_staked (getAccount a d)"
  using assms by (simp add: getGlobalU64_smt [of _ "putAccount a x d"] putAccount_smt)
    (simp add: getGlobalU64_smt)

lemma staker_count_putAccount:
  fixes x :: account and a :: address and d :: db
  assumes "keys_ok K d"
    and "{KAccount a, KGlobal ''total_staked'', KGlobal ''staker_count''} \<subseteq> K"
  defines "new \<equiv> acct_staked (recalculateStaked AUTO_STAKE_THRESHOLD x)"
    and "old \<equiv> acct_staked (getAccount a d)"
  shows "getGlobalU64 ''staker_count'' (putAccount a x d) =
    (if (new = 0) = (old = 0) then getGlobalU64 ''staker_count'' d
     else if old = 0 then getGlobalU64 ''staker_count'' d + 1
     else if getGlobalU64 ''staker_count'' d = 0 then 0
     else getGlobalU64 ''staker_count'' d - 1)"
  using assms(1,2) unfolding new_def old_def
  by (simp add: getGlobalU64_smt [of _ "putAccount a x d"] putAccount_smt)
    (auto simp: getGlobalU64_smt)

lemma Txn_get_rows [simp]:
  "Txn_get tb k (putSentinel t k' d) = (if tableName tb = tableName t \<and> k = k' then Some [1] else Txn_get tb k d)"
  "Txn_get tb k (putBlobRow t k' v d) = (if tableName tb = tableName t \<and> k = k' then Some v else Txn_get tb k d)"
  "Txn_get tb k (putU64Row t k' u d) = (if tableName tb = tableName t \<and> k = k' then Some (writeU64 u) else Txn_get tb k d)"
  "db_ok d \<Longrightarrow> Txn_get tb k (deleteRow t k' d) = (if tableName tb = tableName t \<and> k = k' then None else Txn_get tb k d)"
  "Txn_get tb k (putGlobalU64 n w d) = Txn_get tb k d"
  by (simp_all add: row_defs Txn_get_del putGlobalU64_def putGlobal_def)

lemma staker_row_putAccount:
  assumes "db_ok d"
  shows "Txn_get TBL_INDEX_STAKERS b (putAccount a x d) =
    (if b = a \<and> acct_staked (getAccount a d) = 0 \<and> acct_staked (recalculateStaked AUTO_STAKE_THRESHOLD x) \<noteq> 0
     then Some [1]
     else if b = a \<and> acct_staked (getAccount a d) \<noteq> 0 \<and> acct_staked (recalculateStaked AUTO_STAKE_THRESHOLD x) = 0
     then None else Txn_get TBL_INDEX_STAKERS b d)"
  using assms by (auto simp: putAccount_def Let_def indexStaker_def unindexStaker_def
      indexTokenBalanceRow_def unindexTokenBalanceRow_def)

lemma account_row_putAccount:
  assumes "db_ok d"
  shows "Txn_get TBL_ACCOUNTS b (putAccount a x d) =
    (if b = a then Some (Account_serializeState (stored_account a x d)) else Txn_get TBL_ACCOUNTS b d)"
  using assms by (auto simp: putAccount_def Let_def indexStaker_def unindexStaker_def
      indexTokenBalanceRow_def unindexTokenBalanceRow_def stored_account_def)

section \<open>The staking aggregates\<close>

text \<open>
  The invariant of the accounts of a finite set \<open>A\<close>: every record obeys the auto-stake rule
  and is mirrored in the account table, \<^verbatim>\<open>total_staked\<close> is the sum of the staked amounts,
  \<^verbatim>\<open>staker_count\<close> the number of stakers, the staker index holds exactly the stakers, and a
  non-staker has no staking height.
\<close>

definition stake_sum :: "address set \<Rightarrow> db \<Rightarrow> nat" where
  "stake_sum A d = (\<Sum>a \<in> A. unat (acct_staked (getAccount a d)))"

definition stakers :: "address set \<Rightarrow> db \<Rightarrow> address set" where
  "stakers A d = {a \<in> A. acct_staked (getAccount a d) \<noteq> 0}"

definition stake_inv :: "address set \<Rightarrow> db \<Rightarrow> bool" where
  "stake_inv A d \<longleftrightarrow>
     unat (getGlobalU64 ''total_staked'' d) = stake_sum A d \<and>
     unat (getGlobalU64 ''staker_count'' d) = card (stakers A d) \<and>
     (\<forall>a \<in> A. staking_rule (getAccount a d) \<and>
        (Txn_get TBL_INDEX_STAKERS a d \<noteq> None \<longleftrightarrow> a \<in> stakers A d) \<and>
        (a \<notin> stakers A d \<longrightarrow> acct_staker_since_height (getAccount a d) = 0))"

definition stake_keys :: "address set \<Rightarrow> skey set" where
  "stake_keys A = KAccount ` A \<union> {KGlobal ''total_staked'', KGlobal ''staker_count''}"

lemma stakers_card_le: "finite A \<Longrightarrow> card (stakers A d) \<le> stake_sum A d"
proof -
  assume fin: "finite A"
  have "card (stakers A d) = (\<Sum>a \<in> stakers A d. 1)" by simp
  also have "\<dots> \<le> (\<Sum>a \<in> stakers A d. unat (acct_staked (getAccount a d)))"
    by (rule sum_mono) (simp add: stakers_def Suc_le_eq unat_gt_0)
  also have "\<dots> \<le> stake_sum A d"
    unfolding stake_sum_def by (rule sum_mono2) (auto simp: stakers_def fin)
  finally show ?thesis .
qed

lemma stored_account_rule: "staking_rule (stored_account a x d)"
  using recalculateStaked_rule [of x] by (simp add: stored_account_def staking_rule_def Let_def)

lemma sum_update_one:
  fixes f g :: "'a \<Rightarrow> nat"
  assumes "finite A" "a \<in> A" "\<And>b. b \<in> A \<Longrightarrow> b \<noteq> a \<Longrightarrow> g b = f b"
  shows "sum g A + f a = sum f A + g a"
proof -
  have "sum g (A - {a}) = sum f (A - {a})" using assms(3) by (intro sum.cong) auto
  then show ?thesis using assms(1,2) by (simp add: sum.remove [of A a])
qed

lemma unat_shift:
  assumes "unat (t :: u64) = s" "s' + unat old = s + unat new" "s' < 2 ^ 64"
  shows "unat (t + new - old) = s'"
proof -
  have "t + new = word_of_nat (s + unat new)" using assms(1) by (simp add: of_nat_add flip: assms(1))
  then have "t + new - old = word_of_nat (s + unat new) - word_of_nat (unat old)" by simp
  also have "\<dots> = word_of_nat (s' + unat old) - word_of_nat (unat old)" using assms(2) by simp
  also have "\<dots> = word_of_nat s'" by simp
  finally show ?thesis using assms(3) by (simp add: unat_of_nat)
qed

lemma putAccount_stake_inv:
  assumes fin: "finite A" and a: "a \<in> A" and keys: "keys_ok (stake_keys A) d" and inv: "stake_inv A d"
    and fits: "stake_sum A (putAccount a x d) < 2 ^ 64"
  shows "stake_inv A (putAccount a x d)"
proof -
  let ?d = "putAccount a x d" and ?old = "acct_staked (getAccount a d)"
    and ?new = "acct_staked (recalculateStaked AUTO_STAKE_THRESHOLD x)"
  have get: "getAccount b ?d = (if b = a then stored_account a x d else getAccount b d)" if "b \<in> A" for b
    using a that by (intro getAccount_putAccount [OF keys]) (auto simp: stake_keys_def)
  have sub: "{KAccount a, KGlobal ''total_staked'', KGlobal ''staker_count''} \<subseteq> stake_keys A"
    using a by (auto simp: stake_keys_def)
  have sums: "stake_sum A ?d + unat ?old = stake_sum A d + unat ?new"
    using sum_update_one [OF fin a, where g = "\<lambda>b. unat (acct_staked (getAccount b ?d))"
        and f = "\<lambda>b. unat (acct_staked (getAccount b d))"] get a by (simp add: stake_sum_def)
  have total: "unat (getGlobalU64 ''total_staked'' ?d) = stake_sum A ?d"
    unfolding total_staked_putAccount [OF keys sub]
    using inv sums fits by (intro unat_shift) (simp_all add: stake_inv_def)
  have st: "stakers A ?d = (if ?new = 0 then stakers A d - {a} else insert a (stakers A d))"
    using a get by (auto simp: stakers_def split: if_splits)
  have fin_st: "finite (stakers A d)" using fin by (simp add: stakers_def)
  have mem: "a \<in> stakers A d \<longleftrightarrow> ?old \<noteq> 0" using a by (simp add: stakers_def)
  have cnt: "unat (getGlobalU64 ''staker_count'' d) = card (stakers A d)" using inv by (simp add: stake_inv_def)
  have "card (stakers A ?d) < 2 ^ 64" using stakers_card_le [OF fin, of ?d] fits by simp
  then have small: "?new \<noteq> 0 \<Longrightarrow> ?old = 0 \<Longrightarrow> Suc (card (stakers A d)) < 2 ^ 64"
    using mem fin_st by (simp add: st)
  have up: "?new \<noteq> 0 \<Longrightarrow> ?old = 0 \<Longrightarrow> unat (getGlobalU64 ''staker_count'' d + 1) = Suc (card (stakers A d))"
    using small cnt by (simp add: unat_add_no_overflow)
  have nz: "?old \<noteq> 0 \<Longrightarrow> getGlobalU64 ''staker_count'' d \<noteq> 0"
    using cnt mem fin_st by auto
  have down: "?old \<noteq> 0 \<Longrightarrow> unat (getGlobalU64 ''staker_count'' d - 1) = card (stakers A d) - 1"
    using cnt nz by (simp add: unat_minus_one)
  have count: "unat (getGlobalU64 ''staker_count'' ?d) = card (stakers A ?d)"
    unfolding staker_count_putAccount [OF keys sub] st
    using up down nz cnt mem fin_st by (auto simp: insert_absorb)
  have rows: "Txn_get TBL_INDEX_STAKERS b ?d \<noteq> None \<longleftrightarrow> b \<in> stakers A ?d" if "b \<in> A" for b
    using inv that mem unfolding staker_row_putAccount [OF keys_okD [OF keys]] st
    by (auto simp: stake_inv_def)
  have since: "b \<notin> stakers A ?d \<Longrightarrow> acct_staker_since_height (getAccount b ?d) = 0" if "b \<in> A" for b
    using inv that a unfolding get [OF that] st
    by (auto simp: stake_inv_def stored_account_def Let_def split: if_splits)
  show ?thesis
    using total count rows since get inv stored_account_rule by (auto simp: stake_inv_def)
qed

lemma deleteAccount_smt:
  fixes a :: address and d :: db
  assumes "keys_ok K d"
    and "KAccount a \<in> K" "KGlobal ''total_staked'' \<in> K" "KGlobal ''staker_count'' \<in> K" "k \<in> K"
  defines "old \<equiv> acct_staked (getAccount a d)"
  shows "smt_get (skey_of (db_hash d) k) (deleteAccount a d) =
     (if k = KAccount a then None
      else if k = KGlobal ''total_staked'' \<and> old \<noteq> 0
      then Some (writeU64 (if getGlobalU64 ''total_staked'' d \<ge> old
                           then getGlobalU64 ''total_staked'' d - old else 0))
      else if k = KGlobal ''staker_count'' \<and> old \<noteq> 0
      then Some (writeU64 (if getGlobalU64 ''staker_count'' d = 0 then 0
                           else getGlobalU64 ''staker_count'' d - 1))
      else smt_get (skey_of (db_hash d) k) d)"
  using assms(2-5) unfolding old_def
  by (simp add: deleteAccount_def Let_def Keys_skey keys_eq [OF assms(1)] getGlobalU64_smt
      cong: if_cong split del: if_split) auto

lemma deleteAccount_fields [simp]:
  "db_hash (deleteAccount a d) = db_hash d" "db_version (deleteAccount a d) = db_version d"
  by (simp_all add: deleteAccount_def Let_def)

lemma deleteAccount_db_ok [simp]: "db_ok d \<Longrightarrow> db_ok (deleteAccount a d)"
  by (simp add: deleteAccount_def Let_def)

lemma getAccount_deleteAccount:
  assumes "keys_ok K d"
    and "{KAccount a, KAccount b, KGlobal ''total_staked'', KGlobal ''staker_count''} \<subseteq> K"
  shows "getAccount b (deleteAccount a d) = (if b = a then Account_default else getAccount b d)"
  using assms by (simp add: getAccount_smt [of b] deleteAccount_smt)
    (simp add: decode_account_def)

lemma staker_row_deleteAccount:
  assumes "db_ok d"
  shows "Txn_get TBL_INDEX_STAKERS b (deleteAccount a d) =
    (if b = a \<and> acct_staked (getAccount a d) \<noteq> 0 then None else Txn_get TBL_INDEX_STAKERS b d)"
  using assms by (auto simp: deleteAccount_def Let_def unindexStaker_def unindexTokenBalanceRow_def
      unindexAccountRow_def)

lemma deleteAccount_stake_inv:
  assumes fin: "finite A" and a: "a \<in> A" and keys: "keys_ok (stake_keys A) d" and inv: "stake_inv A d"
  shows "stake_inv A (deleteAccount a d)"
proof -
  let ?d = "deleteAccount a d" and ?old = "acct_staked (getAccount a d)"
  have get: "getAccount b ?d = (if b = a then Account_default else getAccount b d)" if "b \<in> A" for b
    using a that by (intro getAccount_deleteAccount [OF keys]) (auto simp: stake_keys_def)
  have sub: "KAccount a \<in> stake_keys A" "KGlobal ''total_staked'' \<in> stake_keys A"
    "KGlobal ''staker_count'' \<in> stake_keys A"
    using a by (auto simp: stake_keys_def)
  note smt = deleteAccount_smt [OF keys sub]
  have dflt: "acct_staked Account_default = 0" by (simp add: Account_default_def)
  have sums: "stake_sum A ?d + unat ?old = stake_sum A d"
    using sum_update_one [OF fin a, where g = "\<lambda>b. unat (acct_staked (getAccount b ?d))"
        and f = "\<lambda>b. unat (acct_staked (getAccount b d))"] get a dflt by (simp add: stake_sum_def)
  have tot: "unat (getGlobalU64 ''total_staked'' d) = stake_sum A d"
    and cnt: "unat (getGlobalU64 ''staker_count'' d) = card (stakers A d)"
    using inv by (simp_all add: stake_inv_def)
  have le: "?old \<le> getGlobalU64 ''total_staked'' d"
    using sums tot by (simp add: word_le_nat_alt)
  have "getGlobalU64 ''total_staked'' ?d = getGlobalU64 ''total_staked'' d - ?old"
    using le by (simp add: getGlobalU64_smt [of _ ?d] smt sub) (simp add: getGlobalU64_smt)
  then have total: "unat (getGlobalU64 ''total_staked'' ?d) = stake_sum A ?d"
    using le sums tot by (simp add: unat_sub_le)
  have st: "stakers A ?d = stakers A d - {a}"
    using a get dflt by (auto simp: stakers_def split: if_splits)
  have fin_st: "finite (stakers A d)" using fin by (simp add: stakers_def)
  have mem: "a \<in> stakers A d \<longleftrightarrow> ?old \<noteq> 0" using a by (simp add: stakers_def)
  have nz: "?old \<noteq> 0 \<Longrightarrow> getGlobalU64 ''staker_count'' d \<noteq> 0"
    using cnt mem fin_st by auto
  have "getGlobalU64 ''staker_count'' ?d =
      (if ?old = 0 then getGlobalU64 ''staker_count'' d else getGlobalU64 ''staker_count'' d - 1)"
    using nz by (simp add: getGlobalU64_smt [of _ ?d] smt sub) (auto simp: getGlobalU64_smt)
  then have count: "unat (getGlobalU64 ''staker_count'' ?d) = card (stakers A ?d)"
    using nz cnt mem fin_st by (auto simp: st unat_minus_one)
  have rows: "Txn_get TBL_INDEX_STAKERS b ?d \<noteq> None \<longleftrightarrow> b \<in> stakers A ?d" if "b \<in> A" for b
    using inv that mem unfolding staker_row_deleteAccount [OF keys_okD [OF keys]] st
    by (auto simp: stake_inv_def)
  show ?thesis
    using total count rows get inv staking_rule_default unfolding stake_inv_def st
    by (auto simp: Account_default_def)
qed

text \<open>The empty state satisfies the invariant.\<close>

lemma stake_inv_init: "stake_inv A (db_init H v)"
  using staking_rule_default
  by (simp add: stake_inv_def stake_sum_def stakers_def getAccount_def getGlobalU64_def getGlobal_def
      smt_get_def Txn_get_def db_init_def Account_default_def)

end
