(* ===== verification/Asset_Types.thy ===== *)
theory Asset_Types
  imports Config
begin

text \<open>
  Token metadata (\<^verbatim>\<open>src/Core/TokenTypes\<close>), non-fungible tokens and their collections
  (\<^verbatim>\<open>src/Core/NftTypes\<close>), with validity checks and state codecs. Strings are byte strings.
\<close>

section \<open>TokenInfo\<close>

datatype BackingModel = Unbacked | Backed | Hybrid | Backing_raw u8

definition backing_byte :: "BackingModel \<Rightarrow> u8" where
  "backing_byte m = (case m of Unbacked \<Rightarrow> 0 | Backed \<Rightarrow> 1 | Hybrid \<Rightarrow> 2 | Backing_raw b \<Rightarrow> b)"

definition backing_of_byte :: "u8 \<Rightarrow> BackingModel" where
  "backing_of_byte b =
     (if b = 0 then Unbacked else if b = 1 then Backed else if b = 2 then Hybrid else Backing_raw b)"

definition TOKEN_NAME_MAX :: nat where "TOKEN_NAME_MAX = 64"
definition TOKEN_SYMBOL_MIN :: nat where "TOKEN_SYMBOL_MIN = 3"
definition TOKEN_SYMBOL_MAX :: nat where "TOKEN_SYMBOL_MAX = 8"

record token_info =
  tok_id :: id
  tok_name :: bytes
  tok_symbol :: bytes
  tok_decimals :: u8
  tok_creator :: address
  tok_backing :: BackingModel
  tok_maxSupply :: u64
  tok_royaltyBps :: u16
  tok_fingerprint :: "hash option"

definition TokenInfo_isNative :: "token_info \<Rightarrow> bool" where
  "TokenInfo_isNative t = (tok_id t = NATIVE_TOKEN_ID)"

definition TokenInfo_isBridged :: "token_info \<Rightarrow> bool" where
  "TokenInfo_isBridged t = (tok_fingerprint t \<noteq> None)"

definition TokenInfo_isValid :: "token_info \<Rightarrow> bool" where
  "TokenInfo_isValid t =
     (if length (tok_symbol t) < TOKEN_SYMBOL_MIN then False
      else if length (tok_symbol t) > TOKEN_SYMBOL_MAX then False
      else if tok_name t = [] \<or> length (tok_name t) > TOKEN_NAME_MAX then False
      else if tok_decimals t > 18 then False
      else if tok_royaltyBps t > 10000 then False
      else True)"

text \<open>\<open>clamp_len n max\<close> is \<^verbatim>\<open>n > max ? max : n\<close>.\<close>

definition clamp_len :: "nat \<Rightarrow> nat \<Rightarrow> nat" where
  "clamp_len n m = (if n > m then m else n)"

definition TokenInfo_serializeState :: "token_info \<Rightarrow> bytes" where
  "TokenInfo_serializeState t =
     (let name_len = clamp_len (length (tok_name t)) TOKEN_NAME_MAX;
          sym_len = clamp_len (length (tok_symbol t)) TOKEN_SYMBOL_MAX
      in run_writer
        ([wr_u32 (ucast (tok_id t)),
          wr_u8 (tok_decimals t),
          wr_u8 (backing_byte (tok_backing t)),
          wr_u8 (of_nat name_len),
          wr_bytes (tok_name t) name_len,
          wr_u8 (of_nat sym_len),
          wr_bytes (tok_symbol t) sym_len,
          wr_u64 (tok_maxSupply t),
          wr_u16 (tok_royaltyBps t),
          wr_bytes (tok_creator t) (length (tok_creator t))]
         @ (case tok_fingerprint t of
              Some fp \<Rightarrow> [wr_u8 1, wr_bytes fp (length fp)]
            | None \<Rightarrow> [wr_u8 0])))"

definition TokenInfo_deserializeState :: "bytes \<Rightarrow> token_info option" where
  "TokenInfo_deserializeState data =
     (let r = Reader data;
          (tid, r) = rd_u32 r;
          (decimals, r) = rd_u8 r;
          (backing, r) = rd_u8 r;
          (name_len, r) = rd_u8 r
      in if \<not> rd_ok r \<or> unat name_len > TOKEN_NAME_MAX then None
         else
           let (name, r) = rd_string (unat name_len) r;
               (sym_len, r) = rd_u8 r
           in if \<not> rd_ok r \<or> unat sym_len > TOKEN_SYMBOL_MAX then None
              else
                let (symbol, r) = rd_string (unat sym_len) r;
                    (maxSupply, r) = rd_u64 r;
                    (royaltyBps, r) = rd_u16 r;
                    (creator, r) = rd_bytes null32 32 r;
                    (has_fp, r) = rd_u8 r
                in if \<not> rd_ok r then None
                   else
                     let (fp, r) = (if has_fp \<noteq> 0
                           then (let (h, r) = rd_bytes null32 32 r in (Some h, r))
                           else (None, r))
                     in if \<not> rd_ok r then None
                        else if rd_remaining r \<noteq> 0 then None
                        else Some \<lparr>tok_id = ucast tid, tok_name = name, tok_symbol = symbol,
                               tok_decimals = decimals, tok_creator = creator,
                               tok_backing = backing_of_byte backing, tok_maxSupply = maxSupply,
                               tok_royaltyBps = royaltyBps, tok_fingerprint = fp\<rparr>)"

definition TokenInfo_wf :: "token_info \<Rightarrow> bool" where
  "TokenInfo_wf t \<longleftrightarrow> fits32 (tok_id t) \<and> length (tok_name t) \<le> TOKEN_NAME_MAX
     \<and> length (tok_symbol t) \<le> TOKEN_SYMBOL_MAX \<and> length (tok_creator t) = 32
     \<and> (\<forall>b. tok_backing t \<noteq> Backing_raw b)
     \<and> (case tok_fingerprint t of None \<Rightarrow> True | Some fp \<Rightarrow> length fp = 32)"

lemma clamp_len_id [simp]: "n \<le> m \<Longrightarrow> clamp_len n m = n"
  by (simp add: clamp_len_def)

lemma unat_of_nat_u8 [simp]: "n \<le> 64 \<Longrightarrow> unat (of_nat n :: u8) = n"
  by (simp add: unat_of_nat)

lemma unat_of_nat_u16 [simp]: "n \<le> 512 \<Longrightarrow> unat (of_nat n :: u16) = n"
  by (simp add: unat_of_nat)

lemma backing_of_byte_byte: "(\<forall>b. m \<noteq> Backing_raw b) \<Longrightarrow> backing_of_byte (backing_byte m) = m"
  by (cases m) (auto simp: backing_of_byte_def backing_byte_def)

lemma TokenInfo_codec:
  "TokenInfo_wf t \<Longrightarrow> TokenInfo_deserializeState (TokenInfo_serializeState t) = Some t"
  by (cases t) (auto simp: TokenInfo_deserializeState_def TokenInfo_serializeState_def TokenInfo_wf_def
      run_writer_Cons codec_simps Let_def TOKEN_NAME_MAX_def TOKEN_SYMBOL_MAX_def ucast_fits32
      backing_of_byte_byte split: option.splits)

interpretation tok_codec: state_codec TokenInfo_serializeState TokenInfo_deserializeState TokenInfo_wf
  by unfold_locales (rule TokenInfo_codec)

section \<open>NftInfo\<close>

definition NFT_URI_MAX :: nat where "NFT_URI_MAX = 512"
definition NFT_COLLECTION_NAME_MAX :: nat where "NFT_COLLECTION_NAME_MAX = TOKEN_NAME_MAX"
definition NFT_COLLECTION_SYMBOL_MAX :: nat where "NFT_COLLECTION_SYMBOL_MAX = TOKEN_SYMBOL_MAX"

record nft_info =
  nft_id :: u64
  nft_owner :: address
  nft_creator :: address
  nft_shadow_token_id :: id
  nft_underlying_token_id :: id
  nft_wrapped_amount :: u64
  nft_collection_id :: u64
  nft_metadata_hash :: hash
  nft_metadata_uri :: bytes
  nft_frozen :: bool
  nft_last_accrual_height :: u64
  nft_accrued_owed :: u64
  nft_created_at_height :: u64

definition NftInfo_isStandalone :: "nft_info \<Rightarrow> bool" where
  "NftInfo_isStandalone n = (nft_underlying_token_id n = 0)"

definition NftInfo_isWrapped :: "nft_info \<Rightarrow> bool" where
  "NftInfo_isWrapped n = (nft_underlying_token_id n \<noteq> 0)"

definition NftInfo_isValid :: "nft_info \<Rightarrow> bool" where
  "NftInfo_isValid n =
     (if nft_id n = INVALID_ID then False
      else if isNull (nft_owner n) then False
      else if isNull (nft_creator n) then False
      else if nft_shadow_token_id n = 0 then False
      else if nft_underlying_token_id n = 0 \<and> nft_wrapped_amount n \<noteq> 0 then False
      else if nft_underlying_token_id n \<noteq> 0 \<and> nft_wrapped_amount n = 0 then False
      else if nft_underlying_token_id n = nft_shadow_token_id n then False
      else if length (nft_metadata_uri n) > NFT_URI_MAX then False
      else True)"

definition NftInfo_serializeState :: "nft_info \<Rightarrow> bytes" where
  "NftInfo_serializeState n =
     (let uri_len = clamp_len (length (nft_metadata_uri n)) NFT_URI_MAX;
          has_hash = \<not> isNull (nft_metadata_hash n)
      in run_writer
        [wr_u64 (nft_id n),
         wr_bytes (nft_owner n) (length (nft_owner n)),
         wr_bytes (nft_creator n) (length (nft_creator n)),
         wr_u32 (ucast (nft_shadow_token_id n)),
         wr_u32 (ucast (nft_underlying_token_id n)),
         wr_u64 (nft_wrapped_amount n),
         wr_u64 (nft_collection_id n),
         wr_bytes (nft_metadata_hash n) (length (nft_metadata_hash n)),
         wr_u8 (bool_byte has_hash),
         wr_u16 (of_nat uri_len),
         wr_bytes (nft_metadata_uri n) uri_len,
         wr_u8 (bool_byte (nft_frozen n)),
         wr_u64 (nft_last_accrual_height n),
         wr_u64 (nft_accrued_owed n),
         wr_u64 (nft_created_at_height n)])"

definition NftInfo_deserializeState :: "bytes \<Rightarrow> nft_info option" where
  "NftInfo_deserializeState data =
     (let r = Reader data;
          (nid, r) = rd_u64 r;
          (owner, r) = rd_bytes null32 32 r;
          (creator, r) = rd_bytes null32 32 r;
          (shadow, r) = rd_u32 r;
          (underlying, r) = rd_u32 r;
          (wrapped, r) = rd_u64 r;
          (collection, r) = rd_u64 r;
          (mhash, r) = rd_bytes null32 32 r;
          (has_hash, r) = rd_u8 r
      in if \<not> rd_ok r then None
         else if has_hash = 0 \<and> \<not> isNull mhash then None
         else if has_hash \<noteq> 0 \<and> has_hash \<noteq> 1 then None
         else
           let (uri_len, r) = rd_u16 r
           in if \<not> rd_ok r \<or> unat uri_len > NFT_URI_MAX then None
              else
                let (uri, r) = rd_string (unat uri_len) r;
                    (frozen_byte, r) = rd_u8 r
                in if \<not> rd_ok r \<or> frozen_byte > 1 then None
                   else
                     let (last_accrual, r) = rd_u64 r;
                         (owed, r) = rd_u64 r;
                         (created, r) = rd_u64 r
                     in if \<not> rd_ok r then None
                        else if rd_remaining r \<noteq> 0 then None
                        else
                          let out = \<lparr>nft_id = nid, nft_owner = owner, nft_creator = creator,
                                nft_shadow_token_id = ucast shadow,
                                nft_underlying_token_id = ucast underlying,
                                nft_wrapped_amount = wrapped, nft_collection_id = collection,
                                nft_metadata_hash = mhash, nft_metadata_uri = uri,
                                nft_frozen = (frozen_byte = 1),
                                nft_last_accrual_height = last_accrual,
                                nft_accrued_owed = owed, nft_created_at_height = created\<rparr>
                          in if NftInfo_isValid out then Some out else None)"

definition NftInfo_wf :: "nft_info \<Rightarrow> bool" where
  "NftInfo_wf n \<longleftrightarrow> NftInfo_isValid n \<and> length (nft_owner n) = 32 \<and> length (nft_creator n) = 32
     \<and> length (nft_metadata_hash n) = 32 \<and> fits32 (nft_shadow_token_id n)
     \<and> fits32 (nft_underlying_token_id n)"

lemma bool_byte_le [simp]: "\<not> 1 < bool_byte b" "(bool_byte b = 1) = b"
  by (simp_all add: bool_byte_def)

lemma bool_byte_cases [simp]: "bool_byte b \<noteq> 1 \<Longrightarrow> bool_byte b = 0"
  by (simp add: bool_byte_def split: if_splits)

lemma NftInfo_codec: "NftInfo_wf n \<Longrightarrow> NftInfo_deserializeState (NftInfo_serializeState n) = Some n"
proof (cases n)
  case (fields nid owner creator shadow underlying wrapped coll mhash uri frozen last owed created)
  assume "NftInfo_wf n"
  with fields have uri: "length uri \<le> 512" and rest: "NftInfo_wf n"
    by (auto simp: NftInfo_wf_def NftInfo_isValid_def NFT_URI_MAX_def split: if_splits)
  then show ?thesis unfolding fields NftInfo_wf_def
    by (simp add: NftInfo_deserializeState_def NftInfo_serializeState_def
        run_writer_Cons codec_simps Let_def NFT_URI_MAX_def ucast_fits32)
qed

interpretation nft_codec: state_codec NftInfo_serializeState NftInfo_deserializeState NftInfo_wf
  by unfold_locales (rule NftInfo_codec)

section \<open>NftCollection\<close>

record nft_collection =
  col_id :: u64
  col_creator :: address
  col_name :: bytes
  col_symbol :: bytes
  col_base_uri :: bytes
  col_reward_token_id :: id
  col_reward_rate_per_epoch :: u64
  col_reward_escrow_remaining :: u64
  col_reward_paused :: bool
  col_created_at_height :: u64
  col_minted_count :: u64

definition NftCollection_hasReward :: "nft_collection \<Rightarrow> bool" where
  "NftCollection_hasReward c = (col_reward_token_id c \<noteq> 0 \<and> col_reward_rate_per_epoch c > 0)"

definition NftCollection_isActive :: "nft_collection \<Rightarrow> bool" where
  "NftCollection_isActive c =
     (NftCollection_hasReward c \<and> \<not> col_reward_paused c \<and> col_reward_escrow_remaining c > 0)"

definition NftCollection_isValid :: "nft_collection \<Rightarrow> bool" where
  "NftCollection_isValid c =
     (if col_id c = INVALID_ID then False
      else if isNull (col_creator c) then False
      else if col_name c = [] \<or> length (col_name c) > NFT_COLLECTION_NAME_MAX then False
      else if length (col_symbol c) < TOKEN_SYMBOL_MIN
              \<or> length (col_symbol c) > NFT_COLLECTION_SYMBOL_MAX then False
      else if length (col_base_uri c) > NFT_URI_MAX then False
      else if col_reward_token_id c = 0 then
        (if col_reward_rate_per_epoch c \<noteq> 0 then False
         else if col_reward_escrow_remaining c \<noteq> 0 then False
         else True)
      else (if col_reward_rate_per_epoch c = 0 then False else True))"

definition NftCollection_serializeState :: "nft_collection \<Rightarrow> bytes" where
  "NftCollection_serializeState c =
     (let name_len = clamp_len (length (col_name c)) NFT_COLLECTION_NAME_MAX;
          sym_len = clamp_len (length (col_symbol c)) NFT_COLLECTION_SYMBOL_MAX;
          uri_len = clamp_len (length (col_base_uri c)) NFT_URI_MAX
      in run_writer
        [wr_u64 (col_id c),
         wr_bytes (col_creator c) (length (col_creator c)),
         wr_u8 (of_nat name_len),
         wr_bytes (col_name c) name_len,
         wr_u8 (of_nat sym_len),
         wr_bytes (col_symbol c) sym_len,
         wr_u16 (of_nat uri_len),
         wr_bytes (col_base_uri c) uri_len,
         wr_u32 (ucast (col_reward_token_id c)),
         wr_u64 (col_reward_rate_per_epoch c),
         wr_u64 (col_reward_escrow_remaining c),
         wr_u8 (bool_byte (col_reward_paused c)),
         wr_u64 (col_created_at_height c),
         wr_u64 (col_minted_count c)])"

definition NftCollection_deserializeState :: "bytes \<Rightarrow> nft_collection option" where
  "NftCollection_deserializeState data =
     (let r = Reader data;
          (cid, r) = rd_u64 r;
          (creator, r) = rd_bytes null32 32 r;
          (name_len, r) = rd_u8 r
      in if \<not> rd_ok r \<or> unat name_len > NFT_COLLECTION_NAME_MAX then None
         else
           let (name, r) = rd_string (unat name_len) r;
               (sym_len, r) = rd_u8 r
           in if \<not> rd_ok r \<or> unat sym_len > NFT_COLLECTION_SYMBOL_MAX then None
              else
                let (symbol, r) = rd_string (unat sym_len) r;
                    (uri_len, r) = rd_u16 r
                in if \<not> rd_ok r \<or> unat uri_len > NFT_URI_MAX then None
                   else
                     let (uri, r) = rd_string (unat uri_len) r;
                         (rtok, r) = rd_u32 r;
                         (rate, r) = rd_u64 r;
                         (escrow, r) = rd_u64 r;
                         (paused_byte, r) = rd_u8 r
                     in if \<not> rd_ok r \<or> paused_byte > 1 then None
                        else
                          let (created, r) = rd_u64 r;
                              (minted, r) = rd_u64 r
                          in if \<not> rd_ok r then None
                             else if rd_remaining r \<noteq> 0 then None
                             else
                               let out = \<lparr>col_id = cid, col_creator = creator, col_name = name,
                                     col_symbol = symbol, col_base_uri = uri,
                                     col_reward_token_id = ucast rtok,
                                     col_reward_rate_per_epoch = rate,
                                     col_reward_escrow_remaining = escrow,
                                     col_reward_paused = (paused_byte = 1),
                                     col_created_at_height = created, col_minted_count = minted\<rparr>
                               in if NftCollection_isValid out then Some out else None)"

definition NftCollection_wf :: "nft_collection \<Rightarrow> bool" where
  "NftCollection_wf c \<longleftrightarrow> NftCollection_isValid c \<and> length (col_creator c) = 32
     \<and> fits32 (col_reward_token_id c)"

lemma NftCollection_codec:
  "NftCollection_wf c \<Longrightarrow> NftCollection_deserializeState (NftCollection_serializeState c) = Some c"
proof (cases c)
  case (fields cid creator name symbol uri rtok rate escrow paused created minted)
  assume wf: "NftCollection_wf c"
  with fields have len: "length name \<le> 64" "length symbol \<le> 8" "length uri \<le> 512"
    by (auto simp: NftCollection_wf_def NftCollection_isValid_def NFT_URI_MAX_def
        NFT_COLLECTION_NAME_MAX_def NFT_COLLECTION_SYMBOL_MAX_def TOKEN_NAME_MAX_def
        TOKEN_SYMBOL_MAX_def split: if_splits)
  with wf show ?thesis unfolding fields NftCollection_wf_def
    by (simp add: NftCollection_deserializeState_def NftCollection_serializeState_def
        run_writer_Cons codec_simps Let_def NFT_URI_MAX_def ucast_fits32
        NFT_COLLECTION_NAME_MAX_def NFT_COLLECTION_SYMBOL_MAX_def TOKEN_NAME_MAX_def
        TOKEN_SYMBOL_MAX_def)
qed

interpretation col_codec:
  state_codec NftCollection_serializeState NftCollection_deserializeState NftCollection_wf
  by unfold_locales (rule NftCollection_codec)

end
