(* ===== verification/Validator_Types.thy ===== *)
theory Validator_Types
  imports Config
begin

text \<open>
  Validator records and the registry (\<^verbatim>\<open>src/Core/ValidatorTypes\<close>), the consensus-key history
  of a validator (\<^verbatim>\<open>src/Core/KeyRotation\<close>) and the staking summary records
  (\<^verbatim>\<open>src/Core/StakingTypes.h\<close>).
\<close>

unbundle bit_operations_syntax

section \<open>ValidatorInfo\<close>

record validator_info =
  val_id :: id
  val_reward_address :: address
  val_consensus_key :: pubkey
  val_node_key :: pubkey
  val_owner :: address
  val_registered_at_height :: u64
  val_stake :: u64
  val_uptime_score :: u16
  val_last_ping_height :: u64
  val_pings_responded_this_epoch :: u32
  val_pings_sent_this_epoch :: u32
  val_last_seen_height :: u64
  val_reward_multiplier :: u16
  val_infraction_count :: u16
  val_last_infraction_height :: u64
  val_total_blocks_produced :: u64
  val_total_rewards_earned :: u64
  val_epochs_active :: u64
  val_is_seed :: bool
  val_is_active :: bool
  val_became_active_at :: u64
  val_last_active_at :: u64
  val_pending_unbond_height :: u64

definition ValidatorInfo_default :: validator_info where
  "ValidatorInfo_default = \<lparr>val_id = INVALID_ID, val_reward_address = null32,
     val_consensus_key = null32, val_node_key = null32, val_owner = null32,
     val_registered_at_height = 0, val_stake = 0, val_uptime_score = 10000,
     val_last_ping_height = 0, val_pings_responded_this_epoch = 0, val_pings_sent_this_epoch = 0,
     val_last_seen_height = 0, val_reward_multiplier = REWARD_MULTIPLIER_START,
     val_infraction_count = 0, val_last_infraction_height = 0, val_total_blocks_produced = 0,
     val_total_rewards_earned = 0, val_epochs_active = 0, val_is_seed = False,
     val_is_active = False, val_became_active_at = 0, val_last_active_at = 0,
     val_pending_unbond_height = 0\<rparr>"

definition isOffline :: "validator_info \<Rightarrow> u64 \<Rightarrow> bool" where
  "isOffline v current_height =
     (if current_height < val_last_seen_height v then False
      else current_height - val_last_seen_height v \<ge> OFFLINE_KICK_BLOCKS)"

definition isHealthy :: "validator_info \<Rightarrow> bool" where
  "isHealthy v = (val_uptime_score v \<ge> UPTIME_REMOVAL_THRESHOLD_BPS)"

definition meetsStakeRequirement :: "validator_info \<Rightarrow> bool" where
  "meetsStakeRequirement v = (val_stake v \<ge> VALIDATOR_MIN_STAKE)"

definition canBeActive :: "validator_info \<Rightarrow> bool" where
  "canBeActive v = (val_pending_unbond_height v = 0 \<and> isHealthy v
     \<and> val_uptime_score v \<ge> UPTIME_ACTIVE_MIN_BPS \<and> meetsStakeRequirement v)"

text \<open>The subtraction is done at 32 bits, so it wraps below zero.\<close>

definition applyInfractionPenalty :: "validator_info \<Rightarrow> u64 \<Rightarrow> validator_info" where
  "applyInfractionPenalty v height =
     (let penalized = (ucast (val_reward_multiplier v) :: u32) - ucast REWARD_MULTIPLIER_PENALTY
      in v \<lparr>val_infraction_count := val_infraction_count v + 1,
            val_reward_multiplier :=
              (if penalized < ucast REWARD_MULTIPLIER_FLOOR then REWARD_MULTIPLIER_FLOOR
               else ucast penalized),
            val_last_infraction_height := height\<rparr>)"

definition effectiveConsensusKey :: "validator_info \<Rightarrow> pubkey" where
  "effectiveConsensusKey v =
     (if isNull (val_consensus_key v) then val_reward_address v else val_consensus_key v)"

definition isUnbonding :: "validator_info \<Rightarrow> u64 \<Rightarrow> bool" where
  "isUnbonding v current_height =
     (if val_pending_unbond_height v = 0 then False
      else current_height < val_pending_unbond_height v)"

definition isUnbondExpired :: "validator_info \<Rightarrow> u64 \<Rightarrow> bool" where
  "isUnbondExpired v current_height =
     (val_pending_unbond_height v \<noteq> 0 \<and> current_height \<ge> val_pending_unbond_height v)"

definition ValidatorInfo_STATE_SIZE :: nat where
  "ValidatorInfo_STATE_SIZE = 8 + 32 + 32 + 32 + 32 + 8 + 8 + 2 + 8 + 4 + 4 + 8 + 2 + 2 + 8 + 8 + 8
     + 8 + 1 + 8 + 8 + 8"

definition ValidatorInfo_serializeState :: "validator_info \<Rightarrow> bytes" where
  "ValidatorInfo_serializeState v =
     (let flags = 0 :: u8;
          flags = (if val_is_seed v then flags OR 0x01 else flags);
          flags = (if val_is_active v then flags OR 0x02 else flags)
      in run_writer
        [wr_u64 (val_id v),
         wr_bytes (val_reward_address v) (length (val_reward_address v)),
         wr_bytes (val_consensus_key v) (length (val_consensus_key v)),
         wr_bytes (val_node_key v) (length (val_node_key v)),
         wr_bytes (val_owner v) (length (val_owner v)),
         wr_u64 (val_registered_at_height v),
         wr_u64 (val_stake v),
         wr_u16 (val_uptime_score v),
         wr_u64 (val_last_ping_height v),
         wr_u32 (val_pings_responded_this_epoch v),
         wr_u32 (val_pings_sent_this_epoch v),
         wr_u64 (val_last_seen_height v),
         wr_u16 (val_reward_multiplier v),
         wr_u16 (val_infraction_count v),
         wr_u64 (val_last_infraction_height v),
         wr_u64 (val_total_blocks_produced v),
         wr_u64 (val_total_rewards_earned v),
         wr_u64 (val_epochs_active v),
         wr_u8 flags,
         wr_u64 (val_became_active_at v),
         wr_u64 (val_last_active_at v),
         wr_u64 (val_pending_unbond_height v)])"

definition ValidatorInfo_deserializeState :: "bytes \<Rightarrow> validator_info option" where
  "ValidatorInfo_deserializeState data =
     (if length data \<noteq> ValidatorInfo_STATE_SIZE then None
      else
        let r = Reader data;
            (vid, r) = rd_u64 r;
            (reward_address, r) = rd_bytes null32 32 r;
            (consensus_key, r) = rd_bytes null32 32 r;
            (node_key, r) = rd_bytes null32 32 r;
            (owner, r) = rd_bytes null32 32 r;
            (registered, r) = rd_u64 r;
            (stake, r) = rd_u64 r;
            (uptime, r) = rd_u16 r;
            (last_ping, r) = rd_u64 r;
            (responded, r) = rd_u32 r;
            (sent, r) = rd_u32 r;
            (last_seen, r) = rd_u64 r;
            (multiplier, r) = rd_u16 r;
            (infractions, r) = rd_u16 r;
            (last_infraction, r) = rd_u64 r;
            (produced, r) = rd_u64 r;
            (earned, r) = rd_u64 r;
            (epochs, r) = rd_u64 r;
            (flags, r) = rd_u8 r;
            (became, r) = rd_u64 r;
            (last_active, r) = rd_u64 r;
            (unbond, r) = rd_u64 r
        in if rd_ok r
           then Some \<lparr>val_id = vid, val_reward_address = reward_address,
                  val_consensus_key = consensus_key, val_node_key = node_key, val_owner = owner,
                  val_registered_at_height = registered, val_stake = stake,
                  val_uptime_score = uptime, val_last_ping_height = last_ping,
                  val_pings_responded_this_epoch = responded, val_pings_sent_this_epoch = sent,
                  val_last_seen_height = last_seen, val_reward_multiplier = multiplier,
                  val_infraction_count = infractions, val_last_infraction_height = last_infraction,
                  val_total_blocks_produced = produced, val_total_rewards_earned = earned,
                  val_epochs_active = epochs, val_is_seed = (flags AND 0x01 \<noteq> 0),
                  val_is_active = (flags AND 0x02 \<noteq> 0), val_became_active_at = became,
                  val_last_active_at = last_active, val_pending_unbond_height = unbond\<rparr>
           else None)"

definition ValidatorInfo_wf :: "validator_info \<Rightarrow> bool" where
  "ValidatorInfo_wf v \<longleftrightarrow> length (val_reward_address v) = 32 \<and> length (val_consensus_key v) = 32
     \<and> length (val_node_key v) = 32 \<and> length (val_owner v) = 32"

lemma ValidatorInfo_codec:
  "ValidatorInfo_wf v \<Longrightarrow> ValidatorInfo_deserializeState (ValidatorInfo_serializeState v) = Some v"
  by (cases v; cases "val_is_seed v"; cases "val_is_active v")
    (simp_all add: ValidatorInfo_deserializeState_def ValidatorInfo_serializeState_def
      ValidatorInfo_STATE_SIZE_def ValidatorInfo_wf_def run_writer_Cons codec_simps Let_def)

interpretation val_codec:
  state_codec ValidatorInfo_serializeState ValidatorInfo_deserializeState ValidatorInfo_wf
  by unfold_locales (rule ValidatorInfo_codec)

text \<open>
  With the multiplier between the floor and the start value the 32-bit subtraction does
  not wrap, so one penalty lowers the multiplier by the penalty and stops at the floor.
\<close>

definition multiplier_ok :: "validator_info \<Rightarrow> bool" where
  "multiplier_ok v \<longleftrightarrow> REWARD_MULTIPLIER_FLOOR \<le> val_reward_multiplier v
     \<and> val_reward_multiplier v \<le> REWARD_MULTIPLIER_START"

lemma applyInfractionPenalty_multiplier:
  assumes "multiplier_ok v"
  shows "unat (val_reward_multiplier (applyInfractionPenalty v h)) =
           max 2000 (unat (val_reward_multiplier v) - 2000)"
proof -
  let ?m = "val_reward_multiplier v"
  have range: "2000 \<le> unat ?m" "unat ?m \<le> 10000"
    using assms by (simp_all add: multiplier_ok_def config_defs word_le_nat_alt)
  have wide: "unat ((ucast ?m :: u32) - 2000) = unat ?m - 2000"
    using range by (subst unat_sub_le) (simp_all add: word_le_nat_alt unsigned_ucast_eq take_bit_eq_mod)
  have narrow: "unat (ucast ((ucast ?m :: u32) - 2000) :: u16) = unat ?m - 2000"
    using range wide by (simp add: unsigned_ucast_eq take_bit_eq_mod)
  show ?thesis
    using range wide narrow
    by (auto simp: applyInfractionPenalty_def Let_def config_defs word_less_nat_alt max_def)
qed

lemma applyInfractionPenalty_ok:
  assumes "multiplier_ok v"
  shows "multiplier_ok (applyInfractionPenalty v h)"
  using assms applyInfractionPenalty_multiplier [OF assms, of h]
  by (auto simp: multiplier_ok_def config_defs word_le_nat_alt)

lemma applyInfractionPenalty_frame:
  "val_id (applyInfractionPenalty v h) = val_id v"
  "val_stake (applyInfractionPenalty v h) = val_stake v"
  "val_last_infraction_height (applyInfractionPenalty v h) = h"
  "val_infraction_count (applyInfractionPenalty v h) = val_infraction_count v + 1"
  by (simp_all add: applyInfractionPenalty_def Let_def)

text \<open>A record with a pending unbond is, at any height, either unbonding or expired, and never eligible.\<close>

lemma unbond_phases:
  "val_pending_unbond_height v \<noteq> 0 \<Longrightarrow> isUnbonding v h \<noteq> isUnbondExpired v h \<and> \<not> canBeActive v"
  by (auto simp: isUnbonding_def isUnbondExpired_def canBeActive_def)

section \<open>ValidatorRegistry\<close>

record validator_registry =
  reg_validators :: "validator_info list"
  reg_active_set :: "id list"
  reg_next_id :: id
  reg_last_rotation_height :: u64
  reg_target_size :: u64

definition bftQuorum :: "u64 \<Rightarrow> u64" where
  "bftQuorum n = (n * 2) div 3 + 1"

fun find_validator :: "validator_info list \<Rightarrow> id \<Rightarrow> validator_info option" where
  "find_validator [] _ = None"
| "find_validator (v # vs) vid = (if val_id v = vid then Some v else find_validator vs vid)"

definition ValidatorRegistry_find :: "validator_registry \<Rightarrow> id \<Rightarrow> validator_info option" where
  "ValidatorRegistry_find reg vid =
     (if vid = INVALID_ID then None else find_validator (reg_validators reg) vid)"

definition activeCount :: "validator_registry \<Rightarrow> nat" where
  "activeCount reg = length (reg_active_set reg)"

definition quorum :: "validator_registry \<Rightarrow> u64" where
  "quorum reg = bftQuorum (of_nat (length (reg_active_set reg)))"

definition ValidatorRegistry_isActive :: "validator_registry \<Rightarrow> id \<Rightarrow> bool" where
  "ValidatorRegistry_isActive reg vid = (vid \<in> set (reg_active_set reg))"

definition totalCount :: "validator_registry \<Rightarrow> nat" where
  "totalCount reg = foldl (\<lambda>n v. if val_id v \<noteq> INVALID_ID then n + 1 else n) 0 (reg_validators reg)"

lemma find_validator_Some:
  "find_validator vs i = Some v \<Longrightarrow> v \<in> set vs \<and> val_id v = i"
  by (induction vs) (auto split: if_splits)

lemma find_validator_None:
  "find_validator vs i = None \<longleftrightarrow> i \<notin> val_id ` set vs"
  by (induction vs) auto

lemma find_validator_distinct:
  "distinct (map val_id vs) \<Longrightarrow> v \<in> set vs \<Longrightarrow> find_validator vs (val_id v) = Some v"
  by (induction vs) auto

section \<open>Key history\<close>

record key_rotation =
  kr_key :: pubkey
  kr_valid_from_height :: u64
  kr_valid_until_height :: u64

definition KEY_ROTATION_WIRE_SIZE :: nat where "KEY_ROTATION_WIRE_SIZE = 32 + 8 + 8"
definition MAX_KEY_ROTATIONS :: nat where "MAX_KEY_ROTATIONS = 1024"

definition wr_rotation :: "key_rotation \<Rightarrow> bytes \<Rightarrow> bytes" where
  "wr_rotation e out = wr_u64 (kr_valid_until_height e)
     (wr_u64 (kr_valid_from_height e) (wr_bytes (kr_key e) (length (kr_key e)) out))"

definition encodeKeyHistory :: "key_rotation list \<Rightarrow> bytes" where
  "encodeKeyHistory history =
     run_writer (wr_u32 (of_nat (length history)) # map wr_rotation history)"

fun read_rotations :: "nat \<Rightarrow> reader \<Rightarrow> key_rotation list option" where
  "read_rotations 0 r = Some []"
| "read_rotations (Suc n) r =
     (let (key, r) = rd_bytes null32 32 r;
          (from, r) = rd_u64 r;
          (until, r) = rd_u64 r
      in if \<not> rd_ok r then None
         else (case read_rotations n r of
                 None \<Rightarrow> None
               | Some es \<Rightarrow> Some (\<lparr>kr_key = key, kr_valid_from_height = from,
                                   kr_valid_until_height = until\<rparr> # es)))"

definition decodeKeyHistory :: "bytes \<Rightarrow> key_rotation list option" where
  "decodeKeyHistory data =
     (if length data < 4 then None
      else
        let r = Reader data;
            (count, r) = rd_u32 r
        in if \<not> rd_ok r then None
           else if unat count > MAX_KEY_ROTATIONS then None
           else if length data \<noteq> 4 + unat count * KEY_ROTATION_WIRE_SIZE then None
           else read_rotations (unat count) r)"

definition rotation_bytes :: "key_rotation \<Rightarrow> bytes" where
  "rotation_bytes e = kr_key e @ writeU64 (kr_valid_from_height e) @ writeU64 (kr_valid_until_height e)"

lemma wr_rotation_append: "wr_rotation e out = out @ rotation_bytes e"
  by (simp add: wr_rotation_def rotation_bytes_def)

lemma foldl_wr_rotation:
  "foldl (\<lambda>out w. w out) acc (map wr_rotation es) = acc @ concat (map rotation_bytes es)"
  by (induction es arbitrary: acc) (simp_all add: wr_rotation_append)

definition keys32 :: "key_rotation list \<Rightarrow> bool" where
  "keys32 es \<longleftrightarrow> list_all (\<lambda>e. length (kr_key e) = 32) es"

lemma read_rotations_bytes:
  "keys32 es \<Longrightarrow>
     read_rotations (length es) \<lparr>rd_rest = concat (map rotation_bytes es), rd_error = False\<rparr> = Some es"
  by (induction es) (auto simp: keys32_def rotation_bytes_def codec_simps Let_def)

lemma length_rotation_bytes: "keys32 es \<Longrightarrow> length (concat (map rotation_bytes es)) = length es * 48"
  by (induction es) (auto simp: keys32_def rotation_bytes_def)

definition KeyHistory_wf :: "key_rotation list \<Rightarrow> bool" where
  "KeyHistory_wf es \<longleftrightarrow> keys32 es \<and> length es \<le> MAX_KEY_ROTATIONS"

lemma KeyHistory_codec:
  assumes "KeyHistory_wf es"
  shows "decodeKeyHistory (encodeKeyHistory es) = Some es"
proof -
  have n: "unat (of_nat (length es) :: u32) = length es"
    using assms by (simp add: KeyHistory_wf_def MAX_KEY_ROTATIONS_def unat_of_nat)
  have "encodeKeyHistory es = writeU32 (of_nat (length es)) @ concat (map rotation_bytes es)"
    by (simp add: encodeKeyHistory_def run_writer_Cons foldl_wr_rotation)
  with assms n show ?thesis
    by (simp add: decodeKeyHistory_def codec_simps Let_def KeyHistory_wf_def MAX_KEY_ROTATIONS_def
        KEY_ROTATION_WIRE_SIZE_def length_rotation_bytes read_rotations_bytes)
qed

interpretation keyhist_codec: state_codec encodeKeyHistory decodeKeyHistory KeyHistory_wf
  by unfold_locales (rule KeyHistory_codec)

end
