(* ===== verification/State_Objects.thy ===== *)
theory State_Objects
  imports State_Accounts Asset_Types Validator_Types
begin

text \<open>
  Tokens, supplies, validators, consensus-key histories, NFTs and collections in the state
  (\<^verbatim>\<open>src/State/StateAccess.cpp\<close>), each with its table rows and secondary indexes.
\<close>

text \<open>A typed read of the state tree.\<close>

definition smt_typed :: "(bytes \<Rightarrow> 'a option) \<Rightarrow> hash \<Rightarrow> db \<Rightarrow> 'a option" where
  "smt_typed decode key d = typed_get decode (db_smt d) key"

lemma smt_typed_alt: "smt_typed decode key d = (case smt_get key d of None \<Rightarrow> None | Some v \<Rightarrow> decode v)"
  by (simp add: smt_typed_def typed_get_def smt_get_def)

section \<open>Tokens and supplies\<close>

definition getToken :: "id \<Rightarrow> db \<Rightarrow> token_info option" where
  "getToken token_id d = smt_typed TokenInfo_deserializeState (Keys_token (db_hash d) token_id) d"

definition indexTokenRow :: "id \<Rightarrow> db \<Rightarrow> db" where
  "indexTokenRow token_id d =
     (case getToken token_id d of
        None \<Rightarrow> d
      | Some token \<Rightarrow>
          putBlobRow TBL_TOKENS (writeU32 (ucast token_id)) (TokenInfo_serializeState token) d)"

definition unindexTokenRow :: "id \<Rightarrow> db \<Rightarrow> db" where
  "unindexTokenRow token_id d = deleteRow TBL_TOKENS (writeU32 (ucast token_id)) d"

definition putToken :: "token_info \<Rightarrow> db \<Rightarrow> db" where
  "putToken token d =
     indexTokenRow (tok_id token)
       (smt_update (Keys_token (db_hash d) (tok_id token)) (TokenInfo_serializeState token) d)"

definition forEachToken :: "(token_info \<Rightarrow> 's \<Rightarrow> 's) \<Rightarrow> db \<Rightarrow> 's \<Rightarrow> 's" where
  "forEachToken fn d s =
     Txn_forEach TBL_TOKENS
       (\<lambda>key v s. if length key \<noteq> 4 then (True, s)
                  else (case TokenInfo_deserializeState v of
                          None \<Rightarrow> (True, s)
                        | Some token \<Rightarrow> (True, fn token s))) d s"

definition getTokenSupply :: "id \<Rightarrow> db \<Rightarrow> u64" where
  "getTokenSupply token_id d =
     (case smt_get (Keys_tokenSupply (db_hash d) token_id) d of
        None \<Rightarrow> 0
      | Some v \<Rightarrow> if length v \<noteq> 8 then 0 else readU64 v)"

definition putTokenSupply :: "id \<Rightarrow> u64 \<Rightarrow> db \<Rightarrow> db" where
  "putTokenSupply token_id supply d =
     (let key = Keys_tokenSupply (db_hash d) token_id
      in if supply = 0 then smt_remove key d else smt_update key (writeU64 supply) d)"

section \<open>Validators\<close>

definition getValidator :: "u64 \<Rightarrow> db \<Rightarrow> validator_info option" where
  "getValidator validator_id d =
     smt_typed ValidatorInfo_deserializeState (Keys_validator (db_hash d) validator_id) d"

definition putValidator :: "validator_info \<Rightarrow> db \<Rightarrow> db" where
  "putValidator v d =
     (let value' = ValidatorInfo_serializeState v;
          d = smt_update (Keys_validator (db_hash d) (val_id v)) value' d;
          id_key = writeU64 (val_id v);
          d = putSentinel TBL_INDEX_VALIDATORS id_key d
      in putBlobRow TBL_VALIDATORS id_key value' d)"

definition deleteValidator :: "u64 \<Rightarrow> db \<Rightarrow> db" where
  "deleteValidator validator_id d =
     (let d = smt_remove (Keys_validator (db_hash d) validator_id) d;
          id_key = writeU64 validator_id;
          d = deleteRow TBL_INDEX_VALIDATORS id_key d
      in deleteRow TBL_VALIDATORS id_key d)"

definition forEachValidator :: "(validator_info \<Rightarrow> 's \<Rightarrow> 's) \<Rightarrow> db \<Rightarrow> 's \<Rightarrow> 's" where
  "forEachValidator fn d s =
     Txn_forEach TBL_VALIDATORS
       (\<lambda>key v s. if length key \<noteq> 8 then (True, s)
                  else (case ValidatorInfo_deserializeState v of
                          None \<Rightarrow> (True, s)
                        | Some val \<Rightarrow> (True, fn val s))) d s"

definition getValidatorByAddress :: "address \<Rightarrow> db \<Rightarrow> u64 option" where
  "getValidatorByAddress a d =
     (case smt_get (Keys_validatorByAddress (db_hash d) a) d of
        None \<Rightarrow> None
      | Some v \<Rightarrow> if length v \<noteq> 8 then None else Some (readU64 v))"

definition putValidatorByAddress :: "address \<Rightarrow> u64 \<Rightarrow> db \<Rightarrow> db" where
  "putValidatorByAddress a validator_id d =
     smt_update (Keys_validatorByAddress (db_hash d) a) (writeU64 validator_id) d"

definition deleteValidatorByAddress :: "address \<Rightarrow> db \<Rightarrow> db" where
  "deleteValidatorByAddress a d = smt_remove (Keys_validatorByAddress (db_hash d) a) d"

section \<open>Consensus-key history\<close>

definition getValidatorKeyHistory :: "u64 \<Rightarrow> db \<Rightarrow> key_rotation list option" where
  "getValidatorKeyHistory validator_id d =
     smt_typed decodeKeyHistory (Keys_validatorKeyHistory (db_hash d) validator_id) d"

definition putValidatorKeyHistory :: "u64 \<Rightarrow> key_rotation list \<Rightarrow> db \<Rightarrow> db" where
  "putValidatorKeyHistory validator_id history d =
     (let key = Keys_validatorKeyHistory (db_hash d) validator_id
      in if history = [] then smt_remove key d
         else smt_update key (encodeKeyHistory history) d)"

fun key_entry_at :: "key_rotation list \<Rightarrow> u64 \<Rightarrow> pubkey option" where
  "key_entry_at [] height = None"
| "key_entry_at (entry # es) height =
     (if height < kr_valid_from_height entry then key_entry_at es height
      else if kr_valid_until_height entry \<noteq> 0 \<and> height \<ge> kr_valid_until_height entry
      then key_entry_at es height
      else Some (kr_key entry))"

definition validatorKeyAtHeight :: "u64 \<Rightarrow> u64 \<Rightarrow> db \<Rightarrow> pubkey option" where
  "validatorKeyAtHeight validator_id height d =
     (case getValidatorKeyHistory validator_id d of
        None \<Rightarrow> (case getValidator validator_id d of
                   None \<Rightarrow> None
                 | Some v \<Rightarrow> Some (effectiveConsensusKey v))
      | Some history \<Rightarrow>
          if length history = 1 \<and> kr_valid_until_height (history ! 0) = 0
             \<and> height \<ge> kr_valid_from_height (history ! 0)
          then Some (kr_key (history ! 0))
          else key_entry_at history height)"

section \<open>NFTs and collections\<close>

definition getNft :: "u64 \<Rightarrow> db \<Rightarrow> nft_info option" where
  "getNft nid d = smt_typed NftInfo_deserializeState (Keys_nft (db_hash d) nid) d"

definition putNft :: "nft_info \<Rightarrow> db \<Rightarrow> db" where
  "putNft nft d =
     (let value' = NftInfo_serializeState nft;
          d = smt_update (Keys_nft (db_hash d) (nft_id nft)) value' d;
          d = putBlobRow TBL_NFTS (writeU64 (nft_id nft)) value' d;
          d = putSentinel TBL_INDEX_NFTS_BY_OWNER (nft_owner nft @ writeU64 (nft_id nft)) d
      in if nft_collection_id nft \<noteq> 0
         then putSentinel TBL_INDEX_NFTS_BY_COLLECTION
                (writeU64 (nft_collection_id nft) @ writeU64 (nft_id nft)) d
         else d)"

definition unindexNft :: "nft_info \<Rightarrow> db \<Rightarrow> db" where
  "unindexNft old d =
     (let d = (if \<not> isNull (nft_owner old)
               then deleteRow TBL_INDEX_NFTS_BY_OWNER (nft_owner old @ writeU64 (nft_id old)) d
               else d)
      in if nft_collection_id old \<noteq> 0
         then deleteRow TBL_INDEX_NFTS_BY_COLLECTION
                (writeU64 (nft_collection_id old) @ writeU64 (nft_id old)) d
         else d)"

definition deleteNft :: "u64 \<Rightarrow> db \<Rightarrow> db" where
  "deleteNft nid d =
     (let have_nft = getNft nid d;
          d = smt_remove (Keys_nft (db_hash d) nid) d;
          d = deleteRow TBL_NFTS (writeU64 nid) d
      in (case have_nft of
            None \<Rightarrow> d
          | Some nft \<Rightarrow>
              let d = (if \<not> isNull (nft_owner nft)
                       then deleteRow TBL_INDEX_NFTS_BY_OWNER (nft_owner nft @ writeU64 nid) d
                       else d)
              in if nft_collection_id nft \<noteq> 0
                 then deleteRow TBL_INDEX_NFTS_BY_COLLECTION
                        (writeU64 (nft_collection_id nft) @ writeU64 nid) d
                 else d))"

definition getNftCollection :: "u64 \<Rightarrow> db \<Rightarrow> nft_collection option" where
  "getNftCollection cid d =
     smt_typed NftCollection_deserializeState (Keys_nftCollection (db_hash d) cid) d"

definition putNftCollection :: "nft_collection \<Rightarrow> db \<Rightarrow> db" where
  "putNftCollection c d =
     (let value' = NftCollection_serializeState c;
          d = smt_update (Keys_nftCollection (db_hash d) (col_id c)) value' d
      in putBlobRow TBL_NFT_COLLECTIONS (writeU64 (col_id c)) value' d)"

definition deleteNftCollection :: "u64 \<Rightarrow> db \<Rightarrow> db" where
  "deleteNftCollection cid d =
     deleteRow TBL_NFT_COLLECTIONS (writeU64 cid)
       (smt_remove (Keys_nftCollection (db_hash d) cid) d)"

definition forEachNft :: "(nft_info \<Rightarrow> 's \<Rightarrow> 's) \<Rightarrow> db \<Rightarrow> 's \<Rightarrow> 's" where
  "forEachNft fn d s =
     Txn_forEach TBL_NFTS
       (\<lambda>key v s. if length key \<noteq> 8 then (True, s)
                  else (case NftInfo_deserializeState v of
                          None \<Rightarrow> (True, s)
                        | Some nft \<Rightarrow> (True, fn nft s))) d s"

definition forEachNftForOwner :: "address \<Rightarrow> (nft_info \<Rightarrow> 's \<Rightarrow> 's) \<Rightarrow> db \<Rightarrow> 's \<Rightarrow> 's" where
  "forEachNftForOwner owner fn d s =
     Txn_forEachWithPrefix TBL_INDEX_NFTS_BY_OWNER owner
       (\<lambda>key v s. if length key \<noteq> 40 then (True, s)
                  else (case getNft (readU64 (drop 32 key)) d of
                          None \<Rightarrow> (True, s)
                        | Some nft \<Rightarrow> (True, fn nft s))) d s"

definition forEachNftForCollection :: "u64 \<Rightarrow> (nft_info \<Rightarrow> 's \<Rightarrow> 's) \<Rightarrow> db \<Rightarrow> 's \<Rightarrow> 's" where
  "forEachNftForCollection cid fn d s =
     Txn_forEachWithPrefix TBL_INDEX_NFTS_BY_COLLECTION (writeU64 cid)
       (\<lambda>key v s. if length key \<noteq> 16 then (True, s)
                  else (case getNft (readU64 (drop 8 key)) d of
                          None \<Rightarrow> (True, s)
                        | Some nft \<Rightarrow> (True, fn nft s))) d s"

definition forEachNftCollection :: "(nft_collection \<Rightarrow> 's \<Rightarrow> 's) \<Rightarrow> db \<Rightarrow> 's \<Rightarrow> 's" where
  "forEachNftCollection fn d s =
     Txn_forEach TBL_NFT_COLLECTIONS
       (\<lambda>key v s. if length key \<noteq> 8 then (True, s)
                  else (case NftCollection_deserializeState v of
                          None \<Rightarrow> (True, s)
                        | Some c \<Rightarrow> (True, fn c s))) d s"

section \<open>Typed reads after typed writes\<close>

context state_codec
begin

lemma smt_typed_update:
  "wf x \<Longrightarrow> smt_typed decode k' (smt_update k (encode x) d) = (if k' = k then Some x else smt_typed decode k' d)"
  using typed_get_update [of x "db_smt d" k k'] by (simp add: smt_typed_def smt_update_def)

end

lemma smt_typed_frame [simp]:
  "smt_typed dec k (smt_remove k' d) = (if k = k' then None else smt_typed dec k d)"
  "smt_typed dec k (putBlobRow tb x y d) = smt_typed dec k d"
  "smt_typed dec k (putSentinel tb x d) = smt_typed dec k d"
  "smt_typed dec k (putU64Row tb x u d) = smt_typed dec k d"
  "smt_typed dec k (deleteRow tb x d) = smt_typed dec k d"
  by (simp_all add: smt_typed_alt)

lemma tab_rows [simp]:
  "tab t (putSentinel t' k d) = (if tableName t = tableName t' then rows_put k [1] (tab t d) else tab t d)"
  "tab t (putBlobRow t' k v d) = (if tableName t = tableName t' then rows_put k v (tab t d) else tab t d)"
  "tab t (putU64Row t' k u d) = (if tableName t = tableName t' then rows_put k (writeU64 u) (tab t d) else tab t d)"
  "tab t (deleteRow t' k d) = (if tableName t = tableName t' then rows_del k (tab t d) else tab t d)"
  by (simp_all add: row_defs)

section \<open>The contract of an object table\<close>

text \<open>
  The state keeps each object twice: in the state tree and, for iteration, in a table whose
  row key is the object's identifier. \<open>mirror\<close> says that for the identifiers of \<open>I\<close> the two
  agree and that the table has no other rows.
\<close>

definition mirror ::
    "TableId \<Rightarrow> ('i \<Rightarrow> bytes) \<Rightarrow> ('a \<Rightarrow> bytes) \<Rightarrow> ('a \<Rightarrow> bool) \<Rightarrow> ('a \<Rightarrow> 'i) \<Rightarrow> ('i \<Rightarrow> db \<Rightarrow> 'a option)
     \<Rightarrow> 'i set \<Rightarrow> db \<Rightarrow> bool" where
  "mirror T row_key encode valid oid get I d \<longleftrightarrow>
     (\<forall>i \<in> I. rows_get (row_key i) (tab T d) = map_option encode (get i d)
              \<and> (\<forall>x. get i d = Some x \<longrightarrow> valid x \<and> oid x = i)) \<and>
     fst ` set (tab T d) \<subseteq> row_key ` I"

definition object_visitor ::
    "nat \<Rightarrow> (bytes \<Rightarrow> 'a option) \<Rightarrow> ('a \<Rightarrow> 's \<Rightarrow> 's) \<Rightarrow> bytes \<Rightarrow> bytes \<Rightarrow> 's \<Rightarrow> bool \<times> 's" where
  "object_visitor klen decode fn key v s =
     (if length key \<noteq> klen then (True, s)
      else (case decode v of None \<Rightarrow> (True, s) | Some x \<Rightarrow> (True, fn x s)))"

locale object_table = state_codec encode decode wf
  for encode :: "'a \<Rightarrow> bytes" and decode and wf +
  fixes T :: TableId
    and klen :: nat
    and row_key :: "'i \<Rightarrow> bytes"
    and oid :: "'a \<Rightarrow> 'i"
    and get :: "'i \<Rightarrow> db \<Rightarrow> 'a option"
  assumes row_key_length: "length (row_key i) = klen"
    and row_key_inj: "row_key i = row_key j \<longleftrightarrow> i = j"
begin

lemma mirror_put:
  assumes m: "mirror T row_key encode wf oid get I d" and x: "wf x" "oid x \<in> I" and ok: "rows_ok (tab T d)"
    and get': "\<And>i. i \<in> I \<Longrightarrow> get i d' = (if i = oid x then Some x else get i d)"
    and tab': "tab T d' = rows_put (row_key (oid x)) (encode x) (tab T d)"
  shows "mirror T row_key encode wf oid get I d'"
proof -
  have "rows_get (row_key i) (tab T d') = map_option encode (get i d')" if "i \<in> I" for i
    using m that by (simp add: mirror_def row_key_inj get' tab')
  moreover have "wf y \<and> oid y = i" if "i \<in> I" "get i d' = Some y" for i y
    using m that x(1) unfolding get' [OF that(1)] by (auto simp: mirror_def split: if_splits)
  moreover have "fst ` set (tab T d') \<subseteq> row_key ` I"
    using m x(2) by (simp add: mirror_def tab' set_rows_put)
  ultimately show ?thesis by (simp add: mirror_def)
qed

lemma mirror_del:
  assumes m: "mirror T row_key encode wf oid get I d" and ok: "rows_ok (tab T d)"
    and get': "\<And>i. i \<in> I \<Longrightarrow> get i d' = (if i = j then None else get i d)"
    and tab': "tab T d' = rows_del (row_key j) (tab T d)"
  shows "mirror T row_key encode wf oid get I d'"
proof -
  have "rows_get (row_key i) (tab T d') = map_option encode (get i d')" if "i \<in> I" for i
    using m ok that by (simp add: mirror_def row_key_inj get' tab' rows_get_del)
  moreover have "wf y \<and> oid y = i" if "i \<in> I" "get i d' = Some y" for i y
    using m that unfolding get' [OF that(1)] by (auto simp: mirror_def split: if_splits)
  moreover have "fst ` set (tab T d') \<subseteq> row_key ` I"
    using m image_mono [OF set_rows_del_subset, of fst "row_key j" "tab T d"] unfolding tab'
    by (simp add: mirror_def subset_trans)
  ultimately show ?thesis by (simp add: mirror_def)
qed

text \<open>Iteration visits every object of the state once, and nothing else.\<close>

lemma collect_rows:
  assumes "mirror T row_key encode wf oid get I d" and "rows_ok t" and "set t \<subseteq> set (tab T d)"
    and "rows_ok (tab T d)"
  shows "visit (object_visitor klen decode (\<lambda>x acc. acc @ [x])) t acc
           = acc @ map (\<lambda>r. the (decode (snd r))) t
       \<and> (\<forall>r \<in> set t. \<exists>x. get (oid x) d = Some x \<and> oid x \<in> I \<and> decode (snd r) = Some x \<and> fst r = row_key (oid x))"
  using assms(2,3)
proof (induction t arbitrary: acc)
  case (Cons r t)
  obtain k v where r: "r = (k, v)" by (cases r)
  have mem: "(k, v) \<in> set (tab T d)" using Cons.prems r by simp
  then obtain i where i: "i \<in> I" "k = row_key i" using assms(1) by (force simp: mirror_def)
  have "rows_get k (tab T d) = Some v" using mem assms(4) by (simp add: rows_get_mem)
  then obtain x where x: "get i d = Some x" "v = encode x" "wf x" "oid x = i"
    using assms(1) i by (auto simp: mirror_def)
  have dec: "decode v = Some x" using x(2,3) decode_encode by simp
  have "object_visitor klen decode (\<lambda>x acc. acc @ [x]) k v acc = (True, acc @ [x])"
    using dec i row_key_length by (simp add: object_visitor_def)
  moreover have "rows_ok t" using Cons.prems r by (simp add: rows_ok_Cons)
  ultimately show ?case using Cons.IH [of "acc @ [x]"] Cons.prems r dec x i by auto
qed simp

lemma iterate_all:
  assumes m: "mirror T row_key encode wf oid get I d" and ok: "db_ok d"
  shows "set (Txn_forEach T (object_visitor klen decode (\<lambda>x acc. acc @ [x])) d [])
           = {x. \<exists>i \<in> I. get i d = Some x}"
    and "distinct (map oid (Txn_forEach T (object_visitor klen decode (\<lambda>x acc. acc @ [x])) d []))"
proof -
  let ?t = "tab T d" and ?l = "Txn_forEach T (object_visitor klen decode (\<lambda>x acc. acc @ [x])) d []"
  have rok: "rows_ok ?t" using ok by (rule rows_ok_tab)
  note col = collect_rows [OF m rok subset_refl rok, of "[]"]
  have l: "?l = map (\<lambda>r. the (decode (snd r))) ?t" using col by (simp add: Txn_forEach_def)
  show "set ?l = {x. \<exists>i \<in> I. get i d = Some x}"
  proof (rule set_eqI, rule iffI)
    fix x assume "x \<in> set ?l"
    then show "x \<in> {x. \<exists>i \<in> I. get i d = Some x}" using col l by fastforce
  next
    fix x assume "x \<in> {x. \<exists>i \<in> I. get i d = Some x}"
    then obtain i where i: "i \<in> I" "get i d = Some x" by blast
    then have "(row_key i, encode x) \<in> set ?t"
      using m rok by (simp add: mirror_def flip: rows_get_mem)
    moreover have "decode (encode x) = Some x" using m i decode_encode by (simp add: mirror_def)
    ultimately show "x \<in> set ?l" unfolding l by force
  qed
  have "map (\<lambda>x. row_key (oid x)) ?l = map fst ?t"
    unfolding l using col by (auto simp: comp_def intro!: map_cong)
  then have "map row_key (map oid ?l) = map fst ?t" by (simp add: comp_def)
  moreover have "distinct (map fst ?t)" using rok by (auto simp: rows_ok_def strict_sorted_iff)
  ultimately have "distinct (map row_key (map oid ?l))" by simp
  then show "distinct (map oid ?l)" unfolding distinct_map by simp
qed

end

section \<open>Validators and tokens as object tables\<close>

interpretation validators: object_table ValidatorInfo_serializeState ValidatorInfo_deserializeState
    ValidatorInfo_wf TBL_VALIDATORS 8 writeU64 val_id getValidator
  by unfold_locales (simp_all add: key_simps)

interpretation tokens: object_table TokenInfo_serializeState TokenInfo_deserializeState
    TokenInfo_wf TBL_TOKENS 4 writeU32 "\<lambda>t. ucast (tok_id t)" "\<lambda>i. getToken (ucast i)"
  by unfold_locales (simp_all add: key_simps)

abbreviation validators_mirror :: "u64 set \<Rightarrow> db \<Rightarrow> bool" where
  "validators_mirror \<equiv> mirror TBL_VALIDATORS writeU64 ValidatorInfo_serializeState ValidatorInfo_wf val_id getValidator"

lemma forEachValidator_visitor:
  "forEachValidator fn d s = Txn_forEach TBL_VALIDATORS (object_visitor 8 ValidatorInfo_deserializeState fn) d s"
  by (simp add: forEachValidator_def object_visitor_def [abs_def])

lemma putValidator_fields [simp]:
  "db_hash (putValidator v d) = db_hash d" "db_ok d \<Longrightarrow> db_ok (putValidator v d)"
  "db_hash (deleteValidator i d) = db_hash d" "db_ok d \<Longrightarrow> db_ok (deleteValidator i d)"
  by (simp_all add: putValidator_def deleteValidator_def Let_def)

lemma getValidator_putValidator:
  assumes "keys_ok K d" "{KValidator i, KValidator (val_id v)} \<subseteq> K" "ValidatorInfo_wf v"
  shows "getValidator i (putValidator v d) = (if i = val_id v then Some v else getValidator i d)"
  using assms keys_eq [OF assms(1), of "KValidator i" "KValidator (val_id v)"]
  by (simp add: getValidator_def putValidator_def Let_def val_codec.smt_typed_update Keys_skey)

lemma getValidator_deleteValidator:
  assumes "keys_ok K d" "{KValidator i, KValidator j} \<subseteq> K"
  shows "getValidator i (deleteValidator j d) = (if i = j then None else getValidator i d)"
  using assms keys_eq [OF assms(1), of "KValidator i" "KValidator j"]
  by (simp add: getValidator_def deleteValidator_def Let_def Keys_skey)

lemma putValidator_mirror:
  assumes "keys_ok (KValidator ` I) d" "validators_mirror I d" "ValidatorInfo_wf v" "val_id v \<in> I"
  shows "validators_mirror I (putValidator v d)"
proof (rule validators.mirror_put [OF assms(2-4)])
  show "rows_ok (tab TBL_VALIDATORS d)" using keys_okD [OF assms(1)] by (rule rows_ok_tab)
  show "getValidator i (putValidator v d) = (if i = val_id v then Some v else getValidator i d)" if "i \<in> I" for i
    using assms that by (intro getValidator_putValidator) auto
  show "tab TBL_VALIDATORS (putValidator v d) =
      rows_put (writeU64 (val_id v)) (ValidatorInfo_serializeState v) (tab TBL_VALIDATORS d)"
    by (simp add: putValidator_def Let_def)
qed

lemma deleteValidator_mirror:
  assumes "keys_ok (KValidator ` I) d" "validators_mirror I d" "j \<in> I"
  shows "validators_mirror I (deleteValidator j d)"
proof (rule validators.mirror_del [OF assms(2)])
  show "rows_ok (tab TBL_VALIDATORS d)" using keys_okD [OF assms(1)] by (rule rows_ok_tab)
  show "getValidator i (deleteValidator j d) = (if i = j then None else getValidator i d)" if "i \<in> I" for i
    using assms that by (intro getValidator_deleteValidator) auto
  show "tab TBL_VALIDATORS (deleteValidator j d) = rows_del (writeU64 j) (tab TBL_VALIDATORS d)"
    by (simp add: deleteValidator_def Let_def)
qed

section \<open>Key histories\<close>

text \<open>
  A gapless history: each entry ends where its successor begins, after it began, and only the
  last one is open.
\<close>

fun history_ok :: "key_rotation list \<Rightarrow> bool" where
  "history_ok [] = False"
| "history_ok [e] = (kr_valid_until_height e = 0)"
| "history_ok (e # e' # es) =
     (kr_valid_from_height e < kr_valid_until_height e
      \<and> kr_valid_until_height e = kr_valid_from_height e' \<and> history_ok (e' # es))"

definition entry_covers :: "u64 \<Rightarrow> key_rotation \<Rightarrow> bool" where
  "entry_covers h e \<longleftrightarrow> kr_valid_from_height e \<le> h
     \<and> (kr_valid_until_height e = 0 \<or> h < kr_valid_until_height e)"

lemma key_entry_at_filter:
  "key_entry_at es h = (case filter (entry_covers h) es of [] \<Rightarrow> None | e # _ \<Rightarrow> Some (kr_key e))"
  by (induction es) (auto simp: entry_covers_def not_less not_le)

lemma history_before: "history_ok (e # es) \<Longrightarrow> h < kr_valid_from_height e \<Longrightarrow> filter (entry_covers h) (e # es) = []"
proof (induction es arbitrary: e)
  case (Cons e' es)
  then have "h < kr_valid_from_height e'" by (auto intro: less_trans)
  with Cons show ?case by (auto simp: entry_covers_def)
qed (simp add: entry_covers_def)

lemma history_covered:
  "history_ok (e # es) \<Longrightarrow> kr_valid_from_height e \<le> h \<Longrightarrow> \<exists>c. filter (entry_covers h) (e # es) = [c]"
proof (induction es arbitrary: e)
  case Nil
  then show ?case by (simp add: entry_covers_def)
next
  case (Cons e' es)
  show ?case
  proof (cases "h < kr_valid_until_height e")
    case True
    with Cons.prems have "filter (entry_covers h) (e' # es) = []"
      by (intro history_before) simp_all
    moreover have "entry_covers h e" using True Cons.prems by (simp add: entry_covers_def)
    ultimately show ?thesis by simp
  next
    case False
    moreover from False Cons.prems have "\<not> entry_covers h e" by (auto simp: entry_covers_def)
    moreover have "\<exists>c. filter (entry_covers h) (e' # es) = [c]"
      using False Cons.prems by (intro Cons.IH) (simp_all add: not_less)
    ultimately show ?thesis by simp
  qed
qed

lemma validatorKeyAtHeight_history:
  "getValidatorKeyHistory i d = Some es \<Longrightarrow> validatorKeyAtHeight i h d = key_entry_at es h"
  by (cases es) (auto simp: validatorKeyAtHeight_def)

end
