(* ===== verification/Dex_Types.thy ===== *)
theory Dex_Types
  imports Config
begin

text \<open>
  The records of the exchange: liquidity pools (\<^verbatim>\<open>AmmPool\<close>), positions (\<^verbatim>\<open>AmmPosition\<close>),
  orders with their conditions (\<^verbatim>\<open>Order\<close>) and executions (\<^verbatim>\<open>Fill\<close>), each with its
  validity check and its state codec.
\<close>

section \<open>AmmPool\<close>

definition AMM_DEFAULT_FEE_BPS :: u16 where "AMM_DEFAULT_FEE_BPS = 30"
definition AMM_MAX_FEE_BPS :: u16 where "AMM_MAX_FEE_BPS = 1000"
definition MIN_POOL_LIQUIDITY :: amount where "MIN_POOL_LIQUIDITY = 1 * ATOMIC_UNITS_PER_COIN"

record amm_pool =
  pool_id :: id
  pool_creator :: address
  pool_token_a :: id
  pool_token_b :: id
  pool_reserve_a :: u64
  pool_reserve_b :: u64
  pool_total_liquidity :: u64
  pool_fee_bps :: u16
  pool_created_at_height :: u64
  pool_active :: bool
  pool_volume_window_height :: u64
  pool_volume_current :: u64
  pool_volume_last :: u64

definition AmmPool_isValid :: "amm_pool \<Rightarrow> bool" where
  "AmmPool_isValid p =
     (if pool_id p = INVALID_ID then False
      else if pool_token_a p = pool_token_b p then False
      else if pool_token_a p > pool_token_b p then False
      else if pool_fee_bps p > AMM_MAX_FEE_BPS then False
      else if pool_reserve_a p = 0 \<and> pool_reserve_b p = 0 then True
      else pool_reserve_a p > 0 \<and> pool_reserve_b p > 0)"

definition AmmPool_isClosed :: "amm_pool \<Rightarrow> bool" where
  "AmmPool_isClosed p =
     (pool_total_liquidity p = 0 \<and> pool_reserve_a p = 0 \<and> pool_reserve_b p = 0)"

definition AmmPool_k :: "amm_pool \<Rightarrow> u128" where
  "AmmPool_k p = ucast (pool_reserve_a p) * ucast (pool_reserve_b p)"

definition reportedVolume :: "u64 \<Rightarrow> amm_pool \<Rightarrow> u64" where
  "reportedVolume current_height p =
     (if pool_volume_window_height p = 0 then 0
      else if current_height \<ge> pool_volume_window_height p + ROTATION_INTERVAL
      then pool_volume_current p
      else pool_volume_last p)"

definition AmmPool_STATE_SIZE :: nat where
  "AmmPool_STATE_SIZE = 8 + 32 + 4 + 4 + 8 + 8 + 8 + 2 + 8 + 1 + 8 + 8 + 8"

text \<open>\<^verbatim>\<open>token_a\<close> and \<^verbatim>\<open>token_b\<close> are 64-bit identifiers passed to \<^verbatim>\<open>writeU32\<close>: the high half is dropped.\<close>

definition AmmPool_serializeState :: "amm_pool \<Rightarrow> bytes" where
  "AmmPool_serializeState p = run_writer
     [wr_u64 (pool_id p),
      wr_bytes (pool_creator p) (length (pool_creator p)),
      wr_u32 (ucast (pool_token_a p)),
      wr_u32 (ucast (pool_token_b p)),
      wr_u64 (pool_reserve_a p),
      wr_u64 (pool_reserve_b p),
      wr_u64 (pool_total_liquidity p),
      wr_u16 (pool_fee_bps p),
      wr_u64 (pool_created_at_height p),
      wr_u8 (if pool_active p then 1 else 0),
      wr_u64 (pool_volume_window_height p),
      wr_u64 (pool_volume_current p),
      wr_u64 (pool_volume_last p)]"

definition AmmPool_deserializeState :: "bytes \<Rightarrow> amm_pool option" where
  "AmmPool_deserializeState data =
     (if length data \<noteq> AmmPool_STATE_SIZE then None
      else
        let r = Reader data;
            (pid, r) = rd_u64 r;
            (creator, r) = rd_bytes null32 32 r;
            (token_a, r) = rd_u32 r;
            (token_b, r) = rd_u32 r;
            (reserve_a, r) = rd_u64 r;
            (reserve_b, r) = rd_u64 r;
            (total_liquidity, r) = rd_u64 r;
            (fee_bps, r) = rd_u16 r;
            (created_at_height, r) = rd_u64 r;
            (active, r) = rd_u8 r;
            (volume_window_height, r) = rd_u64 r;
            (volume_current, r) = rd_u64 r;
            (volume_last, r) = rd_u64 r
        in if \<not> rd_ok r then None
           else
             let out = \<lparr>pool_id = pid, pool_creator = creator, pool_token_a = ucast token_a,
                   pool_token_b = ucast token_b, pool_reserve_a = reserve_a,
                   pool_reserve_b = reserve_b, pool_total_liquidity = total_liquidity,
                   pool_fee_bps = fee_bps, pool_created_at_height = created_at_height,
                   pool_active = (active \<noteq> 0), pool_volume_window_height = volume_window_height,
                   pool_volume_current = volume_current, pool_volume_last = volume_last\<rparr>
             in if AmmPool_isValid out then Some out else None)"

lemma AmmPool_serializeState_eq:
  "AmmPool_serializeState p =
     writeU64 (pool_id p) @ pool_creator p @ writeU32 (ucast (pool_token_a p)) @
     writeU32 (ucast (pool_token_b p)) @ writeU64 (pool_reserve_a p) @ writeU64 (pool_reserve_b p) @
     writeU64 (pool_total_liquidity p) @ writeU16 (pool_fee_bps p) @
     writeU64 (pool_created_at_height p) @ bool_byte (pool_active p) #
     writeU64 (pool_volume_window_height p) @ writeU64 (pool_volume_current p) @
     writeU64 (pool_volume_last p)"
  by (simp add: AmmPool_serializeState_def run_writer_Cons bool_byte_def)

definition AmmPool_wf :: "amm_pool \<Rightarrow> bool" where
  "AmmPool_wf p \<longleftrightarrow> length (pool_creator p) = 32 \<and> fits32 (pool_token_a p) \<and> fits32 (pool_token_b p)
     \<and> AmmPool_isValid p"

lemma AmmPool_codec: "AmmPool_wf p \<Longrightarrow> AmmPool_deserializeState (AmmPool_serializeState p) = Some p"
  by (cases p) (simp add: AmmPool_deserializeState_def AmmPool_serializeState_eq AmmPool_STATE_SIZE_def
      AmmPool_wf_def codec_simps Let_def ucast_fits32)

interpretation pool_codec: state_codec AmmPool_serializeState AmmPool_deserializeState AmmPool_wf
  by unfold_locales (rule AmmPool_codec)

section \<open>AmmPosition\<close>

record amm_position =
  pos_id :: id
  pos_owner :: address
  pos_pool_id :: id
  pos_liquidity :: u64
  pos_created_at_height :: u64

definition AmmPosition_isValid :: "amm_position \<Rightarrow> bool" where
  "AmmPosition_isValid p =
     (if pos_id p = INVALID_ID then False
      else if pos_pool_id p = INVALID_ID then False
      else if isNull (pos_owner p) then False
      else True)"

definition AmmPosition_STATE_SIZE :: nat where
  "AmmPosition_STATE_SIZE = 8 + 32 + 8 + 8 + 8"

definition AmmPosition_serializeState :: "amm_position \<Rightarrow> bytes" where
  "AmmPosition_serializeState p = run_writer
     [wr_u64 (pos_id p),
      wr_bytes (pos_owner p) (length (pos_owner p)),
      wr_u64 (pos_pool_id p),
      wr_u64 (pos_liquidity p),
      wr_u64 (pos_created_at_height p)]"

definition AmmPosition_deserializeState :: "bytes \<Rightarrow> amm_position option" where
  "AmmPosition_deserializeState data =
     (if length data \<noteq> AmmPosition_STATE_SIZE then None
      else
        let r = Reader data;
            (pid, r) = rd_u64 r;
            (owner, r) = rd_bytes null32 32 r;
            (pool, r) = rd_u64 r;
            (liquidity, r) = rd_u64 r;
            (created_at_height, r) = rd_u64 r
        in if \<not> rd_ok r then None
           else
             let out = \<lparr>pos_id = pid, pos_owner = owner, pos_pool_id = pool,
                   pos_liquidity = liquidity, pos_created_at_height = created_at_height\<rparr>
             in if AmmPosition_isValid out then Some out else None)"

lemma AmmPosition_serializeState_eq:
  "AmmPosition_serializeState p =
     writeU64 (pos_id p) @ pos_owner p @ writeU64 (pos_pool_id p) @ writeU64 (pos_liquidity p) @
     writeU64 (pos_created_at_height p)"
  by (simp add: AmmPosition_serializeState_def run_writer_Cons)

definition AmmPosition_wf :: "amm_position \<Rightarrow> bool" where
  "AmmPosition_wf p \<longleftrightarrow> length (pos_owner p) = 32 \<and> AmmPosition_isValid p"

lemma AmmPosition_codec:
  "AmmPosition_wf p \<Longrightarrow> AmmPosition_deserializeState (AmmPosition_serializeState p) = Some p"
  by (cases p) (simp add: AmmPosition_deserializeState_def AmmPosition_serializeState_eq
      AmmPosition_STATE_SIZE_def AmmPosition_wf_def codec_simps Let_def)

interpretation pos_codec: state_codec AmmPosition_serializeState AmmPosition_deserializeState
    AmmPosition_wf
  by unfold_locales (rule AmmPosition_codec)

section \<open>Order\<close>

text \<open>
  A scoped enumeration with a fixed underlying type may hold any byte: the extra
  constructor keeps the bytes that name no enumerator.
\<close>

datatype OrderExecutionMode = Passive | Active | Mode_raw u8

datatype OrderConditionType = Cond_Invalid | ExpiresAtHeight | PriceAbove | PriceBelow | VolumeBelow
  | BalanceBelow | Cond_raw u8

definition mode_byte :: "OrderExecutionMode \<Rightarrow> u8" where
  "mode_byte m = (case m of Passive \<Rightarrow> 0 | Active \<Rightarrow> 1 | Mode_raw b \<Rightarrow> b)"

definition mode_of_byte :: "u8 \<Rightarrow> OrderExecutionMode" where
  "mode_of_byte b = (if b = 0 then Passive else if b = 1 then Active else Mode_raw b)"

definition cond_byte :: "OrderConditionType \<Rightarrow> u8" where
  "cond_byte t = (case t of Cond_Invalid \<Rightarrow> 0 | ExpiresAtHeight \<Rightarrow> 1 | PriceAbove \<Rightarrow> 2 | PriceBelow \<Rightarrow> 3
     | VolumeBelow \<Rightarrow> 4 | BalanceBelow \<Rightarrow> 5 | Cond_raw b \<Rightarrow> b)"

definition cond_of_byte :: "u8 \<Rightarrow> OrderConditionType" where
  "cond_of_byte b = (if b = 0 then Cond_Invalid else if b = 1 then ExpiresAtHeight
     else if b = 2 then PriceAbove else if b = 3 then PriceBelow else if b = 4 then VolumeBelow
     else if b = 5 then BalanceBelow else Cond_raw b)"

definition cond_canonical :: "OrderConditionType \<Rightarrow> bool" where
  "cond_canonical t \<longleftrightarrow> (case t of Cond_raw b \<Rightarrow> b > 5 | _ \<Rightarrow> True)"

lemma cond_of_byte_cond_byte [simp]: "cond_canonical t \<Longrightarrow> cond_of_byte (cond_byte t) = t"
  by (cases t) (auto simp: cond_of_byte_def cond_byte_def cond_canonical_def)

lemma cond_byte_cond_of_byte: "cond_byte (cond_of_byte b) = b"
  by (simp add: cond_of_byte_def cond_byte_def)

definition PRICE_SCALE :: u64 where "PRICE_SCALE = 10000000000"
definition ORDER_CANCEL_FEE_ATOMIC :: u64 where "ORDER_CANCEL_FEE_ATOMIC = 1"
definition ORDER_MAX_CONDITIONS :: nat where "ORDER_MAX_CONDITIONS = 8"

record order_condition =
  cond_type :: OrderConditionType
  cond_param1 :: u64
  cond_param2 :: u32

definition OrderCondition_default :: order_condition where
  "OrderCondition_default = \<lparr>cond_type = Cond_Invalid, cond_param1 = 0, cond_param2 = 0\<rparr>"

definition OrderCondition_isValid :: "order_condition \<Rightarrow> bool" where
  "OrderCondition_isValid c =
     (if cond_type c = Cond_Invalid then False
      else if (cond_type c = PriceAbove \<or> cond_type c = PriceBelow \<or> cond_type c = VolumeBelow)
        \<and> cond_param2 c = 0 then False
      else if (cond_type c = ExpiresAtHeight \<or> cond_type c = BalanceBelow)
        \<and> cond_param2 c \<noteq> 0 then False
      else if (cond_type c = PriceAbove \<or> cond_type c = PriceBelow \<or> cond_type c = BalanceBelow)
        \<and> cond_param1 c = 0 then False
      else True)"

definition OrderCondition_STATE_SIZE :: nat where
  "OrderCondition_STATE_SIZE = 1 + 8 + 4"

definition OrderCondition_serializeState :: "order_condition \<Rightarrow> bytes \<Rightarrow> bytes" where
  "OrderCondition_serializeState c out =
     out @ [cond_byte (cond_type c)]
       @ map (\<lambda>i. ucast (drop_bit (i * 8) (cond_param1 c))) [0..<8]
       @ map (\<lambda>i. ucast (drop_bit (i * 8) (cond_param2 c))) [0..<4]"

text \<open>The offset is advanced past the condition before its validity is checked.\<close>

definition OrderCondition_deserializeState ::
    "bytes \<Rightarrow> nat \<Rightarrow> (order_condition \<times> nat) option" where
  "OrderCondition_deserializeState data offset =
     (if offset + OrderCondition_STATE_SIZE > length data then None
      else
        let p = drop offset data;
            c = \<lparr>cond_type = cond_of_byte (p ! 0),
                 cond_param1 = foldl (\<lambda>v i. v OR push_bit (i * 8) (ucast (p ! (1 + i)))) 0 [0..<8],
                 cond_param2 = foldl (\<lambda>v i. v OR push_bit (i * 8) (ucast (p ! (9 + i)))) 0 [0..<4]\<rparr>
        in if OrderCondition_isValid c then Some (c, offset + OrderCondition_STATE_SIZE) else None)"

record order =
  ord_id :: id
  ord_owner :: address
  ord_mode :: OrderExecutionMode
  ord_pool_id :: u32
  ord_sell_token :: u32
  ord_buy_token :: u32
  ord_sell_amount :: u64
  ord_min_buy_amount :: u64
  ord_created_at_height :: u64
  ord_expires_at_height :: u64
  ord_filled_amount :: u64
  ord_condition_count :: u8
  ord_conditions :: "order_condition list"

definition Order_isValid :: "order \<Rightarrow> bool" where
  "Order_isValid o' =
     (if ord_id o' = INVALID_ID then False
      else if isNull (ord_owner o') then False
      else if ord_sell_token o' = ord_buy_token o' then False
      else if ord_sell_amount o' = 0 then False
      else if ord_min_buy_amount o' = 0 then False
      else if ord_filled_amount o' > ord_sell_amount o' then False
      else if unat (ord_condition_count o') > ORDER_MAX_CONDITIONS then False
      else if ord_mode o' \<noteq> Passive \<and> ord_mode o' \<noteq> Active then False
      else if ord_mode o' = Active \<and> ord_pool_id o' = 0 then False
      else if ord_mode o' \<noteq> Active \<and> ord_pool_id o' \<noteq> 0 then False
      else list_all (\<lambda>i. OrderCondition_isValid (ord_conditions o' ! i))
             [0..<unat (ord_condition_count o')])"

definition remainingAmount :: "order \<Rightarrow> u64" where
  "remainingAmount o' = ord_sell_amount o' - ord_filled_amount o'"

definition isFullyFilled :: "order \<Rightarrow> bool" where
  "isFullyFilled o' = (ord_filled_amount o' \<ge> ord_sell_amount o')"

definition Order_STATE_SIZE_FIXED :: nat where
  "Order_STATE_SIZE_FIXED = 8 + 32 + 1 + 4 + 4 + 4 + 8 + 8 + 8 + 8 + 8 + 1"

definition Order_serializeState :: "order \<Rightarrow> bytes" where
  "Order_serializeState o' = run_writer
     ([wr_u64 (ord_id o'),
       wr_bytes (ord_owner o') (length (ord_owner o')),
       wr_u8 (mode_byte (ord_mode o')),
       wr_u32 (ord_pool_id o'),
       wr_u32 (ord_sell_token o'),
       wr_u32 (ord_buy_token o'),
       wr_u64 (ord_sell_amount o'),
       wr_u64 (ord_min_buy_amount o'),
       wr_u64 (ord_created_at_height o'),
       wr_u64 (ord_expires_at_height o'),
       wr_u64 (ord_filled_amount o'),
       wr_u8 (ord_condition_count o')]
      @ map (\<lambda>i. OrderCondition_serializeState (ord_conditions o' ! i))
          [0..<min (unat (ord_condition_count o')) ORDER_MAX_CONDITIONS])"

fun read_conditions :: "bytes \<Rightarrow> nat \<Rightarrow> nat \<Rightarrow> (order_condition list \<times> nat) option" where
  "read_conditions data off 0 = Some ([], off)"
| "read_conditions data off (Suc n) =
     (case OrderCondition_deserializeState data off of
        None \<Rightarrow> None
      | Some (c, off') \<Rightarrow>
          (case read_conditions data off' n of
             None \<Rightarrow> None
           | Some (cs, off'') \<Rightarrow> Some (c # cs, off'')))"

text \<open>The array elements past \<open>condition_count\<close> keep their default values.\<close>

definition Order_deserializeState :: "bytes \<Rightarrow> order option" where
  "Order_deserializeState data =
     (if length data < Order_STATE_SIZE_FIXED then None
      else
        let r = Reader data;
            (oid, r) = rd_u64 r;
            (owner, r) = rd_bytes null32 32 r;
            (mode, r) = rd_u8 r;
            (pool, r) = rd_u32 r;
            (sell_token, r) = rd_u32 r;
            (buy_token, r) = rd_u32 r;
            (sell_amount, r) = rd_u64 r;
            (min_buy_amount, r) = rd_u64 r;
            (created_at_height, r) = rd_u64 r;
            (order_expires_at_height, r) = rd_u64 r;
            (filled_amount, r) = rd_u64 r;
            (condition_count, r) = rd_u8 r
        in if \<not> rd_ok r then None
           else if unat condition_count > ORDER_MAX_CONDITIONS then None
           else if length data \<noteq> Order_STATE_SIZE_FIXED
               + unat condition_count * OrderCondition_STATE_SIZE then None
           else
             (case read_conditions data Order_STATE_SIZE_FIXED (unat condition_count) of
                None \<Rightarrow> None
              | Some (cs, off) \<Rightarrow>
                  if off \<noteq> length data then None
                  else
                    let out = \<lparr>ord_id = oid, ord_owner = owner, ord_mode = mode_of_byte mode,
                          ord_pool_id = pool, ord_sell_token = sell_token,
                          ord_buy_token = buy_token, ord_sell_amount = sell_amount,
                          ord_min_buy_amount = min_buy_amount,
                          ord_created_at_height = created_at_height,
                          ord_expires_at_height = order_expires_at_height,
                          ord_filled_amount = filled_amount,
                          ord_condition_count = condition_count,
                          ord_conditions = cs @ replicate (ORDER_MAX_CONDITIONS - length cs)
                            OrderCondition_default\<rparr>
                    in if Order_isValid out then Some out else None))"

definition cond_bytes :: "order_condition \<Rightarrow> bytes" where
  "cond_bytes c = cond_byte (cond_type c) # writeU64 (cond_param1 c) @ writeU32 (cond_param2 c)"

lemma length_cond_bytes [simp]: "length (cond_bytes c) = OrderCondition_STATE_SIZE"
  by (simp add: cond_bytes_def OrderCondition_STATE_SIZE_def)

lemma OrderCondition_serializeState_eq: "OrderCondition_serializeState c out = out @ cond_bytes c"
  by (simp add: OrderCondition_serializeState_def cond_bytes_def writeU64_def writeU32_le le_bytes_def)

lemma foldl_serialize_conditions:
  "n \<le> length cs \<Longrightarrow>
     foldl (\<lambda>out w. w out) out (map (\<lambda>i. OrderCondition_serializeState (cs ! i)) [0..<n])
       = out @ concat (map cond_bytes (take n cs))"
proof (induction n)
  case 0
  then show ?case by simp
next
  case (Suc n)
  then have "take (Suc n) cs = take n cs @ [cs ! n]" by (simp add: take_Suc_conv_app_nth)
  with Suc show ?case by (simp add: OrderCondition_serializeState_eq)
qed

lemma OrderCondition_deserializeState_at:
  assumes "OrderCondition_isValid c" and "cond_canonical (cond_type c)"
  shows "OrderCondition_deserializeState (pre @ cond_bytes c @ q) (length pre)
    = Some (c, length pre + OrderCondition_STATE_SIZE)"
proof -
  let ?p = "cond_bytes c @ q"
  have t: "?p ! 0 = cond_byte (cond_type c)"
    by (simp add: cond_bytes_def)
  have "foldl (\<lambda>v i. v OR push_bit (i * 8) (ucast (?p ! Suc i))) 0 [0..<8]
      = readU64 (writeU64 (cond_param1 c) @ writeU32 (cond_param2 c) @ q)"
    by (simp add: readU64_def cond_bytes_def)
  then have p1: "foldl (\<lambda>v i. v OR push_bit (i * 8) (ucast (?p ! Suc i))) 0 [0..<8] = cond_param1 c"
    by (simp only: codec_simps)
  have "foldl (\<lambda>v i. v OR push_bit (i * 8) (ucast (?p ! (9 + i)))) 0 [0..<4]
      = readU32 (writeU32 (cond_param2 c) @ q)"
    by (simp add: readU32_le le_word_def cond_bytes_def nth_append)
  then have p2: "foldl (\<lambda>v i. v OR push_bit (i * 8) (ucast (?p ! (9 + i)))) 0 [0..<4] = cond_param2 c"
    by (simp only: codec_simps)
  have eta: "\<lparr>cond_type = cond_type c, cond_param1 = cond_param1 c, cond_param2 = cond_param2 c\<rparr> = c"
    by simp
  show ?thesis using assms
    by (simp add: OrderCondition_deserializeState_def Let_def t p1 p2 eta)
qed

lemma length_concat_cond_bytes:
  "length (concat (map cond_bytes cs)) = length cs * OrderCondition_STATE_SIZE"
  by (induction cs) simp_all

lemma read_conditions_at:
  "list_all OrderCondition_isValid cs \<Longrightarrow> list_all (\<lambda>c. cond_canonical (cond_type c)) cs \<Longrightarrow>
     read_conditions (pre @ concat (map cond_bytes cs)) (length pre) (length cs)
       = Some (cs, length pre + length cs * OrderCondition_STATE_SIZE)"
proof (induction cs arbitrary: pre)
  case Nil
  then show ?case by simp
next
  case (Cons c cs)
  then have "read_conditions ((pre @ cond_bytes c) @ concat (map cond_bytes cs))
      (length (pre @ cond_bytes c)) (length cs)
    = Some (cs, length (pre @ cond_bytes c) + length cs * OrderCondition_STATE_SIZE)"
    by (intro Cons.IH) auto
  with Cons.prems show ?case
    by (simp add: OrderCondition_deserializeState_at)
qed

definition Order_head :: "order \<Rightarrow> bytes" where
  "Order_head o' =
     writeU64 (ord_id o') @ ord_owner o' @ mode_byte (ord_mode o') # writeU32 (ord_pool_id o') @
     writeU32 (ord_sell_token o') @ writeU32 (ord_buy_token o') @ writeU64 (ord_sell_amount o') @
     writeU64 (ord_min_buy_amount o') @ writeU64 (ord_created_at_height o') @
     writeU64 (ord_expires_at_height o') @ writeU64 (ord_filled_amount o') @ [ord_condition_count o']"

lemma length_Order_head: "length (ord_owner o') = 32 \<Longrightarrow> length (Order_head o') = Order_STATE_SIZE_FIXED"
  by (simp add: Order_head_def Order_STATE_SIZE_FIXED_def)

text \<open>
  What an order record of the running system satisfies: eight condition slots, the
  unused ones at their defaults, and a valid record.
\<close>

definition Order_wf :: "order \<Rightarrow> bool" where
  "Order_wf o' \<longleftrightarrow> length (ord_owner o') = 32 \<and> length (ord_conditions o') = ORDER_MAX_CONDITIONS
     \<and> drop (unat (ord_condition_count o')) (ord_conditions o')
         = replicate (ORDER_MAX_CONDITIONS - unat (ord_condition_count o')) OrderCondition_default
     \<and> list_all (\<lambda>c. cond_canonical (cond_type c))
         (take (unat (ord_condition_count o')) (ord_conditions o'))
     \<and> Order_isValid o'"

lemma Order_wf_count: "Order_wf o' \<Longrightarrow> unat (ord_condition_count o') \<le> ORDER_MAX_CONDITIONS"
  by (auto simp: Order_wf_def Order_isValid_def split: if_splits)

lemma Order_wf_conditions:
  assumes "Order_wf o'"
  shows "list_all OrderCondition_isValid (take (unat (ord_condition_count o')) (ord_conditions o'))"
  using assms Order_wf_count [OF assms]
  by (auto simp: Order_wf_def Order_isValid_def list_all_length split: if_splits)

lemma Order_wf_mode: "Order_wf o' \<Longrightarrow> mode_of_byte (mode_byte (ord_mode o')) = ord_mode o'"
  by (auto simp: Order_wf_def Order_isValid_def mode_of_byte_def mode_byte_def split: if_splits)

lemma Order_serializeState_eq:
  assumes "Order_wf o'"
  shows "Order_serializeState o' = Order_head o' @
    concat (map cond_bytes (take (unat (ord_condition_count o')) (ord_conditions o')))"
proof -
  have "min (unat (ord_condition_count o')) ORDER_MAX_CONDITIONS = unat (ord_condition_count o')"
    using Order_wf_count [OF assms] by simp
  moreover have "unat (ord_condition_count o') \<le> length (ord_conditions o')"
    using assms Order_wf_count [OF assms] by (simp add: Order_wf_def)
  ultimately show ?thesis
    by (simp add: Order_serializeState_def run_writer_Cons foldl_serialize_conditions Order_head_def)
qed

lemma Order_codec:
  assumes "Order_wf o'"
  shows "Order_deserializeState (Order_serializeState o') = Some o'"
proof -
  let ?n = "unat (ord_condition_count o')"
  let ?cs = "take ?n (ord_conditions o')"
  have n: "?n \<le> ORDER_MAX_CONDITIONS" by (rule Order_wf_count [OF assms])
  have owner: "length (ord_owner o') = 32" and conds: "length (ord_conditions o') = ORDER_MAX_CONDITIONS"
    and valid: "Order_isValid o'"
    and tail: "drop ?n (ord_conditions o') = replicate (ORDER_MAX_CONDITIONS - ?n) OrderCondition_default"
    using assms by (simp_all add: Order_wf_def)
  have lcs: "length ?cs = ?n" using n conds by simp
  have head: "length (Order_head o') = Order_STATE_SIZE_FIXED" by (rule length_Order_head [OF owner])
  have "read_conditions (Order_head o' @ concat (map cond_bytes ?cs)) (length (Order_head o')) (length ?cs)
      = Some (?cs, length (Order_head o') + length ?cs * OrderCondition_STATE_SIZE)"
    using assms Order_wf_conditions [OF assms]
    by (intro read_conditions_at) (simp_all add: Order_wf_def)
  then have rc: "read_conditions (Order_serializeState o') Order_STATE_SIZE_FIXED ?n
      = Some (?cs, Order_STATE_SIZE_FIXED + ?n * OrderCondition_STATE_SIZE)"
    by (simp only: Order_serializeState_eq [OF assms] head lcs)
  have len: "length (Order_serializeState o') = Order_STATE_SIZE_FIXED + ?n * OrderCondition_STATE_SIZE"
    using lcs by (simp add: Order_serializeState_eq [OF assms] head length_concat_cond_bytes
        del: length_take)
  have conds_eq: "?cs @ replicate (ORDER_MAX_CONDITIONS - length ?cs) OrderCondition_default
      = ord_conditions o'"
    using tail by (simp only: lcs) (metis append_take_drop_id)
  obtain q where ser: "Order_serializeState o' =
     writeU64 (ord_id o') @ ord_owner o' @ mode_byte (ord_mode o') # writeU32 (ord_pool_id o') @
     writeU32 (ord_sell_token o') @ writeU32 (ord_buy_token o') @ writeU64 (ord_sell_amount o') @
     writeU64 (ord_min_buy_amount o') @ writeU64 (ord_created_at_height o') @
     writeU64 (ord_expires_at_height o') @ writeU64 (ord_filled_amount o') @ ord_condition_count o' # q"
    by (simp add: Order_serializeState_eq [OF assms] Order_head_def)
  have eta: "\<lparr>ord_id = ord_id o', ord_owner = ord_owner o', ord_mode = ord_mode o',
      ord_pool_id = ord_pool_id o', ord_sell_token = ord_sell_token o',
      ord_buy_token = ord_buy_token o', ord_sell_amount = ord_sell_amount o',
      ord_min_buy_amount = ord_min_buy_amount o', ord_created_at_height = ord_created_at_height o',
      ord_expires_at_height = ord_expires_at_height o', ord_filled_amount = ord_filled_amount o',
      ord_condition_count = ord_condition_count o', ord_conditions = ord_conditions o'\<rparr> = o'"
    by simp
  show ?thesis
    unfolding Order_deserializeState_def len
    using n owner valid rc [unfolded ser]
    by (simp add: ser codec_simps Let_def conds_eq Order_wf_mode [OF assms] eta del: length_take)
qed

interpretation ord_codec: state_codec Order_serializeState Order_deserializeState Order_wf
  by unfold_locales (rule Order_codec)

section \<open>Fill\<close>

datatype FillSource = Limit | Amm | Source_raw u8

definition source_byte :: "FillSource \<Rightarrow> u8" where
  "source_byte s = (case s of Limit \<Rightarrow> 0 | Amm \<Rightarrow> 1 | Source_raw b \<Rightarrow> b)"

definition source_of_byte :: "u8 \<Rightarrow> FillSource" where
  "source_of_byte b = (if b = 0 then Limit else if b = 1 then Amm else Source_raw b)"

record fill =
  fill_source :: FillSource
  fill_maker_order_id :: u64
  fill_taker_order_id :: u64
  fill_pool_id :: u32
  fill_qty_base :: u64
  fill_qty_quote :: u64
  fill_price :: u64
  fill_base_token :: u32
  fill_quote_token :: u32

definition Fill_STATE_SIZE :: nat where
  "Fill_STATE_SIZE = 1 + 8 + 8 + 4 + 8 + 8 + 8 + 4 + 4"

definition Fill_isValid :: "fill \<Rightarrow> bool" where
  "Fill_isValid f =
     (if fill_taker_order_id f = 0 then False
      else if fill_qty_base f = 0 then False
      else if fill_base_token f = fill_quote_token f then False
      else (case fill_source f of
              Limit \<Rightarrow>
                if fill_maker_order_id f = 0 then False
                else if fill_maker_order_id f = fill_taker_order_id f then False
                else if fill_pool_id f \<noteq> 0 then False
                else True
            | Amm \<Rightarrow>
                if fill_maker_order_id f \<noteq> 0 then False
                else if fill_pool_id f = 0 then False
                else True
            | Source_raw _ \<Rightarrow> True))"

definition Fill_serializeState :: "fill \<Rightarrow> bytes" where
  "Fill_serializeState f = run_writer
     [wr_u8 (source_byte (fill_source f)),
      wr_u64 (fill_maker_order_id f),
      wr_u64 (fill_taker_order_id f),
      wr_u32 (fill_pool_id f),
      wr_u64 (fill_qty_base f),
      wr_u64 (fill_qty_quote f),
      wr_u64 (fill_price f),
      wr_u32 (fill_base_token f),
      wr_u32 (fill_quote_token f)]"

definition Fill_deserializeState :: "bytes \<Rightarrow> fill option" where
  "Fill_deserializeState data =
     (if length data \<noteq> Fill_STATE_SIZE then None
      else
        let r = Reader data;
            (source, r) = rd_u8 r;
            (maker_order_id, r) = rd_u64 r;
            (taker_order_id, r) = rd_u64 r;
            (pool, r) = rd_u32 r;
            (qty_base, r) = rd_u64 r;
            (qty_quote, r) = rd_u64 r;
            (price, r) = rd_u64 r;
            (base_token, r) = rd_u32 r;
            (quote_token, r) = rd_u32 r
        in if \<not> rd_ok r then None
           else
             let out = \<lparr>fill_source = source_of_byte source, fill_maker_order_id = maker_order_id,
                   fill_taker_order_id = taker_order_id, fill_pool_id = pool,
                   fill_qty_base = qty_base, fill_qty_quote = qty_quote, fill_price = price,
                   fill_base_token = base_token, fill_quote_token = quote_token\<rparr>
             in if Fill_isValid out then Some out else None)"

lemma Fill_serializeState_eq:
  "Fill_serializeState f =
     source_byte (fill_source f) # writeU64 (fill_maker_order_id f) @ writeU64 (fill_taker_order_id f) @
     writeU32 (fill_pool_id f) @ writeU64 (fill_qty_base f) @ writeU64 (fill_qty_quote f) @
     writeU64 (fill_price f) @ writeU32 (fill_base_token f) @ writeU32 (fill_quote_token f)"
  by (simp add: Fill_serializeState_def run_writer_Cons)

definition Fill_wf :: "fill \<Rightarrow> bool" where
  "Fill_wf f \<longleftrightarrow> (fill_source f = Limit \<or> fill_source f = Amm) \<and> Fill_isValid f"

lemma Fill_codec: "Fill_wf f \<Longrightarrow> Fill_deserializeState (Fill_serializeState f) = Some f"
  by (cases f) (auto simp: Fill_deserializeState_def Fill_serializeState_eq Fill_STATE_SIZE_def
      Fill_wf_def source_of_byte_def source_byte_def codec_simps Let_def)

interpretation fill_codec: state_codec Fill_serializeState Fill_deserializeState Fill_wf
  by unfold_locales (rule Fill_codec)

section \<open>What a decoder accepts is well-formed\<close>

lemma rd_bytes_length: "rd_bytes null32 32 r = (b, r') \<Longrightarrow> length b = 32"
  by (auto simp: rd_bytes_def rd_remaining_def split: if_splits)

lemma AmmPool_deserialize_wf: "AmmPool_deserializeState v = Some p \<Longrightarrow> AmmPool_wf p"
  by (auto simp: AmmPool_deserializeState_def Let_def AmmPool_wf_def rd_bytes_length split: if_splits prod.splits)

lemma AmmPosition_deserialize_wf: "AmmPosition_deserializeState v = Some p \<Longrightarrow> AmmPosition_wf p"
  by (auto simp: AmmPosition_deserializeState_def Let_def AmmPosition_wf_def rd_bytes_length split: if_splits prod.splits)

lemma cond_raw_large:
  "b \<noteq> 0 \<Longrightarrow> b \<noteq> 1 \<Longrightarrow> b \<noteq> 2 \<Longrightarrow> b \<noteq> 3 \<Longrightarrow> b \<noteq> 4 \<Longrightarrow> b \<noteq> 5 \<Longrightarrow> (5 :: u8) < b"
  by (simp add: word_less_nat_alt word_unat_eq_iff)

lemma cond_of_byte_canonical: "cond_canonical (cond_of_byte b)"
  by (simp add: cond_of_byte_def cond_canonical_def cond_raw_large)

lemma condition_deserialize_ok:
  "OrderCondition_deserializeState data off = Some (c, off') \<Longrightarrow> OrderCondition_isValid c \<and> cond_canonical (cond_type c)"
  by (auto simp: OrderCondition_deserializeState_def Let_def cond_of_byte_canonical split: if_splits)

lemma read_conditions_ok:
  "read_conditions data off n = Some (cs, off') \<Longrightarrow>
     length cs = n \<and> list_all (\<lambda>c. OrderCondition_isValid c \<and> cond_canonical (cond_type c)) cs"
  by (induction data off n arbitrary: cs rule: read_conditions.induct)
    (auto split: option.splits prod.splits dest: condition_deserialize_ok)

lemma Order_deserialize_wf: "Order_deserializeState v = Some p \<Longrightarrow> Order_wf p"
  by (auto simp: Order_deserializeState_def Let_def Order_wf_def rd_bytes_length not_less list_all_iff
      split: if_splits prod.splits option.splits dest!: read_conditions_ok)

end
