(* ===== verification/Order_Book.thy ===== *)
theory Order_Book
  imports State_Keys Dex_Types
begin

text \<open>
  The canonical frame of a trading pair (\<^verbatim>\<open>src/Core/OrderBook.cpp\<close>) and the keys of the book
  index (\<^verbatim>\<open>encodeBookKey\<close>, \<^verbatim>\<open>decodeBookKey\<close> of \<^verbatim>\<open>src/State/StateAccess.cpp\<close>).
\<close>

unbundle bit_operations_syntax

section \<open>Prices\<close>

definition BOOK_PRICE_SCALE :: u64 where "BOOK_PRICE_SCALE = 10000000000"
definition MAX_BOOK_LEVELS_PER_TAKER :: nat where "MAX_BOOK_LEVELS_PER_TAKER = 256"

definition UINT64_MAX :: u64 where "UINT64_MAX = 0xFFFFFFFFFFFFFFFF"

definition mulFitsU64 :: "u64 \<Rightarrow> u64 \<Rightarrow> u64 option" where
  "mulFitsU64 a b =
     (if a = 0 \<or> b = 0 then Some 0
      else
        let prod = (ucast a :: u128) * ucast b
        in if prod > ucast UINT64_MAX then None else Some (ucast prod))"

definition pairKey :: "(bytes \<Rightarrow> bytes) \<Rightarrow> u32 \<Rightarrow> u32 \<Rightarrow> hash" where
  "pairKey H sell_token buy_token =
     (let lo = min sell_token buy_token;
          hi = max sell_token buy_token
      in H (str ''obok'' @
           [ucast lo, ucast (drop_bit 8 lo), ucast (drop_bit 16 lo), ucast (drop_bit 24 lo),
            ucast hi, ucast (drop_bit 8 hi), ucast (drop_bit 16 hi), ucast (drop_bit 24 hi)]))"

definition sideOf :: "order \<Rightarrow> u8" where
  "sideOf o' = (if ord_sell_token o' < ord_buy_token o' then 0 else 1)"

definition canonicalPrice :: "order \<Rightarrow> u64 option" where
  "canonicalPrice o' =
     (if ord_sell_amount o' = 0 \<or> ord_min_buy_amount o' = 0 then None
      else if ord_sell_token o' < ord_buy_token o' then
        (case mulFitsU64 (ord_min_buy_amount o') BOOK_PRICE_SCALE of
           None \<Rightarrow> None
         | Some num \<Rightarrow> Some (num div ord_sell_amount o'))
      else
        (case mulFitsU64 (ord_sell_amount o') BOOK_PRICE_SCALE of
           None \<Rightarrow> None
         | Some num \<Rightarrow>
             let den = ord_min_buy_amount o'
             in Some (num div den + (if num mod den \<noteq> 0 then 1 else 0))))"

definition crosses :: "u64 \<Rightarrow> u64 \<Rightarrow> u8 \<Rightarrow> bool" where
  "crosses taker_limit maker_price taker_side =
     (if taker_side = 0 then maker_price \<ge> taker_limit else maker_price \<le> taker_limit)"

definition isBetterPrice :: "u64 \<Rightarrow> u64 \<Rightarrow> u8 \<Rightarrow> bool" where
  "isBetterPrice candidate incumbent side =
     (if side = 0 then candidate > incumbent else candidate < incumbent)"

section \<open>Book keys\<close>

definition encodeBookKey :: "hash \<Rightarrow> u8 \<Rightarrow> u64 \<Rightarrow> u64 \<Rightarrow> bytes" where
  "encodeBookKey pair_key side canonical_price sequence =
     (let key_price = (if side = 0 then canonical_price else NOT canonical_price)
      in take 32 pair_key @ [side] @ writeU64BE key_price @ writeU64BE sequence)"

definition decodeBookKey :: "bytes \<Rightarrow> u64 \<times> u64" where
  "decodeBookKey key =
     (let side = key ! 32;
          stored = readU64BE (drop 33 key);
          canonical_price = (if side = 0 then stored else NOT stored);
          seq = readU64BE (drop 41 key)
      in (canonical_price, seq))"

section \<open>Exact values\<close>

lemma unat_BOOK_PRICE_SCALE [simp]: "unat BOOK_PRICE_SCALE = 10000000000"
  by (simp add: BOOK_PRICE_SCALE_def)

lemma u128_gt_max: "(ucast UINT64_MAX < (q :: u128)) \<longleftrightarrow> 18446744073709551616 \<le> unat q"
  by (simp add: word_less_nat_alt UINT64_MAX_def Suc_le_eq [symmetric])

lemma mulFitsU64_Some: "mulFitsU64 a b = Some c \<longleftrightarrow> unat c = unat a * unat b"
proof (cases "a = 0 \<or> b = 0")
  case True
  then show ?thesis by (auto simp: mulFitsU64_def word_unat_eq_iff)
next
  case False
  have "unat a * unat b = unat c" if "unat a * unat b < 18446744073709551616" "ucast ((ucast a :: u128) * ucast b) = c"
    using that by (simp flip: that(2))
  moreover have "ucast ((ucast a :: u128) * ucast b) = c" if "unat c = unat a * unat b"
    using that unat_u64_less [of c] by (simp add: word_unat_eq_iff)
  moreover have "unat a * unat b < 18446744073709551616" if "unat c = unat a * unat b"
    using that unat_u64_less [of c] by linarith
  ultimately show ?thesis
    using False by (auto simp: mulFitsU64_def Let_def u128_gt_max not_le)
qed

lemma mulFitsU64_None: "mulFitsU64 a b = None \<longleftrightarrow> 18446744073709551616 \<le> unat a * unat b"
  by (auto simp: mulFitsU64_def Let_def u128_gt_max)

lemma canonicalPrice_seller:
  assumes "ord_sell_token o' < ord_buy_token o'"
  shows "canonicalPrice o' = Some p \<longleftrightarrow>
    ord_sell_amount o' \<noteq> 0 \<and> ord_min_buy_amount o' \<noteq> 0
    \<and> unat (ord_min_buy_amount o') * 10000000000 < 18446744073709551616
    \<and> unat p = unat (ord_min_buy_amount o') * 10000000000 div unat (ord_sell_amount o')"
proof (cases "mulFitsU64 (ord_min_buy_amount o') BOOK_PRICE_SCALE")
  case None
  then have "\<not> unat (ord_min_buy_amount o') * 10000000000 < 18446744073709551616"
    by (simp add: mulFitsU64_None BOOK_PRICE_SCALE_def)
  then show ?thesis using assms None by (simp add: canonicalPrice_def)
next
  case (Some num)
  then have num: "unat num = unat (ord_min_buy_amount o') * 10000000000"
    by (simp add: mulFitsU64_Some BOOK_PRICE_SCALE_def)
  have "unat num < 18446744073709551616" by simp
  then show ?thesis using assms Some num
    by (auto simp: canonicalPrice_def unat_div word_unat_eq_iff)
qed

lemma ceil_div_nat:
  fixes n d :: nat
  assumes d: "0 < d"
  shows "(n + (d - 1)) div d = n div d + (if n mod d \<noteq> 0 then 1 else 0)"
proof -
  have "n + (d - 1) = (n mod d + (d - 1)) + (n div d) * d"
    using div_mult_mod_eq [of n d] by linarith
  then have "(n + (d - 1)) div d = n div d + (n mod d + (d - 1)) div d"
    using d by (simp only: div_mult_self1)
  moreover have "(n mod d + (d - 1)) div d = (if n mod d \<noteq> 0 then 1 else 0)"
  proof (cases "n mod d = 0")
    case True
    then show ?thesis using d by simp
  next
    case False
    have "n mod d + (d - 1) = (n mod d - 1) + 1 * d" using False d by simp
    moreover have "n mod d - 1 < d" using mod_less_divisor [OF d, of n] by linarith
    ultimately show ?thesis using False d by (simp only: div_mult_self1) simp
  qed
  ultimately show ?thesis by simp
qed

lemma ceil_div_word:
  fixes num den :: u64
  assumes "den \<noteq> 0"
  shows "unat (num div den + (if num mod den \<noteq> 0 then 1 else 0)) = (unat num + (unat den - 1)) div unat den"
proof -
  have d: "0 < unat den" using assms by (simp add: unat_gt_0)
  note ceil = ceil_div_nat [OF d, of "unat num"]
  have modeq: "(num mod den = 0) = (unat num mod unat den = 0)"
    by (simp add: word_unat_eq_iff unat_mod)
  show ?thesis
  proof (cases "num mod den = 0")
    case True
    then show ?thesis using ceil modeq by (simp add: unat_div)
  next
    case False
    then have "unat den \<noteq> 1" using modeq by auto
    then have "2 \<le> unat den" using d by linarith
    then have "unat num div unat den \<le> unat num div 2" by (simp add: div_le_mono2)
    moreover have "unat num < 18446744073709551616" by simp
    ultimately have "unat num div unat den + 1 < 18446744073709551616" by linarith
    then have "unat (num div den + 1) = unat num div unat den + 1"
      by (subst unat_add_no_overflow) (simp_all add: unat_div)
    with False ceil modeq show ?thesis by simp
  qed
qed

lemma canonicalPrice_buyer:
  assumes "\<not> ord_sell_token o' < ord_buy_token o'"
  shows "canonicalPrice o' = Some p \<longleftrightarrow>
    ord_sell_amount o' \<noteq> 0 \<and> ord_min_buy_amount o' \<noteq> 0
    \<and> unat (ord_sell_amount o') * 10000000000 < 18446744073709551616
    \<and> unat p = (unat (ord_sell_amount o') * 10000000000 + (unat (ord_min_buy_amount o') - 1))
        div unat (ord_min_buy_amount o')"
proof (cases "mulFitsU64 (ord_sell_amount o') BOOK_PRICE_SCALE")
  case None
  then have "\<not> unat (ord_sell_amount o') * 10000000000 < 18446744073709551616"
    by (simp add: mulFitsU64_None BOOK_PRICE_SCALE_def)
  then show ?thesis using assms None by (simp add: canonicalPrice_def)
next
  case (Some num)
  then have num: "unat num = unat (ord_sell_amount o') * 10000000000"
    by (simp add: mulFitsU64_Some BOOK_PRICE_SCALE_def)
  have "unat num < 18446744073709551616" by simp
  then show ?thesis using assms Some num ceil_div_word [of "ord_min_buy_amount o'" num]
    by (auto simp: canonicalPrice_def word_unat_eq_iff Let_def simp del: unat_0_iff)
qed

section \<open>Order of the book\<close>

lemma decode_encodeBookKey:
  "length pk = 32 \<Longrightarrow> decodeBookKey (encodeBookKey pk side p s) = (p, s)"
  by (simp add: decodeBookKey_def encodeBookKey_def Let_def codec_simps nth_append)

lemma length_encodeBookKey [simp]: "length pk = 32 \<Longrightarrow> length (encodeBookKey pk side p s) = 49"
  by (simp add: encodeBookKey_def Let_def)

lemma not_less_iff_u64: "(NOT a < NOT (b :: u64)) = (b < a)"
proof -
  have flip: "unat (NOT x) = 18446744073709551615 - unat x" for x :: u64
  proof -
    have "NOT x = - 1 - x" by (simp add: not_eq_complement)
    moreover have "unat (- 1 - x) = unat (- 1 :: u64) - unat x" by (rule unat_sub_le) simp
    moreover have "unat (- 1 :: u64) = 18446744073709551615" by (simp add: unsigned_minus_1_eq_mask mask_eq_exp_minus_1)
    ultimately show ?thesis by simp
  qed
  have "unat a < 18446744073709551616" "unat b < 18446744073709551616" by simp_all
  then show ?thesis unfolding word_less_nat_alt flip by linarith
qed

text \<open>
  On side 0 the best price of a resting order is the lowest, on side 1 the highest; among equal
  prices the earlier sequence number comes first.
\<close>

definition book_before :: "u8 \<Rightarrow> u64 \<times> u64 \<Rightarrow> u64 \<times> u64 \<Rightarrow> bool" where
  "book_before side = (\<lambda>(p, s) (p', s').
     (if side = 0 then p < p' else p' < p) \<or> (p = p' \<and> s < s'))"

lemma encodeBookKey_less:
  "encodeBookKey pk side p s < encodeBookKey pk side p' s' \<longleftrightarrow> book_before side (p, s) (p', s')"
  by (auto simp: encodeBookKey_def Let_def append_less_iff writeU64BE_less_iff key_simps
      book_before_def not_less_iff_u64)

end
