(* ===== verification/State_Orders.thy ===== *)
theory State_Orders
  imports State_Objects Order_Book
begin

text \<open>
  Orders in the state (\<^verbatim>\<open>src/State/StateAccess.cpp\<close>): the order records with their indexes, the
  price-time book, the expiry lists, refunds and the fill history.
\<close>

section \<open>Lists of identifiers\<close>

definition encodeU64List :: "u64 list \<Rightarrow> bytes" where
  "encodeU64List ids =
     (let count = (of_nat (length ids) :: u32);
          out = [ucast count, ucast (drop_bit 8 count), ucast (drop_bit 16 count), ucast (drop_bit 24 count)]
      in foldl (\<lambda>out i. out @ map (\<lambda>j. ucast (drop_bit (j * 8) i)) [0..<8]) out ids)"

definition decodeU64List :: "bytes \<Rightarrow> u64 list option" where
  "decodeU64List b =
     (if length b < 4 then None
      else
        let count = readU32 b
        in if length b \<noteq> 4 + unat count * 8 then None
           else Some (map (\<lambda>i. readU64 (drop (4 + i * 8) b)) [0..<unat count]))"

section \<open>Order records\<close>

definition getOrder :: "id \<Rightarrow> db \<Rightarrow> order option" where
  "getOrder order_id d = smt_typed Order_deserializeState (Keys_order (db_hash d) order_id) d"

definition order_owner_key :: "address \<Rightarrow> id \<Rightarrow> bytes" where
  "order_owner_key owner order_id = owner @ writeU64 order_id"

definition order_pair_row_key :: "id \<Rightarrow> id \<Rightarrow> id \<Rightarrow> bytes" where
  "order_pair_row_key sell_token buy_token order_id =
     writeU32 (ucast sell_token) @ writeU32 (ucast buy_token) @ writeU64 order_id"

definition indexOrderRow :: "id \<Rightarrow> address \<Rightarrow> id \<Rightarrow> id \<Rightarrow> db \<Rightarrow> db" where
  "indexOrderRow order_id owner sell_token buy_token d =
     (case getOrder order_id d of
        None \<Rightarrow> d
      | Some o' \<Rightarrow>
          let d = putBlobRow TBL_ORDERS (writeU64 order_id) (Order_serializeState o') d;
              d = putSentinel TBL_INDEX_ORDERS_BY_OWNER (order_owner_key owner order_id) d
          in putSentinel TBL_INDEX_ORDERS_BY_PAIR (order_pair_row_key sell_token buy_token order_id) d)"

definition unindexOrderRow :: "id \<Rightarrow> address \<Rightarrow> id \<Rightarrow> id \<Rightarrow> db \<Rightarrow> db" where
  "unindexOrderRow order_id owner sell_token buy_token d =
     (let d = deleteRow TBL_ORDERS (writeU64 order_id) d;
          d = deleteRow TBL_INDEX_ORDERS_BY_OWNER (order_owner_key owner order_id) d
      in deleteRow TBL_INDEX_ORDERS_BY_PAIR (order_pair_row_key sell_token buy_token order_id) d)"

text \<open>
  The pools an order's conditions name, without repetition. The source collects them in an
  unordered set; the rows they lead to have different keys, so the order does not matter.
\<close>

definition condition_pools :: "order \<Rightarrow> u32 list" where
  "condition_pools o' =
     remdups (map cond_param2 (filter (\<lambda>c. cond_type c = PriceAbove \<or> cond_type c = PriceBelow
        \<or> cond_type c = VolumeBelow) (take (unat (ord_condition_count o')) (ord_conditions o'))))"

definition indexOrderPoolRows :: "order \<Rightarrow> db \<Rightarrow> db" where
  "indexOrderPoolRows o' d =
     foldl (\<lambda>d pool_id. putSentinel TBL_INDEX_ORDERS_BY_POOL (writeU32 pool_id @ writeU64 (ord_id o')) d)
       d (condition_pools o')"

definition unindexOrderPoolRows :: "order \<Rightarrow> db \<Rightarrow> db" where
  "unindexOrderPoolRows o' d =
     foldl (\<lambda>d pool_id. deleteRow TBL_INDEX_ORDERS_BY_POOL (writeU32 pool_id @ writeU64 (ord_id o')) d)
       d (condition_pools o')"

definition putOrder :: "order \<Rightarrow> db \<Rightarrow> db" where
  "putOrder o' d =
     (let d = smt_update (Keys_order (db_hash d) (ord_id o')) (Order_serializeState o') d;
          d = indexOrderRow (ord_id o') (ord_owner o') (ucast (ord_sell_token o')) (ucast (ord_buy_token o')) d
      in indexOrderPoolRows o' d)"

definition deleteOrder :: "id \<Rightarrow> db \<Rightarrow> db" where
  "deleteOrder order_id d =
     (let have_order = getOrder order_id d;
          d = smt_remove (Keys_order (db_hash d) order_id) d
      in (case have_order of
            None \<Rightarrow> d
          | Some o' \<Rightarrow>
              unindexOrderPoolRows o'
                (unindexOrderRow order_id (ord_owner o') (ucast (ord_sell_token o')) (ucast (ord_buy_token o')) d)))"

definition forEachOrder :: "(order \<Rightarrow> 's \<Rightarrow> 's) \<Rightarrow> db \<Rightarrow> 's \<Rightarrow> 's" where
  "forEachOrder fn d s =
     Txn_forEach TBL_ORDERS
       (\<lambda>key v s. if length key \<noteq> 8 then (True, s)
                  else (case Order_deserializeState v of
                          None \<Rightarrow> (True, s)
                        | Some o' \<Rightarrow> (True, fn o' s))) d s"

definition forEachOrderForOwner :: "address \<Rightarrow> (order \<Rightarrow> 's \<Rightarrow> 's) \<Rightarrow> db \<Rightarrow> 's \<Rightarrow> 's" where
  "forEachOrderForOwner owner fn d s =
     Txn_forEachWithPrefix TBL_INDEX_ORDERS_BY_OWNER owner
       (\<lambda>key v s. if length key \<noteq> 40 then (True, s)
                  else (case getOrder (readU64 (drop 32 key)) d of
                          None \<Rightarrow> (True, s)
                        | Some o' \<Rightarrow> (True, fn o' s))) d s"

definition forEachOrderForPair :: "id \<Rightarrow> id \<Rightarrow> (order \<Rightarrow> 's \<Rightarrow> 's) \<Rightarrow> db \<Rightarrow> 's \<Rightarrow> 's" where
  "forEachOrderForPair sell_token buy_token fn d s =
     Txn_forEachWithPrefix TBL_INDEX_ORDERS_BY_PAIR
       (writeU32 (ucast sell_token) @ writeU32 (ucast buy_token))
       (\<lambda>key v s. if length key \<noteq> 16 then (True, s)
                  else (case getOrder (readU64 (drop 8 key)) d of
                          None \<Rightarrow> (True, s)
                        | Some o' \<Rightarrow> (True, fn o' s))) d s"

definition forEachOrderForPool :: "id \<Rightarrow> (order \<Rightarrow> 's \<Rightarrow> 's) \<Rightarrow> db \<Rightarrow> 's \<Rightarrow> 's" where
  "forEachOrderForPool pid fn d s =
     Txn_forEachWithPrefix TBL_INDEX_ORDERS_BY_POOL (writeU32 (ucast pid))
       (\<lambda>key v s. if length key \<noteq> 12 then (True, s)
                  else (case getOrder (readU64 (drop 4 key)) d of
                          None \<Rightarrow> (True, s)
                        | Some o' \<Rightarrow> (True, fn o' s))) d s"

section \<open>The book\<close>

definition addToOrderBook :: "order \<Rightarrow> u64 \<Rightarrow> db \<Rightarrow> db" where
  "addToOrderBook o' sequence d =
     (if ord_id o' = INVALID_ID then d
      else if isFullyFilled o' then d
      else
        let pair_key = pairKey (db_hash d) (ord_sell_token o') (ord_buy_token o');
            side = sideOf o'
        in (case canonicalPrice o' of
              None \<Rightarrow> d
            | Some canonical_price \<Rightarrow>
                let key = encodeBookKey pair_key side canonical_price sequence;
                    d = putU64Row TBL_INDEX_ORDER_BOOK key (ord_id o') d
                in smt_update (Keys_orderSequence (db_hash d) (ord_id o')) (writeU64 sequence) d))"

definition removeFromOrderBook :: "order \<Rightarrow> db \<Rightarrow> db" where
  "removeFromOrderBook o' d =
     (if ord_id o' = INVALID_ID then d
      else
        let seq_key = Keys_orderSequence (db_hash d) (ord_id o')
        in (case smt_get seq_key d of
              None \<Rightarrow> d
            | Some seq_bytes \<Rightarrow>
                if length seq_bytes \<noteq> 8 then d
                else
                  let sequence = readU64 seq_bytes;
                      pair_key = pairKey (db_hash d) (ord_sell_token o') (ord_buy_token o');
                      side = sideOf o'
                  in (case canonicalPrice o' of
                        None \<Rightarrow> d
                      | Some canonical_price \<Rightarrow>
                          let key = encodeBookKey pair_key side canonical_price sequence
                          in smt_remove seq_key (deleteRow TBL_INDEX_ORDER_BOOK key d))))"

definition forEachBookLevel ::
    "id \<Rightarrow> id \<Rightarrow> u8 \<Rightarrow> (id \<Rightarrow> u64 \<Rightarrow> u64 \<Rightarrow> 's \<Rightarrow> bool \<times> 's) \<Rightarrow> db \<Rightarrow> 's \<Rightarrow> 's" where
  "forEachBookLevel sell_token buy_token side fn d s =
     (let pair_key = pairKey (db_hash d) (ucast sell_token) (ucast buy_token);
          prefix' = take 32 pair_key @ [side]
      in Txn_forEachWithPrefix TBL_INDEX_ORDER_BOOK prefix'
           (\<lambda>key v s. if length key \<noteq> 49 \<or> length v \<noteq> 8 then (True, s)
                      else (let (price, seq) = decodeBookKey key in fn (readU64 v) price seq s)) d s)"

definition nextOrderSequence :: "db \<Rightarrow> u64 \<times> db" where
  "nextOrderSequence d =
     (let n = getGlobalU64 ''order:next_sequence'' d;
          n = n + 1
      in (n, putGlobalU64 ''order:next_sequence'' n d))"

section \<open>Expiry lists\<close>

definition getOrdersExpiringAt :: "u64 \<Rightarrow> db \<Rightarrow> u64 list" where
  "getOrdersExpiringAt height d =
     (case smt_get (Keys_orderExpiry (db_hash d) height) d of
        None \<Rightarrow> []
      | Some v \<Rightarrow> (case decodeU64List v of None \<Rightarrow> [] | Some ids \<Rightarrow> ids))"

definition addOrderExpiry :: "u64 \<Rightarrow> u64 \<Rightarrow> db \<Rightarrow> db" where
  "addOrderExpiry height order_id d =
     (let ids = getOrdersExpiringAt height d
      in if order_id \<in> set ids then d
         else smt_update (Keys_orderExpiry (db_hash d) height) (encodeU64List (ids @ [order_id])) d)"

definition removeOrderExpiry :: "u64 \<Rightarrow> u64 \<Rightarrow> db \<Rightarrow> db" where
  "removeOrderExpiry height order_id d =
     (let ids = getOrdersExpiringAt height d
      in if order_id \<notin> set ids then d
         else
           let ids = remove1 order_id ids;
               key = Keys_orderExpiry (db_hash d) height
           in if ids = [] then smt_remove key d
              else smt_update key (encodeU64List ids) d)"

definition clearOrderExpiry :: "u64 \<Rightarrow> db \<Rightarrow> db" where
  "clearOrderExpiry height d = smt_remove (Keys_orderExpiry (db_hash d) height) d"

section \<open>Refunds and deletion of resting orders\<close>

definition refundOrder :: "order \<Rightarrow> bool \<Rightarrow> db \<Rightarrow> db" where
  "refundOrder o' charge_fee d =
     (if ord_id o' = INVALID_ID then d
      else if isNull (ord_owner o') then d
      else
        let remaining = remainingAmount o'
        in if remaining = 0 then d
           else
             let refund = remaining;
                 refund = (if charge_fee
                           then (if refund > ORDER_CANCEL_FEE_ATOMIC
                                 then refund - ORDER_CANCEL_FEE_ATOMIC else 0)
                           else refund);
                 d = (if ucast (ord_sell_token o') = NATIVE_TOKEN_ID
                      then (let acct = getAccount (ord_owner o') d
                            in putAccount (ord_owner o') (acct\<lparr>acct_balance := acct_balance acct + refund\<rparr>) d)
                      else (let cur = getTokenBalance (ord_owner o') (ucast (ord_sell_token o')) d
                            in putTokenBalance (ord_owner o') (ucast (ord_sell_token o')) (cur + refund) d));
                 d = (if ord_expires_at_height o' \<noteq> 0
                      then removeOrderExpiry (ord_expires_at_height o') (ord_id o') d else d);
                 d = removeFromOrderBook o' d
             in deleteOrder (ord_id o') d)"

definition deleteRestingOrder :: "order \<Rightarrow> db \<Rightarrow> db" where
  "deleteRestingOrder o' d =
     (if ord_id o' = INVALID_ID then d
      else
        let d = removeFromOrderBook o' d;
            d = (if ord_expires_at_height o' \<noteq> 0
                 then removeOrderExpiry (ord_expires_at_height o') (ord_id o') d else d)
        in deleteOrder (ord_id o') d)"

section \<open>Fill history\<close>

definition encodePairFillKey :: "hash \<Rightarrow> u64 \<Rightarrow> u32 \<Rightarrow> u16 \<Rightarrow> bytes" where
  "encodePairFillKey pair_key height tx_index fill_index =
     [0x01] @ take 32 pair_key @ writeU64BE height @ writeU32BE tx_index
       @ [ucast (drop_bit 8 fill_index), ucast fill_index]"

definition encodeOrderFillKey :: "u64 \<Rightarrow> u64 \<Rightarrow> u32 \<Rightarrow> u16 \<Rightarrow> bytes" where
  "encodeOrderFillKey order_id height tx_index fill_index =
     [0x02] @ writeU64BE order_id @ writeU64BE height @ writeU32BE tx_index
       @ [ucast (drop_bit 8 fill_index), ucast fill_index]"

definition indexFill :: "fill \<Rightarrow> u64 \<Rightarrow> u32 \<Rightarrow> u16 \<Rightarrow> db \<Rightarrow> db" where
  "indexFill f height tx_index fill_index d =
     (let b = Fill_serializeState f;
          pair_key = pairKey (db_hash d) (fill_base_token f) (fill_quote_token f);
          d = putBlobRow TBL_FILL_HISTORY (encodePairFillKey pair_key height tx_index fill_index) b d;
          d = putBlobRow TBL_FILL_HISTORY
                (encodeOrderFillKey (fill_maker_order_id f) height tx_index fill_index) b d
      in putBlobRow TBL_FILL_HISTORY
           (encodeOrderFillKey (fill_taker_order_id f) height tx_index fill_index) b d)"

text \<open>The visitor state is the number of fills emitted so far and the state of the callback.\<close>

definition forEachRecentFillForPair ::
    "u32 \<Rightarrow> u32 \<Rightarrow> nat \<Rightarrow> (fill \<Rightarrow> u64 \<Rightarrow> u32 \<Rightarrow> 's \<Rightarrow> bool \<times> 's) \<Rightarrow> db \<Rightarrow> 's \<Rightarrow> 's" where
  "forEachRecentFillForPair base_token quote_token max_results fn d s =
     (let pair_key = pairKey (db_hash d) base_token quote_token
      in snd (Txn_forEachWithPrefixReverse TBL_FILL_HISTORY ([0x01] @ take 32 pair_key)
           (\<lambda>key v (emitted, s).
              if length key \<noteq> 47 \<or> length v \<noteq> Fill_STATE_SIZE then (True, (emitted, s))
              else if emitted \<ge> max_results then (False, (emitted, s))
              else
                let height = readU64BE (drop 33 key);
                    tx_index = readU32BE (drop 41 key)
                in (case Fill_deserializeState v of
                      None \<Rightarrow> (True, (emitted, s))
                    | Some f \<Rightarrow>
                        let (go, s) = fn f height tx_index s in (go, (emitted + 1, s)))) d (0 :: nat, s)))"

definition forEachRecentFillForOrder ::
    "u64 \<Rightarrow> nat \<Rightarrow> (fill \<Rightarrow> u64 \<Rightarrow> u32 \<Rightarrow> 's \<Rightarrow> bool \<times> 's) \<Rightarrow> db \<Rightarrow> 's \<Rightarrow> 's" where
  "forEachRecentFillForOrder order_id max_results fn d s =
     snd (Txn_forEachWithPrefixReverse TBL_FILL_HISTORY ([0x02] @ writeU64BE order_id)
       (\<lambda>key v (emitted, s).
          if length key \<noteq> 23 \<or> length v \<noteq> Fill_STATE_SIZE then (True, (emitted, s))
          else if emitted \<ge> max_results then (False, (emitted, s))
          else
            let height = readU64BE (drop 9 key);
                tx_index = readU32BE (drop 17 key)
            in (case Fill_deserializeState v of
                  None \<Rightarrow> (True, (emitted, s))
                | Some f \<Rightarrow>
                    let (go, s) = fn f height tx_index s in (go, (emitted + 1, s)))) d (0 :: nat, s))"

section \<open>Depth snapshot\<close>

record book_snapshot =
  snap_price :: u64
  snap_total_base :: u64
  snap_count :: nat
  snap_emitted :: nat
  snap_have_level :: bool
  snap_keep_going :: bool

definition snapshot_flush ::
    "nat \<Rightarrow> (u64 \<Rightarrow> u64 \<Rightarrow> nat \<Rightarrow> 's \<Rightarrow> 's) \<Rightarrow> book_snapshot \<Rightarrow> 's \<Rightarrow> bool \<times> book_snapshot \<times> 's" where
  "snapshot_flush depth fn b s =
     (if \<not> snap_have_level b then (True, b, s)
      else
        let s = fn (snap_price b) (snap_total_base b) (snap_count b) s;
            b = b\<lparr>snap_emitted := snap_emitted b + 1, snap_have_level := False,
                  snap_total_base := 0, snap_count := 0\<rparr>
        in (depth = 0 \<or> snap_emitted b < depth, b, s))"

definition snapshot_level ::
    "nat \<Rightarrow> (u64 \<Rightarrow> u64 \<Rightarrow> nat \<Rightarrow> 's \<Rightarrow> 's) \<Rightarrow> db \<Rightarrow> id \<Rightarrow> u64 \<Rightarrow> u64 \<Rightarrow> book_snapshot \<times> 's
     \<Rightarrow> bool \<times> book_snapshot \<times> 's" where
  "snapshot_level depth fn d order_id price sequence = (\<lambda>(b, s).
     if \<not> snap_keep_going b then (False, b, s)
     else
       let (keep_going, b, s) =
             (if snap_have_level b \<and> price \<noteq> snap_price b then snapshot_flush depth fn b s
              else (True, b, s));
           b = b\<lparr>snap_keep_going := keep_going\<rparr>
       in if \<not> keep_going then (False, b, s)
          else
            (case getOrder order_id d of
               None \<Rightarrow> (True, b, s)
             | Some o' \<Rightarrow>
                 let sells_base = (ord_sell_token o' < ord_buy_token o');
                     rem = remainingAmount o';
                     rem = (if \<not> sells_base
                            then ucast ((ucast rem :: u128) * ucast BOOK_PRICE_SCALE div ucast price)
                            else rem)
                 in (True, b\<lparr>snap_price := price, snap_total_base := snap_total_base b + rem,
                              snap_count := snap_count b + 1, snap_have_level := True\<rparr>, s)))"

definition snapshotBookSide ::
    "id \<Rightarrow> id \<Rightarrow> u8 \<Rightarrow> nat \<Rightarrow> (u64 \<Rightarrow> u64 \<Rightarrow> nat \<Rightarrow> 's \<Rightarrow> 's) \<Rightarrow> db \<Rightarrow> 's \<Rightarrow> 's" where
  "snapshotBookSide sell_token buy_token side depth fn d s =
     (let b0 = \<lparr>snap_price = 0, snap_total_base = 0, snap_count = 0, snap_emitted = 0,
                snap_have_level = False, snap_keep_going = True\<rparr>;
          (b, s) = forEachBookLevel sell_token buy_token side (snapshot_level depth fn d) d (b0, s)
      in if snap_keep_going b then (let (_, _, s) = snapshot_flush depth fn b s in s) else s)"

section \<open>Identifier lists are read back\<close>

lemma encodeU64List_eq:
  "encodeU64List ids = writeU32 (of_nat (length ids)) @ concat (map writeU64 ids)"
proof -
  have "foldl (\<lambda>out i. out @ writeU64 i) out ids = out @ concat (map writeU64 ids)" for out
    by (induction ids arbitrary: out) auto
  then show ?thesis by (simp add: encodeU64List_def Let_def writeU32_def writeU64_def)
qed

lemma drop_concat_writeU64:
  "i < length ids \<Longrightarrow> readU64 (drop (i * 8) (concat (map writeU64 ids))) = ids ! i"
proof (induction ids arbitrary: i)
  case (Cons x ids)
  show ?case
  proof (cases i)
    case 0
    then show ?thesis by (simp add: codec_simps)
  next
    case (Suc j)
    then have "drop (i * 8) (concat (map writeU64 (x # ids))) = drop (j * 8) (concat (map writeU64 ids))"
      by (simp add: drop_append)
    with Suc Cons show ?thesis by simp
  qed
qed simp

lemma length_concat_writeU64: "length (concat (map writeU64 ids)) = length ids * 8"
  by (induction ids) auto

definition U64List_wf :: "u64 list \<Rightarrow> bool" where
  "U64List_wf ids \<longleftrightarrow> length ids < 4294967296"

lemma U64List_codec: "U64List_wf ids \<Longrightarrow> decodeU64List (encodeU64List ids) = Some ids"
proof -
  assume "U64List_wf ids"
  then have n: "unat (of_nat (length ids) :: u32) = length ids"
    by (simp add: U64List_wf_def unat_of_nat)
  have "map (\<lambda>i. readU64 (drop (4 + i * 8) (encodeU64List ids))) [0..<length ids] = ids"
    by (rule nth_equalityI) (simp_all add: encodeU64List_eq drop_concat_writeU64)
  with n show ?thesis
    by (simp add: decodeU64List_def Let_def encodeU64List_eq codec_simps length_concat_writeU64)
qed

interpretation idlist_codec: state_codec encodeU64List decodeU64List U64List_wf
  by unfold_locales (rule U64List_codec)

section \<open>Frame laws\<close>

lemma foldl_rows_frame [simp]:
  "smt_get k (foldl (\<lambda>d x. putSentinel t (f x) d) d xs) = smt_get k d"
  "smt_get k (foldl (\<lambda>d x. deleteRow t (f x) d) d xs) = smt_get k d"
  "db_hash (foldl (\<lambda>d x. putSentinel t (f x) d) d xs) = db_hash d"
  "db_hash (foldl (\<lambda>d x. deleteRow t (f x) d) d xs) = db_hash d"
  "db_version (foldl (\<lambda>d x. putSentinel t (f x) d) d xs) = db_version d"
  "db_version (foldl (\<lambda>d x. deleteRow t (f x) d) d xs) = db_version d"
  "db_ok d \<Longrightarrow> db_ok (foldl (\<lambda>d x. putSentinel t (f x) d) d xs)"
  "db_ok d \<Longrightarrow> db_ok (foldl (\<lambda>d x. deleteRow t (f x) d) d xs)"
  "tableName t' \<noteq> tableName t \<Longrightarrow> tab t' (foldl (\<lambda>d x. putSentinel t (f x) d) d xs) = tab t' d"
  "tableName t' \<noteq> tableName t \<Longrightarrow> tab t' (foldl (\<lambda>d x. deleteRow t (f x) d) d xs) = tab t' d"
  by (induction xs arbitrary: d) simp_all

lemma order_rows_frame [simp]:
  "smt_get k (indexOrderRow i a s b d) = smt_get k d"
  "smt_get k (unindexOrderRow i a s b d) = smt_get k d"
  "smt_get k (indexOrderPoolRows o' d) = smt_get k d"
  "smt_get k (unindexOrderPoolRows o' d) = smt_get k d"
  "db_hash (indexOrderRow i a s b d) = db_hash d" "db_version (indexOrderRow i a s b d) = db_version d"
  "db_hash (unindexOrderRow i a s b d) = db_hash d" "db_version (unindexOrderRow i a s b d) = db_version d"
  "db_hash (indexOrderPoolRows o' d) = db_hash d" "db_version (indexOrderPoolRows o' d) = db_version d"
  "db_hash (unindexOrderPoolRows o' d) = db_hash d" "db_version (unindexOrderPoolRows o' d) = db_version d"
  "db_ok d \<Longrightarrow> db_ok (indexOrderRow i a s b d)" "db_ok d \<Longrightarrow> db_ok (unindexOrderRow i a s b d)"
  "db_ok d \<Longrightarrow> db_ok (indexOrderPoolRows o' d)" "db_ok d \<Longrightarrow> db_ok (unindexOrderPoolRows o' d)"
  by (simp_all add: indexOrderRow_def unindexOrderRow_def indexOrderPoolRows_def
      unindexOrderPoolRows_def Let_def split: option.splits)

lemma putOrder_smt:
  "smt_get k (putOrder o' d) = (if k = skey_of (db_hash d) (KOrder (ord_id o'))
     then Some (Order_serializeState o') else smt_get k d)"
  by (simp add: putOrder_def Let_def Keys_skey)

lemma deleteOrder_smt:
  "smt_get k (deleteOrder i d) = (if k = skey_of (db_hash d) (KOrder i) then None else smt_get k d)"
  by (simp add: deleteOrder_def Let_def Keys_skey split: option.splits)

lemma order_ops_fields [simp]:
  "db_hash (putOrder o' d) = db_hash d" "db_version (putOrder o' d) = db_version d"
  "db_hash (deleteOrder i d) = db_hash d" "db_version (deleteOrder i d) = db_version d"
  "db_ok d \<Longrightarrow> db_ok (putOrder o' d)" "db_ok d \<Longrightarrow> db_ok (deleteOrder i d)"
  by (simp_all add: putOrder_def deleteOrder_def Let_def split: option.splits)

lemma getOrder_smt:
  "getOrder i d = (case smt_get (skey_of (db_hash d) (KOrder i)) d of None \<Rightarrow> None | Some v \<Rightarrow> Order_deserializeState v)"
  by (simp add: getOrder_def smt_typed_alt Keys_skey)

lemma getOrder_putOrder:
  assumes "keys_ok K d" "{KOrder i, KOrder (ord_id o')} \<subseteq> K" "Order_wf o'"
  shows "getOrder i (putOrder o' d) = (if i = ord_id o' then Some o' else getOrder i d)"
  using assms keys_eq [OF assms(1), of "KOrder i" "KOrder (ord_id o')"]
  by (simp add: getOrder_smt putOrder_smt Order_codec)

lemma getOrder_deleteOrder:
  assumes "keys_ok K d" "{KOrder i, KOrder j} \<subseteq> K"
  shows "getOrder i (deleteOrder j d) = (if i = j then None else getOrder i d)"
  using assms keys_eq [OF assms(1), of "KOrder i" "KOrder j"]
  by (simp add: getOrder_smt deleteOrder_smt)

lemma book_tab_frame [simp]:
  "tab TBL_INDEX_ORDER_BOOK (putOrder o' d) = tab TBL_INDEX_ORDER_BOOK d"
  "tab TBL_INDEX_ORDER_BOOK (deleteOrder i d) = tab TBL_INDEX_ORDER_BOOK d"
  by (simp_all add: putOrder_def deleteOrder_def Let_def indexOrderRow_def unindexOrderRow_def
      indexOrderPoolRows_def unindexOrderPoolRows_def split: option.splits)

section \<open>Placing and removing\<close>

lemma rows_del_put: "k \<notin> fst ` set t \<Longrightarrow> rows_del k (rows_put k v t) = t"
  by (induction k v t rule: rows_put.induct) auto

definition bookable :: "order \<Rightarrow> bool" where
  "bookable o' \<longleftrightarrow> ord_id o' \<noteq> INVALID_ID \<and> \<not> isFullyFilled o' \<and> canonicalPrice o' \<noteq> None"

definition book_key :: "(bytes \<Rightarrow> bytes) \<Rightarrow> order \<Rightarrow> u64 \<Rightarrow> bytes" where
  "book_key H o' sequence = encodeBookKey (pairKey H (ord_sell_token o') (ord_buy_token o')) (sideOf o')
     (the (canonicalPrice o')) sequence"

lemma addToOrderBook_eq:
  "addToOrderBook o' s d =
     (if bookable o'
      then smt_update (skey_of (db_hash d) (KOrderSequence (ord_id o'))) (writeU64 s)
             (putU64Row TBL_INDEX_ORDER_BOOK (book_key (db_hash d) o' s) (ord_id o') d)
      else d)"
  by (auto simp: addToOrderBook_def bookable_def book_key_def Let_def Keys_skey split: option.splits)

lemma removeFromOrderBook_eq:
  "removeFromOrderBook o' d =
     (case smt_get (skey_of (db_hash d) (KOrderSequence (ord_id o'))) d of
        None \<Rightarrow> d
      | Some b \<Rightarrow>
          if ord_id o' = INVALID_ID \<or> length b \<noteq> 8 \<or> canonicalPrice o' = None then d
          else smt_remove (skey_of (db_hash d) (KOrderSequence (ord_id o')))
                 (deleteRow TBL_INDEX_ORDER_BOOK (book_key (db_hash d) o' (readU64 b)) d))"
  by (auto simp: removeFromOrderBook_def book_key_def Let_def Keys_skey split: option.splits)

lemma book_ops_fields [simp]:
  "db_hash (addToOrderBook o' s d) = db_hash d" "db_version (addToOrderBook o' s d) = db_version d"
  "db_hash (removeFromOrderBook o' d) = db_hash d" "db_version (removeFromOrderBook o' d) = db_version d"
  "db_ok d \<Longrightarrow> db_ok (addToOrderBook o' s d)" "db_ok d \<Longrightarrow> db_ok (removeFromOrderBook o' d)"
  by (simp_all add: addToOrderBook_eq removeFromOrderBook_eq split: option.splits)

lemma addToOrderBook_smt:
  "smt_get k (addToOrderBook o' s d) =
     (if bookable o' \<and> k = skey_of (db_hash d) (KOrderSequence (ord_id o')) then Some (writeU64 s) else smt_get k d)"
  by (simp add: addToOrderBook_eq)

lemma removeFromOrderBook_smt:
  "k \<noteq> skey_of (db_hash d) (KOrderSequence (ord_id o')) \<Longrightarrow> smt_get k (removeFromOrderBook o' d) = smt_get k d"
  by (simp add: removeFromOrderBook_eq split: option.splits)

text \<open>Removing a placed order restores the book and clears the sequence entry.\<close>

lemma remove_after_add:
  assumes "bookable o'"
    and "Txn_get TBL_INDEX_ORDER_BOOK (book_key (db_hash d) o' s) d = None"
  shows "tab TBL_INDEX_ORDER_BOOK (removeFromOrderBook o' (addToOrderBook o' s d)) = tab TBL_INDEX_ORDER_BOOK d"
    and "smt_get (skey_of (db_hash d) (KOrderSequence (ord_id o'))) (removeFromOrderBook o' (addToOrderBook o' s d)) = None"
proof -
  have "book_key (db_hash d) o' s \<notin> fst ` set (tab TBL_INDEX_ORDER_BOOK d)"
    using assms(2) by (simp add: Txn_get_def tab_def rows_get_None)
  then show "tab TBL_INDEX_ORDER_BOOK (removeFromOrderBook o' (addToOrderBook o' s d)) = tab TBL_INDEX_ORDER_BOOK d"
    using assms(1)
    by (simp add: removeFromOrderBook_eq addToOrderBook_smt)
      (auto simp: addToOrderBook_eq bookable_def codec_simps rows_del_put)
  show "smt_get (skey_of (db_hash d) (KOrderSequence (ord_id o'))) (removeFromOrderBook o' (addToOrderBook o' s d)) = None"
    using assms(1)
    by (simp add: removeFromOrderBook_eq addToOrderBook_smt) (auto simp: bookable_def)
qed

section \<open>Iteration order of the book\<close>

lemma encode_decodeBookKey:
  assumes "length key = 49" "length pk = 32" "has_prefix (pk @ [side]) (key, v)"
  shows "encodeBookKey pk side (fst (decodeBookKey key)) (snd (decodeBookKey key)) = key"
proof -
  obtain z where key: "key = pk @ [side] @ z" using assms(3) by (auto simp: has_prefix_iff prefix_def)
  then have z: "length z = 16" using assms(1,2) by simp
  have split: "take 8 z @ drop 8 z = z" by simp
  show ?thesis using assms(2) z split unfolding key
    by (simp add: encodeBookKey_def decodeBookKey_def Let_def nth_append writeU64BE_readU64BE)
qed

definition book_entries :: "id \<Rightarrow> id \<Rightarrow> u8 \<Rightarrow> db \<Rightarrow> (id \<times> u64 \<times> u64) list" where
  "book_entries sell_token buy_token side d =
     forEachBookLevel sell_token buy_token side (\<lambda>i p s acc. (True, acc @ [(i, p, s)])) d []"

definition book_rows :: "id \<Rightarrow> id \<Rightarrow> u8 \<Rightarrow> db \<Rightarrow> rows" where
  "book_rows sell_token buy_token side d =
     filter (\<lambda>r. has_prefix (take 32 (pairKey (db_hash d) (ucast sell_token) (ucast buy_token)) @ [side]) r
                 \<and> length (fst r) = 49 \<and> length (snd r) = 8) (tab TBL_INDEX_ORDER_BOOK d)"

definition book_entry :: "row \<Rightarrow> id \<times> u64 \<times> u64" where
  "book_entry r = (readU64 (snd r), decodeBookKey (fst r))"

lemma forEachBookLevel_rows:
  assumes "db_ok d"
  shows "forEachBookLevel sell buy side fn d s =
    visit (\<lambda>k v s. let (i, p, q) = book_entry (k, v) in fn i p q s) (book_rows sell buy side d) s"
proof -
  let ?p = "take 32 (pairKey (db_hash d) (ucast sell) (ucast buy)) @ [side]"
  have "visit (\<lambda>key v s. if length key \<noteq> 49 \<or> length v \<noteq> 8 then (True, s)
            else (let (price, seq) = decodeBookKey key in fn (readU64 v) price seq s)) t s
      = visit (\<lambda>k v s. let (i, p, q) = book_entry (k, v) in fn i p q s)
          (filter (\<lambda>r. length (fst r) = 49 \<and> length (snd r) = 8) t) s" for t s
  proof (induction t arbitrary: s)
    case (Cons r t)
    then show ?case
      by (cases r; cases "length (fst r) = 49 \<and> length (snd r) = 8")
        (auto simp: book_entry_def Let_def split: prod.splits)
  qed simp
  then show ?thesis
    using scan_prefix_filter [OF rows_ok_tab [OF assms], of ?p TBL_INDEX_ORDER_BOOK]
    by (simp add: forEachBookLevel_def Let_def Txn_forEachWithPrefix_def book_rows_def filter_filter conj_commute)
qed

lemma book_entries_rows: "db_ok d \<Longrightarrow> book_entries sell buy side d = map book_entry (book_rows sell buy side d)"
proof -
  assume "db_ok d"
  have "visit (\<lambda>k v s. let (i, p, q) = book_entry (k, v) in (True, s @ [(i, p, q)])) t acc = acc @ map book_entry t"
    for t acc by (induction t arbitrary: acc) (auto simp: book_entry_def split: prod.splits)
  then show ?thesis by (simp only: book_entries_def forEachBookLevel_rows [OF \<open>db_ok d\<close>]) simp
qed

lemma sorted_map_filter_book:
  assumes "length pk = 32" "rows_ok t"
    and "\<forall>r \<in> set t. has_prefix (pk @ [side]) r \<and> length (fst r) = 49"
  shows "sorted_wrt (\<lambda>r r'. book_before side (decodeBookKey (fst r)) (decodeBookKey (fst r'))) t"
  using assms(2,3)
proof (induction t)
  case (Cons r t)
  have "book_before side (decodeBookKey (fst r)) (decodeBookKey (fst r'))" if "r' \<in> set t" for r'
  proof -
    have "fst r < fst r'" using Cons.prems(1) that by (cases r; cases r') (auto simp: rows_ok_Cons)
    moreover have "encodeBookKey pk side (fst (decodeBookKey (fst q))) (snd (decodeBookKey (fst q))) = fst q"
      if "q \<in> set (r # t)" for q
      using that Cons.prems(2) assms(1) by (intro encode_decodeBookKey [of _ _ _ "snd q"]) auto
    ultimately show ?thesis
      using encodeBookKey_less [of pk side "fst (decodeBookKey (fst r))" "snd (decodeBookKey (fst r))"
          "fst (decodeBookKey (fst r'))" "snd (decodeBookKey (fst r'))"] that by simp
  qed
  with Cons show ?case by (cases r) (simp add: rows_ok_Cons)
qed simp

end
