(* ===== verification/Ledger.thy ===== *)
theory Ledger
  imports State_Orders
begin

text \<open>
  Balances and locks as one ledger: the entries of the state tree behind balances, accounts and
  orders, what each state operation does to them, and the wealth of a token: the spendable
  balances of a set of addresses plus what the open orders of a set of identifiers hold locked.
\<close>

section \<open>Entries of the state tree\<close>

definition leaf :: "skey \<Rightarrow> db \<Rightarrow> bytes option" where
  "leaf k d = smt_get (skey_of (db_hash d) k) d"

text \<open>The names of the global values the program keeps.\<close>

definition global_names :: "string set" where
  "global_names = {''total_staked'', ''staker_count'', ''order:next_sequence'', ''pot'', ''epoch_number'',
     ''total_supply'', ''next_token_id'', ''next_order_id'', ''next_validator_id'', ''next_pool_id'',
     ''next_position_id'', ''next_collection_id'', ''active_set'', ''active_set_size'',
     ''last_rotation_height'', ''apy_activity_bps'', ''apy_pot_bps''}"

text \<open>
  The objects of the addresses \<open>A\<close> and the orders \<open>I\<close>, with every object that is named by a number
  or by the program itself.
\<close>

definition ledger_keys :: "address set \<Rightarrow> id set \<Rightarrow> skey set" where
  "ledger_keys A I = {k. case k of
       KAccount a \<Rightarrow> a \<in> A | KTokenBalance a t \<Rightarrow> a \<in> A | KValidatorByAddress a \<Rightarrow> a \<in> A
     | KAmmPositionIndex a n \<Rightarrow> a \<in> A | KOrder i \<Rightarrow> i \<in> I | KOrderSequence i \<Rightarrow> i \<in> I
     | KReceipt h \<Rightarrow> False | KGlobal s \<Rightarrow> s \<in> global_names | _ \<Rightarrow> True}"

lemma ledger_keys_mem [simp]:
  "KAccount a \<in> ledger_keys A I \<longleftrightarrow> a \<in> A" "KTokenBalance a t \<in> ledger_keys A I \<longleftrightarrow> a \<in> A"
  "KOrder i \<in> ledger_keys A I \<longleftrightarrow> i \<in> I" "KOrderSequence i \<in> ledger_keys A I \<longleftrightarrow> i \<in> I"
  "KOrderExpiry h \<in> ledger_keys A I" "KAmmPool n \<in> ledger_keys A I"
  "KGlobal s \<in> ledger_keys A I \<longleftrightarrow> s \<in> global_names"
  by (simp_all add: ledger_keys_def)

lemma global_names_mem [simp]:
  "''total_staked'' \<in> global_names" "''staker_count'' \<in> global_names" "''order:next_sequence'' \<in> global_names"
  by (simp_all add: global_names_def)

lemma ledger_keys_wf: "k \<in> ledger_keys A I \<Longrightarrow> key_wf k"
  by (cases k) (auto simp: ledger_keys_def key_wf_def global_names_def)

section \<open>What the operations write\<close>

lemma leaf_putOrder:
  assumes "keys_ok K d" "k \<in> K" "KOrder (ord_id o') \<in> K"
  shows "leaf k (putOrder o' d) = (if k = KOrder (ord_id o') then Some (Order_serializeState o') else leaf k d)"
  using assms by (simp add: leaf_def putOrder_smt keys_eq)

lemma leaf_deleteOrder:
  assumes "keys_ok K d" "k \<in> K" "KOrder i \<in> K"
  shows "leaf k (deleteOrder i d) = (if k = KOrder i then None else leaf k d)"
  using assms by (simp add: leaf_def deleteOrder_smt keys_eq)

lemma leaf_removeFromOrderBook:
  assumes "keys_ok K d" "k \<in> K" "KOrderSequence (ord_id o') \<in> K" "k \<noteq> KOrderSequence (ord_id o')"
  shows "leaf k (removeFromOrderBook o' d) = leaf k d"
  using assms by (simp add: leaf_def removeFromOrderBook_smt keys_eq)

lemma leaf_addToOrderBook:
  assumes "keys_ok K d" "k \<in> K" "KOrderSequence (ord_id o') \<in> K" "k \<noteq> KOrderSequence (ord_id o')"
  shows "leaf k (addToOrderBook o' s d) = leaf k d"
  using assms by (simp add: leaf_def addToOrderBook_smt keys_eq)

lemma expiry_fields [simp]:
  "db_hash (removeOrderExpiry h i d) = db_hash d" "db_hash (addOrderExpiry h i d) = db_hash d"
  "db_ok d \<Longrightarrow> db_ok (removeOrderExpiry h i d)" "db_ok d \<Longrightarrow> db_ok (addOrderExpiry h i d)"
  by (simp_all add: removeOrderExpiry_def addOrderExpiry_def Let_def)

lemma leaf_removeOrderExpiry:
  assumes "keys_ok K d" "k \<in> K" "KOrderExpiry h \<in> K" "k \<noteq> KOrderExpiry h"
  shows "leaf k (removeOrderExpiry h i d) = leaf k d"
  using assms by (simp add: leaf_def removeOrderExpiry_def Let_def Keys_skey keys_eq)

lemma leaf_addOrderExpiry:
  assumes "keys_ok K d" "k \<in> K" "KOrderExpiry h \<in> K" "k \<noteq> KOrderExpiry h"
  shows "leaf k (addOrderExpiry h i d) = leaf k d"
  using assms by (simp add: leaf_def addOrderExpiry_def Let_def Keys_skey keys_eq)

lemma leaf_putGlobalU64:
  assumes "keys_ok K d" "k \<in> K" "KGlobal n \<in> K"
  shows "leaf k (putGlobalU64 n v d) = (if k = KGlobal n then Some (writeU64 v) else leaf k d)"
  using assms by (simp add: leaf_def putGlobalU64_def putGlobal_def Keys_skey keys_eq)

lemma leaf_putAccount:
  assumes "keys_ok K d" "k \<in> K" "{KAccount a, KGlobal ''total_staked'', KGlobal ''staker_count''} \<subseteq> K"
    and "k \<noteq> KGlobal ''total_staked''" "k \<noteq> KGlobal ''staker_count''"
  shows "leaf k (putAccount a x d) =
    (if k = KAccount a then Some (Account_serializeState (stored_account a x d)) else leaf k d)"
  using assms by (simp add: leaf_def putAccount_smt)

lemma putTokenBalance_fields [simp]:
  "db_hash (putTokenBalance a t v d) = db_hash d" "db_version (putTokenBalance a t v d) = db_version d"
  "db_ok d \<Longrightarrow> db_ok (putTokenBalance a t v d)"
  by (simp_all add: putTokenBalance_def Let_def)

lemma leaf_putTokenBalance:
  assumes "keys_ok K d" "k \<in> K" "KTokenBalance a (ucast t) \<in> K"
  shows "leaf k (putTokenBalance a t v d) =
    (if k = KTokenBalance a (ucast t) then (if v = 0 then None else Some (writeU64 v)) else leaf k d)"
  using assms by (simp add: leaf_def putTokenBalance_def Let_def Keys_skey keys_eq)

lemma indexFill_frame [simp]:
  "leaf k (indexFill f h i j d) = leaf k d" "db_hash (indexFill f h i j d) = db_hash d"
  "db_ok d \<Longrightarrow> db_ok (indexFill f h i j d)"
  by (simp_all add: leaf_def indexFill_def Let_def)

section \<open>Balances, locks and wealth\<close>

definition bal :: "address \<Rightarrow> u32 \<Rightarrow> db \<Rightarrow> nat" where
  "bal a t d = (if ucast t = NATIVE_TOKEN_ID then unat (acct_balance (getAccount a d))
                else unat (getTokenBalance a (ucast t) d))"

definition lock_of :: "u32 \<Rightarrow> order option \<Rightarrow> nat" where
  "lock_of t x = (case x of None \<Rightarrow> 0
     | Some o' \<Rightarrow> if ord_sell_token o' = t then unat (remainingAmount o') else 0)"

definition total_bal :: "address set \<Rightarrow> u32 \<Rightarrow> db \<Rightarrow> nat" where
  "total_bal A t d = (\<Sum>a \<in> A. bal a t d)"

definition total_locked :: "id set \<Rightarrow> u32 \<Rightarrow> db \<Rightarrow> nat" where
  "total_locked I t d = (\<Sum>i \<in> I. lock_of t (getOrder i d))"

definition wealth :: "address set \<Rightarrow> id set \<Rightarrow> u32 \<Rightarrow> db \<Rightarrow> nat" where
  "wealth A I t d = total_bal A t d + total_locked I t d"

lemma ucast_ucast_u32 [simp]: "(ucast (ucast (t :: u32) :: u64) :: u32) = t"
  by (rule bit_word_eqI) (auto simp: bit_simps)

lemma bal_leaf: "bal a t d = (if ucast t = NATIVE_TOKEN_ID then unat (acct_balance (decode_account (leaf (KAccount a) d)))
    else unat (decode_u64 (leaf (KTokenBalance a t) d)))"
  by (simp add: bal_def leaf_def getAccount_smt getTokenBalance_smt)

lemma getOrder_leaf:
  "getOrder i d = (case leaf (KOrder i) d of None \<Rightarrow> None | Some v \<Rightarrow> Order_deserializeState v)"
  by (simp add: getOrder_smt leaf_def)


lemma wealth_cong:
  assumes "\<And>a. a \<in> A \<Longrightarrow> bal a t d' = bal a t d" "\<And>i. i \<in> I \<Longrightarrow> getOrder i d' = getOrder i d"
  shows "total_bal A t d' = total_bal A t d" "total_locked I t d' = total_locked I t d"
  unfolding total_bal_def total_locked_def using assms by (simp_all cong: sum.cong)

lemma bal_le_total: "finite A \<Longrightarrow> a \<in> A \<Longrightarrow> bal a t d \<le> total_bal A t d"
  unfolding total_bal_def by (rule member_le_sum) simp_all

lemma lock_le_total: "finite I \<Longrightarrow> i \<in> I \<Longrightarrow> lock_of t (getOrder i d) \<le> total_locked I t d"
  unfolding total_locked_def by (rule member_le_sum [where f = "\<lambda>i. lock_of t (getOrder i d)"]) simp_all

text \<open>Adding to a balance, native or token, as the code spells it out in several places.\<close>

definition add_balance :: "address \<Rightarrow> u32 \<Rightarrow> u64 \<Rightarrow> db \<Rightarrow> db" where
  "add_balance a t x d =
     (if ucast t = NATIVE_TOKEN_ID
      then (let acct = getAccount a d in putAccount a (acct\<lparr>acct_balance := acct_balance acct + x\<rparr>) d)
      else (let cur = getTokenBalance a (ucast t) d in putTokenBalance a (ucast t) (cur + x) d))"

lemma add_balance_fields [simp]:
  "db_hash (add_balance a t x d) = db_hash d" "db_ok d \<Longrightarrow> db_ok (add_balance a t x d)"
  by (simp_all add: add_balance_def Let_def)

lemma decode_u64_opt [simp]: "decode_u64 (if v = 0 then None else Some (writeU64 v)) = v"
  by simp

lemma add_balance_bal:
  assumes "keys_ok (ledger_keys A I) d" "a \<in> A" "b \<in> A" "bal a t d + unat x < 2 ^ 64"
  shows "bal b t' (add_balance a t x d) = bal b t' d + (if b = a \<and> t' = t then unat x else 0)"
proof (cases "ucast t = NATIVE_TOKEN_ID")
  case True
  have inj: "ucast t' = NATIVE_TOKEN_ID \<longleftrightarrow> t' = t"
    using True by (metis ucast_ucast_u32)
  show ?thesis
    using assms True inj
    by (auto simp: add_balance_def Let_def bal_leaf leaf_putAccount unat_add_no_overflow getAccount_smt leaf_def [symmetric])
next
  case False
  then show ?thesis
    using assms
    by (auto simp: add_balance_def Let_def bal_leaf leaf_putTokenBalance unat_add_no_overflow
        getTokenBalance_smt leaf_def [symmetric])
qed

lemma add_balance_order:
  assumes "keys_ok (ledger_keys A I) d" "a \<in> A" "i \<in> I"
  shows "getOrder i (add_balance a t x d) = getOrder i d"
  using assms by (simp add: add_balance_def Let_def getOrder_leaf leaf_putAccount leaf_putTokenBalance)


text \<open>A transfer into an account, and the order operations, seen from the totals.\<close>

lemma sum_add_one:
  fixes f g :: "'a \<Rightarrow> nat"
  assumes "finite A" "a \<in> A" "\<And>b. b \<in> A \<Longrightarrow> g b = f b + (if b = a then c else 0)"
  shows "sum g A = sum f A + c"
  using sum_update_one [of A a g f] assms by simp

lemma add_balance_total:
  assumes "keys_ok (ledger_keys A I) d" "finite A" "a \<in> A" "bal a t d + unat x < 2 ^ 64"
  shows "total_bal A t' (add_balance a t x d) = total_bal A t' d + (if t' = t then unat x else 0)"
    and "total_locked I t' (add_balance a t x d) = total_locked I t' d"
proof -
  show "total_bal A t' (add_balance a t x d) = total_bal A t' d + (if t' = t then unat x else 0)"
    unfolding total_bal_def using assms
    by (intro sum_add_one [where a = a]) (auto simp: add_balance_bal)
  show "total_locked I t' (add_balance a t x d) = total_locked I t' d"
    using assms by (intro wealth_cong(2)) (auto simp: add_balance_order)
qed

lemma keys_ok_cong: "keys_ok K d \<Longrightarrow> db_hash d' = db_hash d \<Longrightarrow> db_ok d' \<Longrightarrow> keys_ok K d'"
  by (simp add: keys_ok_def)

lemma ledger_keys_ok [simp]:
  assumes "keys_ok K d"
  shows "keys_ok K (add_balance a t x d)" "keys_ok K (putOrder o' d)" "keys_ok K (deleteOrder i d)"
    "keys_ok K (removeFromOrderBook o' d)" "keys_ok K (addToOrderBook o' s d)"
    "keys_ok K (removeOrderExpiry h i d)" "keys_ok K (addOrderExpiry h i d)"
    "keys_ok K (putTokenBalance a t' v d)" "keys_ok K (putGlobalU64 n v d)" "keys_ok K (indexFill f h i' j d)"
  using assms keys_okD [OF assms] by (auto intro: keys_ok_cong)

lemma order_ops_bal:
  assumes "keys_ok (ledger_keys A I) d" "a \<in> A"
  shows "ord_id o' \<in> I \<Longrightarrow> bal a t (putOrder o' d) = bal a t d"
    "i \<in> I \<Longrightarrow> bal a t (deleteOrder i d) = bal a t d"
    "ord_id o' \<in> I \<Longrightarrow> bal a t (removeFromOrderBook o' d) = bal a t d"
    "ord_id o' \<in> I \<Longrightarrow> bal a t (addToOrderBook o' s d) = bal a t d"
    "bal a t (removeOrderExpiry h j d) = bal a t d"
    "bal a t (addOrderExpiry h j d) = bal a t d"
    "n \<in> global_names \<Longrightarrow> bal a t (putGlobalU64 n v d) = bal a t d"
    "bal a t (indexFill f h n' m d) = bal a t d"
  using assms by (simp_all add: bal_leaf leaf_putOrder leaf_deleteOrder leaf_removeFromOrderBook
      leaf_addToOrderBook leaf_removeOrderExpiry leaf_addOrderExpiry leaf_putGlobalU64)

lemma book_ops_order:
  assumes "keys_ok (ledger_keys A I) d" "i \<in> I"
  shows "ord_id o' \<in> I \<Longrightarrow> getOrder i (removeFromOrderBook o' d) = getOrder i d"
    "ord_id o' \<in> I \<Longrightarrow> getOrder i (addToOrderBook o' s d) = getOrder i d"
    "getOrder i (removeOrderExpiry h j d) = getOrder i d"
    "getOrder i (addOrderExpiry h j d) = getOrder i d"
    "n \<in> global_names \<Longrightarrow> getOrder i (putGlobalU64 n v d) = getOrder i d"
    "getOrder i (indexFill f h n' m d) = getOrder i d"
  using assms by (simp_all add: getOrder_leaf leaf_removeFromOrderBook
      leaf_addToOrderBook leaf_removeOrderExpiry leaf_addOrderExpiry leaf_putGlobalU64)

lemma order_record_ops:
  assumes "keys_ok (ledger_keys A I) d" "i \<in> I"
  shows "Order_wf o' \<Longrightarrow> ord_id o' \<in> I \<Longrightarrow>
      getOrder i (putOrder o' d) = (if i = ord_id o' then Some o' else getOrder i d)"
    "j \<in> I \<Longrightarrow> getOrder i (deleteOrder j d) = (if i = j then None else getOrder i d)"
  using assms by (simp_all add: getOrder_putOrder getOrder_deleteOrder)

lemma order_ops_totals:
  assumes "keys_ok (ledger_keys A I) d" "J \<subseteq> I"
  shows "ord_id o' \<in> I \<Longrightarrow> total_bal A t (putOrder o' d) = total_bal A t d"
    "i \<in> I \<Longrightarrow> total_bal A t (deleteOrder i d) = total_bal A t d"
    "ord_id o' \<in> I \<Longrightarrow> total_bal A t (removeFromOrderBook o' d) = total_bal A t d"
    "ord_id o' \<in> I \<Longrightarrow> total_bal A t (addToOrderBook o' s d) = total_bal A t d"
    "total_bal A t (removeOrderExpiry h j d) = total_bal A t d"
    "total_bal A t (addOrderExpiry h j d) = total_bal A t d"
    "n \<in> global_names \<Longrightarrow> total_bal A t (putGlobalU64 n v d) = total_bal A t d"
    "total_bal A t (indexFill f h n' m d) = total_bal A t d"
    "ord_id o' \<in> I \<Longrightarrow> total_locked J t (removeFromOrderBook o' d) = total_locked J t d"
    "ord_id o' \<in> I \<Longrightarrow> total_locked J t (addToOrderBook o' s d) = total_locked J t d"
    "total_locked J t (removeOrderExpiry h j d) = total_locked J t d"
    "total_locked J t (addOrderExpiry h j d) = total_locked J t d"
    "n \<in> global_names \<Longrightarrow> total_locked J t (putGlobalU64 n v d) = total_locked J t d"
    "total_locked J t (indexFill f h n' m d) = total_locked J t d"
  unfolding total_bal_def total_locked_def
  using assms by (auto simp: order_ops_bal book_ops_order subset_iff intro!: sum.cong)

lemma order_record_totals:
  assumes "keys_ok (ledger_keys A I) d" "finite J" "J \<subseteq> I"
  shows "Order_wf o' \<Longrightarrow> ord_id o' \<in> J \<Longrightarrow>
      total_locked J t (putOrder o' d) + lock_of t (getOrder (ord_id o') d) = total_locked J t d + lock_of t (Some o')"
    "i \<in> J \<Longrightarrow> total_locked J t (deleteOrder i d) + lock_of t (getOrder i d) = total_locked J t d"
    "Order_wf o' \<Longrightarrow> ord_id o' \<in> I - J \<Longrightarrow> total_locked J t (putOrder o' d) = total_locked J t d"
    "i \<in> I - J \<Longrightarrow> total_locked J t (deleteOrder i d) = total_locked J t d"
proof -
  note rec = order_record_ops [OF assms(1)]
  show "total_locked J t (putOrder o' d) + lock_of t (getOrder (ord_id o') d) = total_locked J t d + lock_of t (Some o')"
    if "Order_wf o'" "ord_id o' \<in> J"
    using sum_update_one [OF assms(2) that(2), where g = "\<lambda>i. lock_of t (getOrder i (putOrder o' d))"
        and f = "\<lambda>i. lock_of t (getOrder i d)"] that rec assms(3)
    by (auto simp: total_locked_def subset_iff)
  show "total_locked J t (deleteOrder i d) + lock_of t (getOrder i d) = total_locked J t d" if "i \<in> J"
    using sum_update_one [OF assms(2) that, where g = "\<lambda>j. lock_of t (getOrder j (deleteOrder i d))"
        and f = "\<lambda>i. lock_of t (getOrder i d)"] that rec assms(3)
    by (auto simp: total_locked_def subset_iff lock_of_def)
  show "total_locked J t (putOrder o' d) = total_locked J t d" if "Order_wf o'" "ord_id o' \<in> I - J"
    unfolding total_locked_def using that rec assms(3) by (intro sum.cong) (auto simp: subset_iff)
  show "total_locked J t (deleteOrder i d) = total_locked J t d" if "i \<in> I - J"
    unfolding total_locked_def using that rec assms(3) by (intro sum.cong) (auto simp: subset_iff)
qed

section \<open>Refunds\<close>

lemma Order_wf_facts:
  assumes "Order_wf o'"
  shows "\<not> isNull (ord_owner o')" "ord_id o' \<noteq> INVALID_ID" "ord_filled_amount o' \<le> ord_sell_amount o'"
    "ord_sell_token o' \<noteq> ord_buy_token o'"
  using assms by (auto simp: Order_wf_def Order_isValid_def not_less split: if_splits)

lemma remaining_unat:
  "Order_wf o' \<Longrightarrow> unat (remainingAmount o') = unat (ord_sell_amount o') - unat (ord_filled_amount o')"
  using Order_wf_facts(3) [of o'] by (simp add: remainingAmount_def unat_sub_le)

lemma full_remaining: "Order_wf o' \<Longrightarrow> isFullyFilled o' \<longleftrightarrow> remainingAmount o' = 0"
  using remaining_unat [of o'] Order_wf_facts(3) [of o']
  by (auto simp: isFullyFilled_def word_le_nat_alt simp flip: unat_eq_zero)

text \<open>
  A refund returns the unspent lock, less the cancellation fee when it is charged, and removes the
  order. The fee leaves the ledger.
\<close>

definition refund_amount :: "bool \<Rightarrow> order \<Rightarrow> nat" where
  "refund_amount charge_fee o' = unat (remainingAmount o') - (if charge_fee then 1 else 0)"

lemma refundOrder_effect:
  assumes keys: "keys_ok (ledger_keys A I) d" and fin: "finite A" "finite J" "J \<subseteq> I"
    and m: "getOrder (ord_id m) d = Some m" "ord_id m \<in> J" "Order_wf m" "ord_owner m \<in> A"
    and fits: "bal (ord_owner m) (ord_sell_token m) d + unat (remainingAmount m) < 2 ^ 64"
  shows "keys_ok (ledger_keys A I) (refundOrder m fee d)"
    and "total_bal A tk (refundOrder m fee d) = total_bal A tk d
      + (if tk = ord_sell_token m then refund_amount fee m else 0)"
    and "total_locked J tk (refundOrder m fee d) + (if tk = ord_sell_token m then unat (remainingAmount m) else 0)
      = total_locked J tk d"
    and "j \<in> I \<Longrightarrow> getOrder j (refundOrder m fee d) =
      (if j = ord_id m \<and> remainingAmount m \<noteq> 0 then None else getOrder j d)"
proof -
  note m_facts = Order_wf_facts [OF m(3)]
  have mI: "ord_id m \<in> I" using m fin by auto
  define x where "x = (if fee then (if remainingAmount m > ORDER_CANCEL_FEE_ATOMIC
      then remainingAmount m - ORDER_CANCEL_FEE_ATOMIC else 0) else remainingAmount m)"
  define d1 where "d1 = add_balance (ord_owner m) (ord_sell_token m) x d"
  define d2 where "d2 = (if ord_expires_at_height m \<noteq> 0
      then removeOrderExpiry (ord_expires_at_height m) (ord_id m) d1 else d1)"
  define d3 where "d3 = removeFromOrderBook m d2"
  have r: "refundOrder m fee d = (if remainingAmount m = 0 then d else deleteOrder (ord_id m) d3)"
    using m_facts by (simp add: refundOrder_def Let_def x_def d1_def d2_def d3_def add_balance_def)
  have x: "remainingAmount m \<noteq> 0 \<Longrightarrow> unat x = refund_amount fee m"
    by (auto simp: x_def refund_amount_def ORDER_CANCEL_FEE_ATOMIC_def unat_minus_one word_less_nat_alt
        simp flip: unat_eq_zero)
  have xle: "unat x \<le> unat (remainingAmount m)"
    by (auto simp: x_def ORDER_CANCEL_FEE_ATOMIC_def unat_minus_one word_less_nat_alt simp flip: unat_eq_zero)
  have k1: "keys_ok (ledger_keys A I) d1" and k2: "keys_ok (ledger_keys A I) d2"
    and k3: "keys_ok (ledger_keys A I) d3"
    using keys by (simp_all add: d1_def d2_def d3_def)
  then show "keys_ok (ledger_keys A I) (refundOrder m fee d)" using keys by (simp add: r)
  have fits1: "bal (ord_owner m) (ord_sell_token m) d + unat x < 2 ^ 64" using fits xle by linarith
  note t1 = add_balance_total [OF keys fin(1) m(4) fits1, folded d1_def]
  have o3: "getOrder j d3 = getOrder j d" if "j \<in> I" for j
    using that mI add_balance_order [OF keys m(4) that] book_ops_order [OF k1 that] book_ops_order [OF k2 that]
    by (simp add: d1_def d2_def d3_def)
  have b3: "total_bal A tk d3 = total_bal A tk d + (if tk = ord_sell_token m then unat x else 0)"
    unfolding t1(1) [symmetric] using mI order_ops_totals [OF k1 fin(3)] order_ops_totals [OF k2 fin(3)]
    by (simp add: d2_def d3_def)
  have l3: "total_locked J tk d3 = total_locked J tk d"
    using o3 fin(3) by (intro wealth_cong(2)) auto
  show "total_bal A tk (refundOrder m fee d) = total_bal A tk d
      + (if tk = ord_sell_token m then refund_amount fee m else 0)"
  proof (cases "remainingAmount m = 0")
    case True
    then show ?thesis by (simp add: r refund_amount_def)
  next
    case False
    then show ?thesis using b3 order_ops_totals(2) [OF k3 fin(3) mI] by (simp only: r x [OF False] if_False)
  qed
  show "total_locked J tk (refundOrder m fee d) + (if tk = ord_sell_token m then unat (remainingAmount m) else 0)
      = total_locked J tk d"
    using order_record_totals(2) [OF k3 fin(2,3) m(2), of tk] l3 o3 [OF mI] m(1)
    by (auto simp: r lock_of_def)
  show "getOrder j (refundOrder m fee d) =
      (if j = ord_id m \<and> remainingAmount m \<noteq> 0 then None else getOrder j d)" if "j \<in> I"
    using that mI order_record_ops(2) [OF k3 that mI] o3 [OF that] by (cases "j = ord_id m") (simp_all add: r)
qed

end
