(* ===== verification/Samples.thy ===== *)
theory Samples
  imports Ledger
begin

text \<open>
  Concrete states the witnesses of the properties are evaluated on: a digest of 32 bytes that
  separates the objects of addresses with one repeated byte, sample addresses, orders and
  validators.
\<close>

section \<open>A sample digest\<close>

definition sampleH :: "bytes \<Rightarrow> bytes" where
  "sampleH b = take 32 ((if length b \<le> 32 then b else take (68 - length b) b @ drop 36 b) @ replicate 32 0)"

lemma length_sampleH [simp]: "length (sampleH b) = 32"
  by (simp add: sampleH_def)

definition sample_addr :: "u8 \<Rightarrow> address" where
  "sample_addr w = replicate 32 w"

lemma length_sample_addr [simp]: "length (sample_addr w) = 32"
  by (simp add: sample_addr_def)

lemma sample_addr_eq [simp]: "sample_addr v = sample_addr w \<longleftrightarrow> v = w"
  by (simp add: sample_addr_def)

lemma isNull_sample_addr [simp]: "isNull (sample_addr w) \<longleftrightarrow> w = 0"
  by (simp add: isNull_def sample_addr_def list_all_iff)

definition sample_addrs :: "address set" where
  "sample_addrs = range sample_addr"

lemma finite_sample_addrs [simp]: "finite sample_addrs"
  by (simp add: sample_addrs_def)

lemma sample_addr_mem [simp]: "sample_addr w \<in> sample_addrs"
  by (simp add: sample_addrs_def)

text \<open>On the preimages of the ledger's objects the digest only pads or drops repeated bytes.\<close>

lemma sampleH_short: "length b \<le> 32 \<Longrightarrow> sampleH b = b @ replicate (32 - length b) 0"
  by (simp add: sampleH_def Let_def)

lemma sampleH_address:
  "length d = 4 \<Longrightarrow> sampleH (str d @ sample_addr w) = str d @ replicate 28 w"
  by (simp add: sampleH_def sample_addr_def)

lemma sampleH_address_payload:
  "length d = 4 \<Longrightarrow> length p \<le> 28 \<Longrightarrow> sampleH (str d @ sample_addr w @ p) = str d @ replicate (28 - length p) w @ p"
  by (simp add: sampleH_def sample_addr_def Let_def)

lemma strip_zeros:
  assumes "x @ replicate m 0 = y @ replicate n (0 :: u8)" "0 \<notin> set x" "0 \<notin> set y"
  shows "x = y"
proof -
  have "takeWhile (\<lambda>b. b \<noteq> 0) (x @ replicate m 0) = x" using assms(2) by (subst takeWhile_append2) auto
  moreover have "takeWhile (\<lambda>b. b \<noteq> 0) (y @ replicate n 0) = y" using assms(3) by (subst takeWhile_append2) auto
  ultimately show ?thesis using assms(1) by simp
qed

lemma global_names_nonzero: "s \<in> global_names \<Longrightarrow> 0 \<notin> set (str s) \<and> length s \<le> 20"
  by (auto simp: global_names_def str_def)

lemma sampleH_payload:
  "length d = 4 \<Longrightarrow> length p \<le> 28 \<Longrightarrow> sampleH (str d @ p) = str d @ p @ replicate (28 - length p) 0"
  by (simp add: sampleH_short)

lemma sampleH_global:
  "s \<in> global_names \<Longrightarrow> sampleH (str ''glob'' @ take 64 (str s)) = str ''glob'' @ str s @ replicate (28 - length s) 0"
  using global_names_nonzero [of s] by (simp add: sampleH_payload)

lemmas sampleH_keys = skey_of_def key_pre_def sampleH_payload sampleH_address sampleH_address_payload
  sampleH_global sample_addrs_def ledger_keys_def

lemma take_sampleH:
  assumes "k \<in> ledger_keys sample_addrs I"
  shows "take 4 (skey_of sampleH k) = str (key_domain k)"
  using assms by (cases k) (auto simp: sampleH_keys)

lemma collision_free_sampleH: "collision_free sampleH (ledger_keys sample_addrs I)"
  unfolding collision_free_def
proof (rule inj_onI)
  fix k k' assume mem: "k \<in> ledger_keys sample_addrs I" "k' \<in> ledger_keys sample_addrs I"
    and eq: "skey_of sampleH k = skey_of sampleH k'"
  then have dom: "key_domain k = key_domain k'" using take_sampleH by (metis str_inj)
  show "k = k'"
  proof (cases "\<exists>s. k = KGlobal s")
    case True
    then obtain s s' where s: "k = KGlobal s" "k' = KGlobal s'" using dom by (cases k') auto
    then have "s \<in> global_names" "s' \<in> global_names" using mem by simp_all
    note nz = this [THEN global_names_nonzero]
    have "str s @ replicate (28 - length s) 0 = str s' @ replicate (28 - length s') 0"
      using eq s mem by (simp add: skey_of_def key_pre_def sampleH_global)
    from strip_zeros [OF this] have "str s = str s'" using nz by blast
    then show ?thesis using s by simp
  next
    case False
    from dom show ?thesis
      by (cases k; cases k'; simp; use mem eq False in \<open>auto simp: sampleH_keys key_simps\<close>)
  qed
qed

lemma keys_ok_sample: "keys_ok (ledger_keys sample_addrs I) (db_init sampleH v)"
  using collision_free_sampleH by (simp add: keys_ok_def) (simp add: db_init_def)

lemma db_hash_init [simp]: "db_hash (db_init H v) = H"
  by (simp add: db_init_def)

section \<open>Sample objects\<close>

definition sample_order :: "id \<Rightarrow> u8 \<Rightarrow> u32 \<Rightarrow> u32 \<Rightarrow> u64 \<Rightarrow> u64 \<Rightarrow> u64 \<Rightarrow> order" where
  "sample_order i w s b amount min_buy filled =
     \<lparr>ord_id = i, ord_owner = sample_addr w, ord_mode = Passive, ord_pool_id = 0, ord_sell_token = s,
      ord_buy_token = b, ord_sell_amount = amount, ord_min_buy_amount = min_buy, ord_created_at_height = 1,
      ord_expires_at_height = 0, ord_filled_amount = filled, ord_condition_count = 0,
      ord_conditions = replicate 8 OrderCondition_default\<rparr>"

lemma sample_order_fields [simp]:
  "ord_id (sample_order i w s b amount min_buy filled) = i"
  "ord_owner (sample_order i w s b amount min_buy filled) = sample_addr w"
  "ord_mode (sample_order i w s b amount min_buy filled) = Passive"
  "ord_sell_token (sample_order i w s b amount min_buy filled) = s"
  "ord_buy_token (sample_order i w s b amount min_buy filled) = b"
  "ord_sell_amount (sample_order i w s b amount min_buy filled) = amount"
  "ord_min_buy_amount (sample_order i w s b amount min_buy filled) = min_buy"
  "ord_filled_amount (sample_order i w s b amount min_buy filled) = filled"
  "ord_expires_at_height (sample_order i w s b amount min_buy filled) = 0"
  by (simp_all add: sample_order_def)

lemma sample_order_wf:
  "i \<noteq> 0 \<Longrightarrow> w \<noteq> 0 \<Longrightarrow> s \<noteq> b \<Longrightarrow> min_buy \<noteq> 0 \<Longrightarrow> amount \<noteq> 0 \<Longrightarrow> filled \<le> amount \<Longrightarrow>
    Order_wf (sample_order i w s b amount min_buy filled)"
  by (simp add: Order_wf_def Order_isValid_def sample_order_def INVALID_ID_def ORDER_MAX_CONDITIONS_def not_less)

definition sample_validator :: "id \<Rightarrow> u8 \<Rightarrow> validator_info" where
  "sample_validator i w = ValidatorInfo_default\<lparr>val_id := i, val_reward_address := sample_addr w,
     val_consensus_key := sample_addr w, val_owner := sample_addr w, val_stake := VALIDATOR_MIN_STAKE\<rparr>"

lemma sample_validator_wf [simp]:
  "ValidatorInfo_wf (sample_validator i w)" "val_id (sample_validator i w) = i"
  by (simp_all add: sample_validator_def ValidatorInfo_wf_def ValidatorInfo_default_def)

definition sample_account :: "u64 \<Rightarrow> account" where
  "sample_account x = Account_default\<lparr>acct_balance := x\<rparr>"

lemma bal_init: "bal a tk (db_init H v) = 0"
  by (simp add: bal_def getAccount_def getTokenBalance_def smt_get_def db_init_def Account_default_def)

lemma getOrder_init: "getOrder i (db_init H v) = None"
  by (simp add: getOrder_def smt_typed_def typed_get_def db_init_def)

lemma ucast_u32_zero [simp]: "(ucast (t :: u32) :: u64) = 0 \<longleftrightarrow> t = 0"
  by (metis ucast_ucast_u32 unsigned_0)

end
