(* ===== verification/State_Properties.thy ===== *)
theory State_Properties
  imports Samples
begin

text \<open>
  The properties of the state layer: codecs, the key space, table scans, pruning, the account
  aggregates, object tables and key histories, each with a witness on a concrete state.
\<close>

section \<open>Codecs and keys\<close>

text \<open>
  Order records survive the state encoding: decoding the encoding of any well-formed order, with
  its conditions, gives the order back.
\<close>

theorem order_roundtrip:
  "Order_wf o' \<Longrightarrow> Order_deserializeState (Order_serializeState o') = Some o'"
  by (rule Order_codec)

theorem order_roundtrip_witness:
  "Order_deserializeState (Order_serializeState (sample_order 1 1 0 7 10 5 3)) = Some (sample_order 1 1 0 7 10 5 3)"
  by (rule order_roundtrip) (simp add: sample_order_wf word_le_nat_alt)

text \<open>
  Validator records survive the state encoding, flags byte included.
\<close>

theorem validator_roundtrip:
  "ValidatorInfo_wf v \<Longrightarrow> ValidatorInfo_deserializeState (ValidatorInfo_serializeState v) = Some v"
  by (rule ValidatorInfo_codec)

theorem validator_roundtrip_witness:
  "ValidatorInfo_deserializeState (ValidatorInfo_serializeState (sample_validator 4 2)) = Some (sample_validator 4 2)"
  by (rule validator_roundtrip) simp

text \<open>
  The preimages of the state positions separate all objects: two objects with the same domain
  tag and payload are the same object.
\<close>

theorem key_preimages_separate:
  "key_wf k \<Longrightarrow> key_wf k' \<Longrightarrow> key_pre k = key_pre k' \<longleftrightarrow> k = k'"
  by (rule key_pre_inj)

theorem key_preimages_separate_witness:
  "key_pre (KOrder 7) \<noteq> key_pre (KAmmPool 7) \<and> key_pre (KGlobal ''pot'') \<noteq> key_pre (KGlobal ''pots'')"
  using key_preimages_separate [of "KOrder 7" "KAmmPool 7"]
    key_preimages_separate [of "KGlobal ''pot''" "KGlobal ''pots''"] by (simp add: key_wf_def)

section \<open>Scans and pruning\<close>

text \<open>
  A prefix scan sees exactly the rows whose key starts with the prefix, in ascending key order, and
  the reverse scan the same rows in descending order, for every prefix, trailing 0xFF bytes and the
  empty prefix included.
\<close>

theorem prefix_scans_exact:
  assumes "db_ok d"
  shows "Txn_forEachWithPrefix t p (\<lambda>k v acc. (True, acc @ [(k, v)])) d []
      = filter (has_prefix p) (tab t d) \<and>
    Txn_forEachWithPrefixReverse t p (\<lambda>k v acc. (True, acc @ [(k, v)])) d []
      = rev (filter (has_prefix p) (tab t d))"
proof -
  have collect: "visit (\<lambda>k v acc. (True, acc @ [(k, v)])) r acc = acc @ r" for r acc
    by (induction r arbitrary: acc) auto
  show ?thesis
    using scan_prefix_filter [OF rows_ok_tab [OF assms], of p t]
      scan_prefix_rev_filter [OF rows_ok_tab [OF assms], of p t]
    by (simp add: Txn_forEachWithPrefix_def Txn_forEachWithPrefixReverse_def collect)
qed

theorem prefix_scans_exact_witness:
  "Txn_forEachWithPrefixReverse TBL_FILL_HISTORY [1, 0xFF] (\<lambda>k v acc. (True, acc @ [(k, v)]))
     (putSentinel TBL_FILL_HISTORY [2, 0] (putSentinel TBL_FILL_HISTORY [1, 0xFF, 3]
       (putSentinel TBL_FILL_HISTORY [1, 0xFE] (db_init sampleH 0)))) [] = [([1, 0xFF, 3], [1])]"
proof -
  let ?d = "putSentinel TBL_FILL_HISTORY [2, 0] (putSentinel TBL_FILL_HISTORY [1, 0xFF, 3]
       (putSentinel TBL_FILL_HISTORY [1, 0xFE] (db_init sampleH 0)))"
  have "db_ok ?d" by simp
  moreover have "tab TBL_FILL_HISTORY ?d = [([1, 0xFE], [1]), ([1, 0xFF, 3], [1]), ([2, 0], [1])]"
    by (simp add: tab_def db_init_def putSentinel_def Txn_put_def)
  ultimately show ?thesis
    using prefix_scans_exact [of ?d TBL_FILL_HISTORY "[1, 0xFF]"] by (simp add: has_prefix_def)
qed

lemma Txn_get_tab_cong: "tab t d' = tab t d \<Longrightarrow> Txn_get t k d' = Txn_get t k d"
  by (simp add: Txn_get_def tab_def)

lemma hist_indexed_cong:
  "tab idx d' = tab idx d \<Longrightarrow> tab hist d' = tab hist d \<Longrightarrow> hist_indexed idx hist d' = hist_indexed idx hist d"
  using Txn_get_tab_cong [of idx d' d] Txn_get_tab_cong [of hist d' d] by (simp add: hist_indexed_def)

lemma putNode_indexed:
  assumes "length h = 32" "hist_indexed TBL_SMT_NODES_BY_VER TBL_SMT_NODES_HIST d"
  shows "hist_indexed TBL_SMT_NODES_BY_VER TBL_SMT_NODES_HIST (putNodeAtVersion h v c d)"
proof -
  have len: "length (makeByVersionKey v h) = 40" using assms(1) by (simp add: makeByVersionKey_def)
  have "hist_swap k = makeHistKey h v \<longleftrightarrow> k = makeByVersionKey v h" if "length k = 40" for k
    using hist_swap_inj [OF that len] by (simp add: hist_swap_key)
  moreover have "length (fst r) = 40"
    if "r \<in> set (rows_put (makeByVersionKey v h) [] (tab TBL_SMT_NODES_BY_VER d))" for r
  proof -
    have "fst r \<in> insert (makeByVersionKey v h) (fst ` set (tab TBL_SMT_NODES_BY_VER d))"
      using imageI [OF that, of fst] unfolding set_rows_put .
    then show ?thesis using assms(2) len by (auto simp: hist_indexed_def)
  qed
  ultimately show ?thesis
    using assms(2) by (simp add: hist_indexed_def putNodeAtVersion_def)
qed

text \<open>
  C22. Pruning the history before a version removes exactly the older rows: with index and history in
  step before, afterwards every node and leaf row of an older version is gone from both tables,
  every other row is kept, and index and history are still in step.
\<close>

theorem prune_exact:
  assumes ok: "db_ok d"
    and nodes: "hist_indexed TBL_SMT_NODES_BY_VER TBL_SMT_NODES_HIST d"
    and leaves: "hist_indexed TBL_SMT_LEAVES_BY_VER TBL_SMT_LEAVES_HIST d"
    and h: "length h = 32"
  shows "getNodeAtVersion h v (pruneHistoryBeforeTxn keepFrom d)
      = (if v < keepFrom then None else getNodeAtVersion h v d) \<and>
    getLeafDataAtVersion h v (pruneHistoryBeforeTxn keepFrom d)
      = (if v < keepFrom then None else getLeafDataAtVersion h v d) \<and>
    hist_indexed TBL_SMT_NODES_BY_VER TBL_SMT_NODES_HIST (pruneHistoryBeforeTxn keepFrom d) \<and>
    hist_indexed TBL_SMT_LEAVES_BY_VER TBL_SMT_LEAVES_HIST (pruneHistoryBeforeTxn keepFrom d)"
proof -
  define d1 where "d1 = pruneOneTableImpl TBL_SMT_NODES_BY_VER TBL_SMT_NODES_HIST keepFrom d"
  define d2 where "d2 = pruneOneTableImpl TBL_SMT_LEAVES_BY_VER TBL_SMT_LEAVES_HIST keepFrom d1"
  have p: "pruneHistoryBeforeTxn keepFrom d = d2"
    by (simp add: pruneHistoryBeforeTxn_def d1_def d2_def)
  let ?k = "makeByVersionKey v h"
  have k: "length ?k = 40" "hist_swap ?k = makeHistKey h v" "readVersionFromByVersionKey ?k = v"
    using h by (simp add: makeByVersionKey_def, simp add: hist_swap_key, simp)
  note one = prune_one [OF ok _ nodes, where keepFrom = keepFrom, folded d1_def]
  have leaves1: "hist_indexed TBL_SMT_LEAVES_BY_VER TBL_SMT_LEAVES_HIST d1"
    using leaves one(5) hist_indexed_cong [of TBL_SMT_LEAVES_BY_VER d1 d TBL_SMT_LEAVES_HIST] by simp
  note two = prune_one [OF one(1) _ leaves1, where keepFrom = keepFrom, folded d2_def]
  have nodes2: "hist_indexed TBL_SMT_NODES_BY_VER TBL_SMT_NODES_HIST d2"
    using one(4) two(5) hist_indexed_cong [of TBL_SMT_NODES_BY_VER d2 d1 TBL_SMT_NODES_HIST] by simp
  have "getNodeAtVersion h v d2 = (if v < keepFrom then None else getNodeAtVersion h v d)"
    using one(3) [of ?k] two(5) k Txn_get_tab_cong [of TBL_SMT_NODES_HIST d2 d1] by (simp add: getNodeAtVersion_def)
  moreover have "getLeafDataAtVersion h v d2 = (if v < keepFrom then None else getLeafDataAtVersion h v d)"
    using two(3) [of ?k] one(5) k Txn_get_tab_cong [of TBL_SMT_LEAVES_HIST d1 d] by (simp add: getLeafDataAtVersion_def)
  ultimately show ?thesis unfolding p using nodes2 two(4) by simp
qed

definition sample_history :: db where
  "sample_history = putNodeAtVersion (sample_addr 1) 6 [8] (putNodeAtVersion (sample_addr 1) 4 [9] (db_init sampleH 0))"

lemma sample_history_indexed:
  "db_ok sample_history"
  "hist_indexed TBL_SMT_NODES_BY_VER TBL_SMT_NODES_HIST sample_history"
  "hist_indexed TBL_SMT_LEAVES_BY_VER TBL_SMT_LEAVES_HIST sample_history"
proof -
  have init: "hist_indexed a b (db_init sampleH 0)" for a b
    by (simp add: hist_indexed_def tab_def db_init_def Txn_get_def)
  show "db_ok sample_history" by (simp add: sample_history_def putNodeAtVersion_def)
  show "hist_indexed TBL_SMT_NODES_BY_VER TBL_SMT_NODES_HIST sample_history"
    unfolding sample_history_def by (intro putNode_indexed init) simp_all
  have "tab t (sample_history) = tab t (db_init sampleH 0)"
    if "t = TBL_SMT_LEAVES_BY_VER \<or> t = TBL_SMT_LEAVES_HIST" for t
    using that by (auto simp: sample_history_def putNodeAtVersion_def)
  then show "hist_indexed TBL_SMT_LEAVES_BY_VER TBL_SMT_LEAVES_HIST sample_history"
    using init hist_indexed_cong by metis
qed

theorem prune_exact_witness:
  "getNodeAtVersion (sample_addr 1) 4 (pruneHistoryBeforeTxn 5 sample_history) = None \<and>
   getNodeAtVersion (sample_addr 1) 6 (pruneHistoryBeforeTxn 5 sample_history) = Some [8]"
proof -
  have "getNodeAtVersion (sample_addr 1) 6 sample_history = Some [8]"
    by (simp add: sample_history_def putNodeAtVersion_def getNodeAtVersion_def)
  then show ?thesis
    using prune_exact [OF sample_history_indexed, of "sample_addr 1" 4 5]
      prune_exact [OF sample_history_indexed, of "sample_addr 1" 6 5] by simp
qed

section \<open>Accounts\<close>

definition sample_stake_state :: db where
  "sample_stake_state = putAccount (sample_addr 1) (sample_account 500000) (db_init (\<lambda>b. b) 0)"

lemma sample_stake_keys: "keys_ok (stake_keys {sample_addr 1}) (db_init (\<lambda>b. b) 0)"
  by (rule keys_ok_init) (simp add: stake_keys_def key_wf_def)

lemma one_stake_less: "stake_sum {a} d < 2 ^ 64"
  by (simp add: stake_sum_def)

lemma sample_stake_inv:
  "stake_inv {sample_addr 1} sample_stake_state" "keys_ok (stake_keys {sample_addr 1}) sample_stake_state"
  unfolding sample_stake_state_def
  by (rule putAccount_stake_inv [OF _ _ sample_stake_keys stake_inv_init one_stake_less])
    (simp_all add: sample_stake_keys)

text \<open>
  C17. Writing an account keeps the staking aggregates: the global total is the sum of the staked
  balances, the staker count and the staker index match the accounts with a stake, and every
  account obeys the auto-stake rule, as long as the total fits 64 bits.
\<close>

theorem putAccount_keeps_aggregates:
  assumes "finite A" "a \<in> A" "keys_ok (stake_keys A) d" "stake_inv A d" "stake_sum A (putAccount a x d) < 2 ^ 64"
  shows "stake_inv A (putAccount a x d)"
  by (rule putAccount_stake_inv [OF assms])

theorem putAccount_keeps_aggregates_witness:
  "stake_inv {sample_addr 1} (putAccount (sample_addr 1) (sample_account 30000) sample_stake_state)"
  by (rule putAccount_keeps_aggregates [OF _ _ sample_stake_inv(2,1) one_stake_less]) simp_all

text \<open>
  C18. Deleting an account keeps the staking aggregates.
\<close>

theorem deleteAccount_keeps_aggregates:
  assumes "finite A" "a \<in> A" "keys_ok (stake_keys A) d" "stake_inv A d"
  shows "stake_inv A (deleteAccount a d)"
  by (rule deleteAccount_stake_inv [OF assms])

theorem deleteAccount_keeps_aggregates_witness:
  "stake_inv {sample_addr 1} (deleteAccount (sample_addr 1) sample_stake_state)"
  by (rule deleteAccount_keeps_aggregates [OF _ _ sample_stake_inv(2,1)]) simp_all

section \<open>Objects\<close>

text \<open>
  C23. The validator table mirrors the state tree: after any write or deletion, iterating over the
  validators yields exactly the stored ones, each once.
\<close>

theorem validators_iterated:
  assumes "keys_ok (KValidator ` I) d" "validators_mirror I d" "ValidatorInfo_wf v" "val_id v \<in> I"
  shows "set (forEachValidator (\<lambda>x acc. acc @ [x]) (putValidator v d) []) =
      {x. \<exists>i \<in> I. getValidator i (putValidator v d) = Some x} \<and>
    distinct (map val_id (forEachValidator (\<lambda>x acc. acc @ [x]) (putValidator v d) [])) \<and>
    set (forEachValidator (\<lambda>x acc. acc @ [x]) (deleteValidator (val_id v) d) []) =
      {x. \<exists>i \<in> I. i \<noteq> val_id v \<and> getValidator i d = Some x}"
proof -
  have ok: "db_ok d" using keys_okD [OF assms(1)] .
  have put: "validators_mirror I (putValidator v d)" by (rule putValidator_mirror [OF assms])
  have del: "validators_mirror I (deleteValidator (val_id v) d)"
    by (rule deleteValidator_mirror [OF assms(1,2,4)])
  have "{x. \<exists>i \<in> I. getValidator i (deleteValidator (val_id v) d) = Some x}
      = {x. \<exists>i \<in> I. i \<noteq> val_id v \<and> getValidator i d = Some x}"
    using assms(1,4) by (auto simp: getValidator_deleteValidator [where K = "KValidator ` I"])
  then show ?thesis
    using validators.iterate_all [OF put] validators.iterate_all [OF del] ok
    by (simp add: forEachValidator_visitor)
qed

theorem validators_iterated_witness:
  "set (forEachValidator (\<lambda>x acc. acc @ [x]) (putValidator (sample_validator 4 2) (db_init (\<lambda>b. b) 0)) [])
     = {x. \<exists>i \<in> {4, 5}. getValidator i (putValidator (sample_validator 4 2) (db_init (\<lambda>b. b) 0)) = Some x}"
proof -
  have "keys_ok (KValidator ` {4, 5}) (db_init (\<lambda>b. b) 0)" by (rule keys_ok_init) (simp add: key_wf_def)
  moreover have "validators_mirror {4, 5} (db_init (\<lambda>b. b) 0)"
    by (simp add: mirror_def tab_def db_init_def getValidator_def smt_typed_def typed_get_def)
  ultimately show ?thesis using validators_iterated [of "{4, 5}" "db_init (\<lambda>b. b) 0" "sample_validator 4 2"] by simp
qed

text \<open>
  C24. The key of a validator at a height is unique: with a gapless history, from the first entry's height
  on exactly one entry covers the height and the lookup returns its key; before it there is none.
\<close>

theorem key_at_height_unique:
  assumes "getValidatorKeyHistory i d = Some (e # es)" "history_ok (e # es)"
  shows "(kr_valid_from_height e \<le> h \<longrightarrow>
      (\<exists>c \<in> set (e # es). filter (entry_covers h) (e # es) = [c] \<and> validatorKeyAtHeight i h d = Some (kr_key c))) \<and>
    (h < kr_valid_from_height e \<longrightarrow> validatorKeyAtHeight i h d = None)"
proof (intro conjI impI)
  have look: "validatorKeyAtHeight i h d = key_entry_at (e # es) h"
    by (rule validatorKeyAtHeight_history [OF assms(1)])
  show "\<exists>c \<in> set (e # es). filter (entry_covers h) (e # es) = [c] \<and> validatorKeyAtHeight i h d = Some (kr_key c)"
    if le: "kr_valid_from_height e \<le> h"
  proof -
    obtain c where c: "filter (entry_covers h) (e # es) = [c]" using history_covered [OF assms(2) le] by blast
    have "c \<in> set (filter (entry_covers h) (e # es))" unfolding c by simp
    then have "c \<in> set (e # es)" unfolding set_filter by blast
    then show ?thesis using c unfolding look key_entry_at_filter by auto
  qed
  show "validatorKeyAtHeight i h d = None" if "h < kr_valid_from_height e"
    unfolding look key_entry_at_filter history_before [OF assms(2) that] by simp
qed

definition sample_keys :: "key_rotation list" where
  "sample_keys = [\<lparr>kr_key = sample_addr 1, kr_valid_from_height = 0, kr_valid_until_height = 10\<rparr>,
                  \<lparr>kr_key = sample_addr 2, kr_valid_from_height = 10, kr_valid_until_height = 0\<rparr>]"

theorem key_at_height_unique_witness:
  "validatorKeyAtHeight 3 12 (putValidatorKeyHistory 3 sample_keys (db_init sampleH 0)) = Some (sample_addr 2)"
proof -
  have "KeyHistory_wf sample_keys" by (simp add: KeyHistory_wf_def sample_keys_def keys32_def MAX_KEY_ROTATIONS_def)
  then have "getValidatorKeyHistory 3 (putValidatorKeyHistory 3 sample_keys (db_init sampleH 0)) = Some sample_keys"
    by (auto simp: getValidatorKeyHistory_def putValidatorKeyHistory_def Let_def keyhist_codec.smt_typed_update sample_keys_def)
  then show ?thesis
    using key_at_height_unique [of 3 "putValidatorKeyHistory 3 sample_keys (db_init sampleH 0)" "hd sample_keys" "tl sample_keys" 12]
    by (auto simp: sample_keys_def entry_covers_def)
qed

text \<open>
  C25. The NFT tables share storage. The four NFT tables have no case in \<^verbatim>\<open>StateDB::tableName\<close> and are
  opened under one name, so writing an NFT whose identifier equals a collection's replaces the
  collection's row, while the state tree still has the collection.
\<close>

theorem nft_overwrites_collection_row:
  assumes "nft_id n = col_id c" "length (nft_owner n) = 32" "NftCollection_wf c"
    and "keys_ok {KNft (nft_id n), KNftCollection (col_id c)} d"
  shows "Txn_get TBL_NFT_COLLECTIONS (writeU64 (col_id c)) (putNft n (putNftCollection c d))
      = Some (NftInfo_serializeState n) \<and>
    getNftCollection (col_id c) (putNft n (putNftCollection c d)) = Some c"
proof
  let ?k = "writeU64 (col_id c)"
  have "?k \<noteq> x" if "length x \<noteq> 8" for x using that by auto
  then have "?k \<noteq> nft_owner n @ writeU64 (nft_id n)" "?k \<noteq> writeU64 (nft_collection_id n) @ writeU64 (nft_id n)"
    using assms(2) by simp_all
  then show "Txn_get TBL_NFT_COLLECTIONS ?k (putNft n (putNftCollection c d)) = Some (NftInfo_serializeState n)"
    using assms(1) by (simp add: putNft_def Let_def)
  show "getNftCollection (col_id c) (putNft n (putNftCollection c d)) = Some c"
    using assms(3) keys_eq [OF assms(4), of "KNftCollection (col_id c)" "KNft (nft_id n)"]
    by (simp add: putNft_def putNftCollection_def getNftCollection_def Let_def Keys_skey
        smt_typed_alt NftCollection_codec)
qed

definition sample_nft :: nft_info where
  "sample_nft = \<lparr>nft_id = 1, nft_owner = sample_addr 1, nft_creator = sample_addr 1, nft_shadow_token_id = 2,
     nft_underlying_token_id = 0, nft_wrapped_amount = 0, nft_collection_id = 1, nft_metadata_hash = null32,
     nft_metadata_uri = [], nft_frozen = False, nft_last_accrual_height = 0, nft_accrued_owed = 0,
     nft_created_at_height = 0\<rparr>"

definition sample_collection :: nft_collection where
  "sample_collection = \<lparr>col_id = 1, col_creator = sample_addr 1, col_name = str ''Sample'', col_symbol = str ''SMP'',
     col_base_uri = [], col_reward_token_id = 0, col_reward_rate_per_epoch = 0, col_reward_escrow_remaining = 0,
     col_reward_paused = False, col_created_at_height = 0, col_minted_count = 0\<rparr>"

lemma sample_collection_wf: "NftCollection_wf sample_collection"
  by (simp add: NftCollection_wf_def NftCollection_isValid_def sample_collection_def INVALID_ID_def
      NFT_COLLECTION_NAME_MAX_def NFT_COLLECTION_SYMBOL_MAX_def TOKEN_NAME_MAX_def TOKEN_SYMBOL_MIN_def
      TOKEN_SYMBOL_MAX_def NFT_URI_MAX_def fits32_def str_def)

theorem nft_overwrites_collection_row_witness:
  "Txn_get TBL_NFT_COLLECTIONS (writeU64 1) (putNft sample_nft (putNftCollection sample_collection (db_init (\<lambda>b. b) 0)))
     = Some (NftInfo_serializeState sample_nft)"
proof -
  have "keys_ok {KNft 1, KNftCollection 1} (db_init (\<lambda>b. b) 0)" by (rule keys_ok_init) (simp add: key_wf_def)
  then show ?thesis
    using nft_overwrites_collection_row [of sample_nft sample_collection "db_init (\<lambda>b. b) 0"] sample_collection_wf
    by (simp add: sample_nft_def sample_collection_def)
qed

section \<open>Orders\<close>

text \<open>
  C19. The book is read best price first and, at one price, in the order of arrival: the entries of a
  side come in strictly increasing position, by ascending price on the base-selling side and
  descending price on the other, ties by sequence number.
\<close>

theorem book_priority:
  assumes ok: "db_ok d" and hash: "\<forall>b. length (db_hash d b) = 32"
  shows "sorted_wrt (\<lambda>(i, p, s) (i', p', s'). (if side = 0 then p < p' else p' < p) \<or> p = p' \<and> s < s')
    (book_entries sell buy side d)"
proof -
  let ?pk = "pairKey (db_hash d) (ucast sell) (ucast buy)"
  have pk: "length ?pk = 32" using hash by (simp add: pairKey_def Let_def)
  have "sorted_wrt (\<lambda>r r'. book_before side (decodeBookKey (fst r)) (decodeBookKey (fst r'))) (book_rows sell buy side d)"
  proof (rule sorted_map_filter_book [OF pk])
    show "rows_ok (book_rows sell buy side d)"
      unfolding book_rows_def by (rule rows_ok_filter [OF rows_ok_tab [OF ok]])
    show "\<forall>r \<in> set (book_rows sell buy side d). has_prefix (?pk @ [side]) r \<and> length (fst r) = 49"
      using pk by (simp add: book_rows_def)
  qed
  then show ?thesis
    unfolding book_entries_rows [OF ok] sorted_wrt_map
    by (rule sorted_wrt_mono_rel [rotated]) (auto simp: book_before_def book_entry_def split: prod.splits if_splits)
qed

definition sample_book :: db where
  "sample_book = addToOrderBook (sample_order 2 2 7 0 30 10 0) 2 (addToOrderBook (sample_order 1 1 7 0 20 10 0) 1
     (db_init sampleH 0))"

theorem book_priority_witness:
  "sorted_wrt (\<lambda>(i, p, s) (i', p', s'). (if (1 :: u8) = 0 then p < p' else p' < p) \<or> p = p' \<and> s < s')
     (book_entries 0 7 1 sample_book)"
  by (rule book_priority) (simp_all add: sample_book_def) 

text \<open>
  Placing an order and taking it out again restores the book and clears its sequence entry.
\<close>

theorem book_place_remove:
  assumes "bookable o'" "Txn_get TBL_INDEX_ORDER_BOOK (book_key (db_hash d) o' s) d = None"
  shows "tab TBL_INDEX_ORDER_BOOK (removeFromOrderBook o' (addToOrderBook o' s d)) = tab TBL_INDEX_ORDER_BOOK d \<and>
    smt_get (Keys_orderSequence (db_hash d) (ord_id o')) (removeFromOrderBook o' (addToOrderBook o' s d)) = None"
  using remove_after_add [OF assms] by (simp add: Keys_skey)

theorem book_place_remove_witness:
  "tab TBL_INDEX_ORDER_BOOK (removeFromOrderBook (sample_order 1 1 7 0 20 10 0)
     (addToOrderBook (sample_order 1 1 7 0 20 10 0) 1 (db_init sampleH 0))) = []"
proof -
  have "bookable (sample_order 1 1 7 0 20 10 0)"
    by (simp add: bookable_def isFullyFilled_def INVALID_ID_def canonicalPrice_def mulFitsU64_def BOOK_PRICE_SCALE_def
        Let_def UINT64_MAX_def)
  then show ?thesis
    using book_place_remove [of "sample_order 1 1 7 0 20 10 0" "db_init sampleH 0" 1]
    by (simp add: Txn_get_def tab_def db_init_def)
qed

lemma getOrdersExpiringAt_leaf:
  "getOrdersExpiringAt h d = (case leaf (KOrderExpiry h) d of None \<Rightarrow> []
     | Some v \<Rightarrow> (case decodeU64List v of None \<Rightarrow> [] | Some ids \<Rightarrow> ids))"
  by (simp add: getOrdersExpiringAt_def leaf_def Keys_skey)

text \<open>
  The expiry list of a height: scheduling an order adds it once, at the end; cancelling removes it;
  other heights are untouched.
\<close>

theorem expiry_lists:
  assumes keys: "keys_ok (ledger_keys A I) d" and len: "length (getOrdersExpiringAt h d) < 2 ^ 32 - 1"
  shows "getOrdersExpiringAt h' (addOrderExpiry h i d) =
      (if h' = h \<and> i \<notin> set (getOrdersExpiringAt h d) then getOrdersExpiringAt h d @ [i] else getOrdersExpiringAt h' d) \<and>
    getOrdersExpiringAt h' (removeOrderExpiry h i d) =
      (if h' = h then remove1 i (getOrdersExpiringAt h d) else getOrdersExpiringAt h' d)"
proof (cases "h' = h")
  case True
  have "length (remove1 i (getOrdersExpiringAt h d)) \<le> length (getOrdersExpiringAt h d)"
    by (simp add: length_remove1)
  then show ?thesis
    using True len by (auto simp: addOrderExpiry_def removeOrderExpiry_def Let_def getOrdersExpiringAt_def [of h "smt_update _ _ _"]
        getOrdersExpiringAt_def [of h "smt_remove _ _"] U64List_codec U64List_wf_def remove1_idem)
next
  case False
  then show ?thesis
    using keys by (simp add: getOrdersExpiringAt_leaf leaf_addOrderExpiry leaf_removeOrderExpiry)
qed

theorem expiry_lists_witness:
  "getOrdersExpiringAt 9 (addOrderExpiry 9 4 (db_init sampleH 0)) = [4]"
proof -
  have "getOrdersExpiringAt 9 (db_init sampleH 0) = []"
    by (simp add: getOrdersExpiringAt_def smt_get_def db_init_def)
  then show ?thesis 
    using expiry_lists [where d = "db_init sampleH 0" and A = sample_addrs and I = "{}" and h = 9 and h' = 9 and i = 4]
      keys_ok_sample by simp
qed

text \<open>
  Account codec round trip: decoding the state encoding of an account whose
  owner-independent fields are in range gives the account back.
\<close>

theorem account_roundtrip:
  "Account_deserializeState (Account_serializeState a) = Some a"
  by (rule Account_codec)

end
