(* ===== verification/Matching.thy ===== *)
theory Matching
  imports Ledger
begin

text \<open>
  The matching engine (\<^verbatim>\<open>src/Core/MatchingEngine.cpp\<close>): a passive taker is filled against the
  resting orders of the opposite side, best price first, and its remainder enters the book.
\<close>

section \<open>Definitions\<close>

record pair_frame =
  frame_base_token :: u32
  frame_quote_token :: u32

definition frameOf :: "order \<Rightarrow> pair_frame" where
  "frameOf o' = \<lparr>frame_base_token = min (ord_sell_token o') (ord_buy_token o'),
                 frame_quote_token = max (ord_sell_token o') (ord_buy_token o')\<rparr>"

definition sellsBase :: "order \<Rightarrow> bool" where
  "sellsBase o' = (ord_sell_token o' < ord_buy_token o')"

definition sellAmountToBase :: "u64 \<Rightarrow> bool \<Rightarrow> u64 \<Rightarrow> u64" where
  "sellAmountToBase sell_amount order_sells_base price =
     (if order_sells_base then sell_amount
      else if price = 0 then 0
      else
        let prod = (ucast sell_amount :: u128) * ucast BOOK_PRICE_SCALE;
            q = prod div ucast price
        in if q > ucast UINT64_MAX then 0 else ucast q)"

definition baseToSellAmount :: "u64 \<Rightarrow> bool \<Rightarrow> u64 \<Rightarrow> u64" where
  "baseToSellAmount base_amount order_sells_base price =
     (if order_sells_base then base_amount
      else
        let prod = (ucast base_amount :: u128) * ucast price;
            q = prod div ucast BOOK_PRICE_SCALE
        in if q > ucast UINT64_MAX then 0 else ucast q)"

definition credit :: "address \<Rightarrow> u32 \<Rightarrow> u64 \<Rightarrow> db \<Rightarrow> db" where
  "credit owner token_id amount d =
     (if amount = 0 then d
      else if isNull owner then d
      else if ucast token_id = NATIVE_TOKEN_ID then
        (let acct = getAccount owner d
         in putAccount owner (acct\<lparr>acct_balance := acct_balance acct + amount\<rparr>) d)
      else
        (let cur = getTokenBalance owner (ucast token_id) d
         in putTokenBalance owner (ucast token_id) (cur + amount) d))"

definition recordFill :: "order \<Rightarrow> u64 \<Rightarrow> order" where
  "recordFill o' sell_token_amount = o'\<lparr>ord_filled_amount := ord_filled_amount o' + sell_token_amount\<rparr>"

definition cancelSelfTrade :: "order \<Rightarrow> db \<Rightarrow> db" where
  "cancelSelfTrade maker d = refundOrder maker True d"

record match_outcome =
  out_fills :: "fill list"
  out_taker_rests :: bool
  out_total_quote :: u64
  out_total_base :: u64

definition empty_outcome :: match_outcome where
  "empty_outcome = \<lparr>out_fills = [], out_taker_rests = False, out_total_quote = 0, out_total_base = 0\<rparr>"

type_synonym match_state = "db \<times> order \<times> match_outcome"

text \<open>
  The collection of candidates: identifiers and book prices of the opposite side, best first,
  up to the cap.
\<close>

definition collect_candidates :: "pair_frame \<Rightarrow> u8 \<Rightarrow> db \<Rightarrow> (id \<times> u64) list" where
  "collect_candidates frame maker_side d =
     forEachBookLevel (ucast (frame_base_token frame)) (ucast (frame_quote_token frame)) maker_side
       (\<lambda>order_id price sequence candidates.
          let candidates = candidates @ [(order_id, price)]
          in if length candidates \<ge> MAX_BOOK_LEVELS_PER_TAKER then (False, candidates)
             else (True, candidates)) d []"

text \<open>
  One iteration of the fill loop. The flag says whether the loop goes on: \<^verbatim>\<open>continue\<close> and the
  end of the body give true, \<^verbatim>\<open>break\<close> false.
\<close>

definition match_candidate ::
    "u64 \<Rightarrow> u8 \<Rightarrow> pair_frame \<Rightarrow> u64 \<Rightarrow> u32 \<Rightarrow> id \<times> u64 \<Rightarrow> match_state \<Rightarrow> bool \<times> match_state" where
  "match_candidate taker_limit taker_side frame height tx_index = (\<lambda>(maker_id, maker_price) (d, taker, out).
     if isFullyFilled taker then (False, d, taker, out)
     else if \<not> crosses taker_limit maker_price taker_side then (False, d, taker, out)
     else (case getOrder maker_id d of
       None \<Rightarrow> (True, d, taker, out)
     | Some maker \<Rightarrow>
       if isNull (ord_owner maker) then
         (True, deleteOrder (ord_id maker) (removeFromOrderBook maker d), taker, out)
       else if ord_owner maker = ord_owner taker then
         (True, cancelSelfTrade maker d, taker, out)
       else (case canonicalPrice maker of
         None \<Rightarrow> (True, d, taker, out)
       | Some true_maker_price \<Rightarrow>
         if \<not> crosses taker_limit true_maker_price taker_side then (False, d, taker, out)
         else
           let taker_sells_base = sellsBase taker;
               maker_sells_base = sellsBase maker;
               taker_remaining_base = sellAmountToBase (remainingAmount taker) taker_sells_base true_maker_price;
               maker_remaining_base = sellAmountToBase (remainingAmount maker) maker_sells_base true_maker_price;
               qty_base = min taker_remaining_base maker_remaining_base
           in if qty_base = 0 then (False, d, taker, out)
              else
                let qty_taker_sell = baseToSellAmount qty_base taker_sells_base true_maker_price;
                    qty_maker_sell = baseToSellAmount qty_base maker_sells_base true_maker_price
                in if qty_taker_sell = 0 \<or> qty_maker_sell = 0 then (False, d, taker, out)
                   else
                     let qty_quote = (if taker_sells_base then qty_maker_sell else qty_taker_sell);
                         taker = recordFill taker qty_taker_sell;
                         maker = recordFill maker qty_maker_sell;
                         d = credit (ord_owner taker) (ord_buy_token taker) qty_maker_sell d;
                         d = credit (ord_owner maker) (ord_buy_token maker) qty_taker_sell d;
                         d = (if isFullyFilled maker
                              then deleteOrder (ord_id maker) (removeFromOrderBook maker d)
                              else putOrder maker d);
                         f = \<lparr>fill_source = Limit, fill_maker_order_id = ord_id maker,
                              fill_taker_order_id = ord_id taker, fill_pool_id = 0,
                              fill_qty_base = qty_base, fill_qty_quote = qty_quote,
                              fill_price = true_maker_price,
                              fill_base_token = frame_base_token frame,
                              fill_quote_token = frame_quote_token frame\<rparr>;
                         out = out\<lparr>out_fills := out_fills out @ [f],
                                   out_total_base := out_total_base out + qty_base,
                                   out_total_quote := out_total_quote out + qty_quote\<rparr>;
                         d = indexFill f height tx_index (of_nat (length (out_fills out) - 1)) d
                     in (True, d, taker, out))))"

fun match_loop ::
    "u64 \<Rightarrow> u8 \<Rightarrow> pair_frame \<Rightarrow> u64 \<Rightarrow> u32 \<Rightarrow> (id \<times> u64) list \<Rightarrow> match_state \<Rightarrow> match_state" where
  "match_loop taker_limit taker_side frame height tx_index [] st = st"
| "match_loop taker_limit taker_side frame height tx_index (c # cs) st =
     (let (go, st') = match_candidate taker_limit taker_side frame height tx_index c st
      in if go then match_loop taker_limit taker_side frame height tx_index cs st' else st')"

definition matchPassiveOrder :: "order \<Rightarrow> u64 \<Rightarrow> u32 \<Rightarrow> db \<Rightarrow> db \<times> order \<times> match_outcome" where
  "matchPassiveOrder taker height tx_index d =
     (if ord_id taker = INVALID_ID \<or> isNull (ord_owner taker) \<or> isFullyFilled taker
         \<or> ord_mode taker \<noteq> Passive
      then (d, taker, empty_outcome)
      else
        let frame = frameOf taker;
            taker_sells_base = sellsBase taker;
            taker_side = (if taker_sells_base then 0 else 1 :: u8);
            maker_side = 1 - taker_side
        in (case canonicalPrice taker of
              None \<Rightarrow> (d, taker, empty_outcome)
            | Some taker_limit \<Rightarrow>
                let candidates = collect_candidates frame maker_side d;
                    (d, taker, out) = match_loop taker_limit taker_side frame height tx_index candidates
                                        (d, taker, empty_outcome)
                in if isFullyFilled taker
                   then (deleteOrder (ord_id taker) d, taker, out\<lparr>out_taker_rests := False\<rparr>)
                   else
                     let d = putOrder taker d;
                         (sequence, d) = nextOrderSequence d;
                         d = addToOrderBook taker sequence d
                     in (d, taker, out\<lparr>out_taker_rests := True\<rparr>)))"

section \<open>Conversions\<close>

lemma sellAmountToBase_unat:
  "unat (sellAmountToBase a False p) =
     (if p = 0 \<or> 18446744073709551616 \<le> unat a * 10000000000 div unat p then 0
      else unat a * 10000000000 div unat p)"
  by (auto simp: sellAmountToBase_def Let_def u128_gt_max not_le)

lemma baseToSellAmount_unat:
  "unat (baseToSellAmount b False p) =
     (if 18446744073709551616 \<le> unat b * unat p div 10000000000 then 0
      else unat b * unat p div 10000000000)"
  by (auto simp: baseToSellAmount_def Let_def u128_gt_max not_le)

lemma conversions_base [simp]:
  "sellAmountToBase a True p = a" "baseToSellAmount b True p = b"
  by (simp_all add: sellAmountToBase_def baseToSellAmount_def)

text \<open>Converting to base units and back never exceeds the amount one started with.\<close>

lemma floor_floor_le:
  assumes "0 < p" "0 < S" "b \<le> a * S div p"
  shows "b * p div S \<le> (a :: nat)"
proof -
  have "b * p \<le> (a * S div p) * p" using assms(3) by (rule mult_le_mono1)
  also have "\<dots> \<le> a * S" by (rule div_times_less_eq_dividend)
  finally have "b * p div S \<le> a * S div S" by (rule div_le_mono)
  then show ?thesis using assms(2) by simp
qed

lemma base_round_trip_le:
  assumes "b \<le> sellAmountToBase a sb p"
  shows "baseToSellAmount b sb p \<le> a"
proof (cases sb)
  case True
  with assms show ?thesis by simp
next
  case False
  show ?thesis
  proof (cases "p = 0")
    case True
    then show ?thesis using False by (simp add: word_le_nat_alt baseToSellAmount_unat)
  next
    case p: False
    then have "0 < unat p" by (simp add: unat_gt_0)
    moreover have "unat b \<le> unat a * 10000000000 div unat p"
      using assms False by (auto simp: word_le_nat_alt sellAmountToBase_unat split: if_splits)
    ultimately have "unat b * unat p div 10000000000 \<le> unat a" by (intro floor_floor_le) simp_all
    then show ?thesis using False by (simp add: word_le_nat_alt baseToSellAmount_unat)
  qed
qed

section \<open>The fill loop as a transition system\<close>

text \<open>The amounts of a fill: what moves in base units and what each side pays.\<close>

definition fill_base_qty :: "order \<Rightarrow> order \<Rightarrow> u64 \<Rightarrow> u64" where
  "fill_base_qty taker maker p =
     min (sellAmountToBase (remainingAmount taker) (sellsBase taker) p)
         (sellAmountToBase (remainingAmount maker) (sellsBase maker) p)"

definition fill_pay :: "order \<Rightarrow> u64 \<Rightarrow> u64 \<Rightarrow> u64" where
  "fill_pay o' q p = baseToSellAmount q (sellsBase o') p"

definition settle :: "order \<Rightarrow> order \<Rightarrow> u64 \<Rightarrow> u64 \<Rightarrow> db \<Rightarrow> db" where
  "settle taker maker qt qm d =
     (let d = credit (ord_owner taker) (ord_buy_token taker) qm d;
          d = credit (ord_owner maker) (ord_buy_token maker) qt d;
          m = recordFill maker qm
      in if isFullyFilled m then deleteOrder (ord_id maker) (removeFromOrderBook m d) else putOrder m d)"

definition the_fill :: "pair_frame \<Rightarrow> order \<Rightarrow> order \<Rightarrow> u64 \<Rightarrow> u64 \<Rightarrow> fill" where
  "the_fill frame taker maker q p =
     \<lparr>fill_source = Limit, fill_maker_order_id = ord_id maker, fill_taker_order_id = ord_id taker,
      fill_pool_id = 0, fill_qty_base = q,
      fill_qty_quote = (if sellsBase taker then fill_pay maker q p else fill_pay taker q p),
      fill_price = p, fill_base_token = frame_base_token frame, fill_quote_token = frame_quote_token frame\<rparr>"

inductive match_step ::
    "u64 \<Rightarrow> u8 \<Rightarrow> pair_frame \<Rightarrow> id \<Rightarrow> match_state \<Rightarrow> match_state \<Rightarrow> bool"
  for lim :: u64 and side :: u8 and frame :: pair_frame where
  idle: "match_step lim side frame i st st"
| orphan: "getOrder i d = Some m \<Longrightarrow> isNull (ord_owner m) \<Longrightarrow>
    match_step lim side frame i (d, t, out) (deleteOrder (ord_id m) (removeFromOrderBook m d), t, out)"
| self_trade: "getOrder i d = Some m \<Longrightarrow> ord_owner m = ord_owner t \<Longrightarrow>
    match_step lim side frame i (d, t, out) (refundOrder m True d, t, out)"
| fill: "\<not> isFullyFilled t \<Longrightarrow> getOrder i d = Some m \<Longrightarrow> \<not> isNull (ord_owner m) \<Longrightarrow>
    ord_owner m \<noteq> ord_owner t \<Longrightarrow> canonicalPrice m = Some p \<Longrightarrow> crosses lim p side \<Longrightarrow>
    q = fill_base_qty t m p \<Longrightarrow> q \<noteq> 0 \<Longrightarrow> fill_pay t q p \<noteq> 0 \<Longrightarrow> fill_pay m q p \<noteq> 0 \<Longrightarrow>
    out_fills out' = out_fills out @ [the_fill frame t m q p] \<Longrightarrow>
    out_total_base out' = out_total_base out + q \<Longrightarrow>
    out_total_quote out' = out_total_quote out + fill_qty_quote (the_fill frame t m q p) \<Longrightarrow>
    match_step lim side frame i (d, t, out)
      (indexFill (the_fill frame t m q p) h j k (settle t m (fill_pay t q p) (fill_pay m q p) d),
       recordFill t (fill_pay t q p), out')"

lemma recordFill_fields [simp]:
  "ord_owner (recordFill o' x) = ord_owner o'" "ord_id (recordFill o' x) = ord_id o'"
  "ord_sell_token (recordFill o' x) = ord_sell_token o'" "ord_buy_token (recordFill o' x) = ord_buy_token o'"
  "ord_sell_amount (recordFill o' x) = ord_sell_amount o'" "ord_mode (recordFill o' x) = ord_mode o'"
  "ord_min_buy_amount (recordFill o' x) = ord_min_buy_amount o'"
  "ord_filled_amount (recordFill o' x) = ord_filled_amount o' + x"
  by (simp_all add: recordFill_def)

lemma match_candidate_fill:
  fixes t m :: order and p :: u64
  defines "q \<equiv> fill_base_qty t m p"
  defines "f frame \<equiv> the_fill frame t m q p"
  assumes "\<not> isFullyFilled t" "crosses lim p0 side" "getOrder i d = Some m" "\<not> isNull (ord_owner m)"
    and "ord_owner m \<noteq> ord_owner t" "canonicalPrice m = Some p"
    and "crosses lim p side" "q \<noteq> 0" "fill_pay t q p \<noteq> 0" "fill_pay m q p \<noteq> 0"
  shows "match_candidate lim side frame h j (i, p0) (d, t, out) =
    (True, indexFill (f frame) h j (of_nat (length (out_fills out))) (settle t m (fill_pay t q p) (fill_pay m q p) d),
     recordFill t (fill_pay t q p),
     out\<lparr>out_fills := out_fills out @ [f frame], out_total_base := out_total_base out + q,
         out_total_quote := out_total_quote out + fill_qty_quote (f frame)\<rparr>)"
  using assms(3-) unfolding q_def f_def
  by (simp add: match_candidate_def Let_def fill_base_qty_def fill_pay_def settle_def the_fill_def)

text \<open>Every iteration of the loop is a step.\<close>

lemma match_candidate_step:
  assumes "match_candidate lim side frame h j (i, p0) st = (go, st')"
  shows "match_step lim side frame i st st'"
proof -
  obtain d t out where st: "st = (d, t, out)" by (cases st)
  note unf = assms [unfolded st match_candidate_def prod.case]
  consider (same) "st' = st" | (live) m where "\<not> isFullyFilled t" "crosses lim p0 side" "getOrder i d = Some m"
    using unf st by (auto split: if_splits option.splits)
  then show ?thesis
  proof cases
    case same
    then show ?thesis by (simp add: match_step.idle)
  next
    case live
    note unf' = unf [unfolded live if_True if_False not_True_eq_False option.case]
    consider (null) "isNull (ord_owner m)" | (own) "\<not> isNull (ord_owner m)" "ord_owner m = ord_owner t"
      | (none) "\<not> isNull (ord_owner m)" "ord_owner m \<noteq> ord_owner t" "canonicalPrice m = None"
      | (price) p where "\<not> isNull (ord_owner m)" "ord_owner m \<noteq> ord_owner t" "canonicalPrice m = Some p"
      by blast
    then show ?thesis
    proof cases
      case null
      then show ?thesis using unf' live by (auto simp: st intro!: match_step.orphan)
    next
      case own
      then show ?thesis using unf' live by (auto simp: st cancelSelfTrade_def intro!: match_step.self_trade)
    next
      case none
      then show ?thesis using unf' live by (auto simp: st intro!: match_step.idle)
    next
      case price
      let ?q = "fill_base_qty t m p"
      show ?thesis
      proof (cases "crosses lim p side \<and> ?q \<noteq> 0 \<and> fill_pay t ?q p \<noteq> 0 \<and> fill_pay m ?q p \<noteq> 0")
        case True
        let ?f = "the_fill frame t m ?q p"
        define out' where "out' = out\<lparr>out_fills := out_fills out @ [?f],
            out_total_base := out_total_base out + ?q, out_total_quote := out_total_quote out + fill_qty_quote ?f\<rparr>"
        have "st' = (indexFill ?f h j (of_nat (length (out_fills out))) (settle t m (fill_pay t ?q p) (fill_pay m ?q p) d),
            recordFill t (fill_pay t ?q p), out')"
          using assms match_candidate_fill [OF live price, of frame h j out] True by (simp add: st out'_def)
        then show ?thesis unfolding st using live price True
          by (auto intro!: match_step.fill simp: out'_def)
      next
        case False
        then show ?thesis using unf' live price
          by (auto simp: Let_def fill_base_qty_def [symmetric] fill_pay_def [symmetric] st
              intro!: match_step.idle split: if_splits)
      qed
    qed
  qed
qed

text \<open>Invariants of the steps are invariants of the loop; \<open>n\<close> counts the steps taken.\<close>

lemma match_loop_inv:
  assumes "P 0 st"
    and "\<And>n i st st'. i \<in> fst ` set cs \<Longrightarrow> P n st \<Longrightarrow> match_step lim side frame i st st' \<Longrightarrow> P (Suc n) st'"
  shows "\<exists>n \<le> length cs. P n (match_loop lim side frame h j cs st)"
proof -
  have "\<exists>m \<le> n + length cs. P m (match_loop lim side frame h j cs st)" if "P n st" for n
    using that assms(2)
  proof (induction cs arbitrary: st n)
    case (Cons c cs)
    obtain i p0 go st' where c: "c = (i, p0)"
      and mc: "match_candidate lim side frame h j (i, p0) st = (go, st')"
      by (metis surj_pair)
    have P': "P (Suc n) st'" 
      by (rule Cons.prems(2) [OF _ Cons.prems(1) match_candidate_step [OF mc]]) (simp add: c)
    show ?case
    proof (cases go)
      case True
      have "\<exists>m \<le> Suc n + length cs. P m (match_loop lim side frame h j cs st')"
        by (rule Cons.IH [OF P']) (rule Cons.prems(2), auto)
      then show ?thesis using True mc c by simp
    next
      case False
      then show ?thesis using P' mc c by (auto intro!: exI [of _ "Suc n"])
    qed
  qed auto
  from this [OF assms(1)] show ?thesis by simp
qed

section \<open>Amounts\<close>

lemma fill_pay_le:
  "fill_pay t (fill_base_qty t m p) p \<le> remainingAmount t"
  "fill_pay m (fill_base_qty t m p) p \<le> remainingAmount m"
  unfolding fill_pay_def by (rule base_round_trip_le, simp add: fill_base_qty_def)+

lemma recordFill_unat:
  assumes "Order_wf o'" "x \<le> remainingAmount o'"
  shows "unat (ord_filled_amount o' + x) = unat (ord_filled_amount o') + unat x"
    "unat (ord_filled_amount o') + unat x \<le> unat (ord_sell_amount o')"
proof -
  show le: "unat (ord_filled_amount o') + unat x \<le> unat (ord_sell_amount o')"
    using assms(2) Order_wf_facts(3) [OF assms(1)] remaining_unat [OF assms(1)]
    by (simp add: word_le_nat_alt)
  have "unat (ord_sell_amount o') < 18446744073709551616" by simp
  with le have "unat (ord_filled_amount o') + unat x < 18446744073709551616" by linarith
  then show "unat (ord_filled_amount o' + x) = unat (ord_filled_amount o') + unat x"
    by (intro unat_add_no_overflow) simp
qed

lemma recordFill_wf:
  assumes "Order_wf o'" "x \<le> remainingAmount o'"
  shows "Order_wf (recordFill o' x)"
    "unat (remainingAmount (recordFill o' x)) + unat x = unat (remainingAmount o')"
proof -
  have "ord_filled_amount o' + x \<le> ord_sell_amount o'"
    using recordFill_unat [OF assms] by (simp add: word_le_nat_alt)
  then show wf: "Order_wf (recordFill o' x)"
    using assms(1) by (auto simp: Order_wf_def Order_isValid_def recordFill_def not_less split: if_splits)
  show "unat (remainingAmount (recordFill o' x)) + unat x = unat (remainingAmount o')"
    using recordFill_unat [OF assms] by (simp add: remaining_unat wf assms(1))
qed

lemma credit_eq: "\<not> isNull a \<Longrightarrow> x \<noteq> 0 \<Longrightarrow> credit a t x d = add_balance a t x d"
  by (simp add: credit_def add_balance_def Let_def)

section \<open>Settlement\<close>

text \<open>
  A settled fill moves exactly the paid amounts: each owner's bought token grows by what the other
  side pays, and the maker's lock shrinks by what the maker pays.
\<close>

lemma settle_effect:
  fixes A :: "address set" and I J :: "id set"
  assumes keys: "keys_ok (ledger_keys A I) d" and fin: "finite A" "finite J" "J \<subseteq> I"
    and t: "ord_owner t \<in> A" "\<not> isNull (ord_owner t)"
    and m: "getOrder (ord_id m) d = Some m" "ord_id m \<in> J" "Order_wf m" "ord_owner m \<in> A" "ord_owner m \<noteq> ord_owner t"
    and q: "qm \<le> remainingAmount m" "qm \<noteq> 0" "qt \<noteq> 0"
    and fits: "bal (ord_owner t) (ord_buy_token t) d + unat qm < 2 ^ 64"
      "bal (ord_owner m) (ord_buy_token m) d + unat qt < 2 ^ 64"
  shows "keys_ok (ledger_keys A I) (settle t m qt qm d)"
    and "total_bal A tk (settle t m qt qm d) = total_bal A tk d
      + (if tk = ord_buy_token t then unat qm else 0) + (if tk = ord_buy_token m then unat qt else 0)"
    and "total_locked J tk (settle t m qt qm d) + (if tk = ord_sell_token m then unat qm else 0)
      = total_locked J tk d"
    and "j \<in> I \<Longrightarrow> getOrder j (settle t m qt qm d) =
      (if j = ord_id m then (if isFullyFilled (recordFill m qm) then None else Some (recordFill m qm)) else getOrder j d)"
proof -
  define d1 where "d1 = add_balance (ord_owner t) (ord_buy_token t) qm d"
  define d2 where "d2 = add_balance (ord_owner m) (ord_buy_token m) qt d1"
  let ?m = "recordFill m qm"
  have mI: "ord_id m \<in> I" using m fin by auto
  have wf: "Order_wf ?m" "unat (remainingAmount ?m) + unat qm = unat (remainingAmount m)"
    using recordFill_wf [OF m(3) q(1)] by auto
  have s: "settle t m qt qm d =
      (if isFullyFilled ?m then deleteOrder (ord_id m) (removeFromOrderBook ?m d2) else putOrder ?m d2)"
    using t m q Order_wf_facts(1) [OF m(3)] by (simp add: settle_def Let_def credit_eq d1_def d2_def)
  have k1: "keys_ok (ledger_keys A I) d1" and k2: "keys_ok (ledger_keys A I) d2"
    using keys by (simp_all add: d1_def d2_def)
  then show "keys_ok (ledger_keys A I) (settle t m qt qm d)" by (simp add: s)
  have "bal (ord_owner m) (ord_buy_token m) d1 = bal (ord_owner m) (ord_buy_token m) d"
    using add_balance_bal [OF keys t(1) m(4) fits(1)] m(5) by (simp add: d1_def)
  then have fits2: "bal (ord_owner m) (ord_buy_token m) d1 + unat qt < 2 ^ 64" using fits(2) by simp
  have b2: "total_bal A tk d2 = total_bal A tk d
      + (if tk = ord_buy_token t then unat qm else 0) + (if tk = ord_buy_token m then unat qt else 0)"
    using add_balance_total(1) [OF keys fin(1) t(1) fits(1)] add_balance_total(1) [OF k1 fin(1) m(4) fits2]
    by (simp add: d1_def d2_def)
  have o2: "getOrder j d2 = getOrder j d" if "j \<in> I" for j
    using that add_balance_order [OF keys t(1)] add_balance_order [OF k1 m(4)] by (simp add: d1_def d2_def)
  have l2: "total_locked J tk d2 = total_locked J tk d"
    using o2 fin(3) by (intro wealth_cong(2)) auto
  have kr: "keys_ok (ledger_keys A I) (removeFromOrderBook ?m d2)" using k2 by simp
  note sums = order_ops_totals [OF k2 fin(3)] order_ops_totals [OF kr fin(3)]
  note recs = order_record_totals [OF k2 fin(2,3)] order_record_totals [OF kr fin(2,3)]
  show "total_bal A tk (settle t m qt qm d) = total_bal A tk d
      + (if tk = ord_buy_token t then unat qm else 0) + (if tk = ord_buy_token m then unat qt else 0)"
    unfolding b2 [symmetric] using mI by (simp add: s sums)
  have old: "getOrder (ord_id m) d2 = Some m" "getOrder (ord_id m) (removeFromOrderBook ?m d2) = Some m"
    using o2 [OF mI] m(1) mI book_ops_order(1) [OF k2 mI, of ?m] by simp_all
  show "total_locked J tk (settle t m qt qm d) + (if tk = ord_sell_token m then unat qm else 0)
      = total_locked J tk d"
  proof (cases "isFullyFilled ?m")
    case True
    then have "unat qm = unat (remainingAmount m)" using wf full_remaining [OF wf(1)] by simp
    then show ?thesis
      using True recs(6) [OF m(2), of tk] l2 mI by (simp add: s sums old lock_of_def split: if_splits)
  next
    case False
    then show ?thesis
      using recs(1) [of ?m tk] wf m(2) l2 by (simp add: s old lock_of_def split: if_splits)
  qed
  show "getOrder j (settle t m qt qm d) =
      (if j = ord_id m then (if isFullyFilled ?m then None else Some ?m) else getOrder j d)" if "j \<in> I"
    using that mI wf o2 order_record_ops [OF k2 that] order_record_ops [OF kr that] book_ops_order(1) [OF k2 that, of ?m]
    by (cases "j = ord_id m") (simp_all add: s)
qed

section \<open>Conservation\<close>

text \<open>
  What the matcher relies on: the stored orders of \<open>J\<close> are well formed, filed under their own
  identifiers and owned by addresses of \<open>A\<close>; those of the candidates \<open>C\<close> trade the taker's pair in
  the opposite direction.
\<close>

definition makers_ok :: "address set \<Rightarrow> id set \<Rightarrow> id set \<Rightarrow> order \<Rightarrow> db \<Rightarrow> bool" where
  "makers_ok A J C t d \<longleftrightarrow> (\<forall>i \<in> J. \<forall>m. getOrder i d = Some m \<longrightarrow>
     Order_wf m \<and> ord_id m = i \<and> ord_owner m \<in> A \<and>
     (i \<in> C \<longrightarrow> ord_sell_token m = ord_buy_token t \<and> ord_buy_token m = ord_sell_token t))"

text \<open>The wealth of a token while a taker is being matched; the taker's record in the state is stale.\<close>

definition match_wealth :: "address set \<Rightarrow> id set \<Rightarrow> u32 \<Rightarrow> match_state \<Rightarrow> nat" where
  "match_wealth A J tk = (\<lambda>(d, t, out). wealth A J tk d + lock_of tk (Some t))"

definition same_order :: "order \<Rightarrow> order \<Rightarrow> bool" where
  "same_order t t' \<longleftrightarrow> t' = t\<lparr>ord_filled_amount := ord_filled_amount t'\<rparr>"

lemma same_order_iff: "same_order t t' \<longleftrightarrow> (\<exists>x. t' = t\<lparr>ord_filled_amount := x\<rparr>)"
  by (auto simp: same_order_def)

lemma same_order_fields:
  assumes "same_order t t'"
  shows "ord_owner t' = ord_owner t" "ord_id t' = ord_id t" "ord_sell_token t' = ord_sell_token t"
    "ord_buy_token t' = ord_buy_token t" "ord_sell_amount t' = ord_sell_amount t"
  using assms by (auto simp: same_order_iff)

lemma makers_ok_update:
  assumes "makers_ok A J C t d"
    and "\<And>j x. j \<in> J \<Longrightarrow> getOrder j d' = Some x \<Longrightarrow>
      getOrder j d = Some x \<or> (\<exists>m. getOrder j d = Some m \<and> same_order m x \<and> Order_wf x)"
  shows "makers_ok A J C t d'"
  unfolding makers_ok_def
proof (intro ballI allI impI)
  fix j x assume j: "j \<in> J" "getOrder j d' = Some x"
  from assms(2) [OF this] obtain m where m: "getOrder j d = Some m" "x = m \<or> same_order m x \<and> Order_wf x"
    by auto
  then show "Order_wf x \<and> ord_id x = j \<and> ord_owner x \<in> A \<and>
      (j \<in> C \<longrightarrow> ord_sell_token x = ord_buy_token t \<and> ord_buy_token x = ord_sell_token t)"
    using assms(1) j(1) same_order_fields [of m x] unfolding makers_ok_def by metis
qed

definition match_inv ::
    "address set \<Rightarrow> id set \<Rightarrow> id set \<Rightarrow> order \<Rightarrow> (u32 \<Rightarrow> nat) \<Rightarrow> nat \<Rightarrow> match_state \<Rightarrow> bool" where
  "match_inv A I C t0 W n = (\<lambda>(d, t, out).
     keys_ok (ledger_keys A I) d \<and> makers_ok A (I - {ord_id t0}) C t0 d \<and> Order_wf t \<and> same_order t0 t \<and>
     (\<forall>tk. match_wealth A (I - {ord_id t0}) tk (d, t, out) \<le> W tk \<and>
           W tk \<le> match_wealth A (I - {ord_id t0}) tk (d, t, out) + n))"

lemma match_inv_Suc: "match_inv A I C t0 W n st \<Longrightarrow> match_inv A I C t0 W (Suc n) st"
  by (cases st) (simp add: match_inv_def le_SucI)

lemma match_inv_self_trade:
  fixes I :: "id set"
  defines "J t0 \<equiv> I - {ord_id t0}"
  assumes fin: "finite A" "finite I" and C: "C \<subseteq> J t0" "i \<in> C" and fits: "\<And>tk. W tk < 2 ^ 64"
    and inv: "match_inv A I C t0 W n (d, t, out)" and m: "getOrder i d = Some m"
  shows "match_inv A I C t0 W (Suc n) (refundOrder m True d, t, out)"
proof -
  have keys: "keys_ok (ledger_keys A I) d" and mk: "makers_ok A (J t0) C t0 d" and wt: "Order_wf t" "same_order t0 t"
    and lo: "wealth A (J t0) tk d + lock_of tk (Some t) \<le> W tk"
    and hi: "W tk \<le> wealth A (J t0) tk d + lock_of tk (Some t) + n" for tk
    using inv by (auto simp: match_inv_def match_wealth_def J_def)
  have J: "finite (J t0)" "J t0 \<subseteq> I" "i \<in> J t0" using fin C by (auto simp: J_def)
  have w: "Order_wf m" "ord_id m = i" "ord_owner m \<in> A"
    using mk m J(3) by (auto simp: makers_ok_def)
  have "bal (ord_owner m) (ord_sell_token m) d + lock_of (ord_sell_token m) (getOrder i d)
      \<le> wealth A (J t0) (ord_sell_token m) d"
    unfolding wealth_def by (rule add_mono [OF bal_le_total [OF fin(1) w(3)] lock_le_total [OF J(1,3)]])
  then have f: "bal (ord_owner m) (ord_sell_token m) d + unat (remainingAmount m) < 2 ^ 64"
    using lo [of "ord_sell_token m"] fits [of "ord_sell_token m"] m by (simp add: lock_of_def)
  note eff = refundOrder_effect [OF keys fin(1) J(1,2) m [folded w(2)] _ w(1,3) f, where fee = True]
  have wl: "wealth A (J t0) tk (refundOrder m True d) \<le> wealth A (J t0) tk d"
    "wealth A (J t0) tk d \<le> wealth A (J t0) tk (refundOrder m True d) + 1" for tk
    using eff(2,3) [of tk] J(3) w(2) by (auto simp: wealth_def refund_amount_def split: if_splits)
  have "makers_ok A (J t0) C t0 (refundOrder m True d)"
    by (rule makers_ok_update [OF mk]) (use eff(4) J w(2) in \<open>auto split: if_splits\<close>)
  moreover have "wealth A (J t0) tk (refundOrder m True d) + lock_of tk (Some t) \<le> W tk \<and>
      W tk \<le> wealth A (J t0) tk (refundOrder m True d) + lock_of tk (Some t) + Suc n" for tk
    using wl [of tk] lo [of tk] hi [of tk] by linarith
  ultimately show ?thesis
    using eff(1) J(3) w(2) wt unfolding match_inv_def match_wealth_def J_def by auto
qed

lemma match_inv_fill:
  fixes I :: "id set"
  defines "J t0 \<equiv> I - {ord_id t0}"
  assumes fin: "finite A" "finite I" and C: "C \<subseteq> J t0" "i \<in> C" and fits: "\<And>tk. W tk < 2 ^ 64"
    and t0: "ord_owner t0 \<in> A"
    and inv: "match_inv A I C t0 W n (d, t, out)" and m: "getOrder i d = Some m" "ord_owner m \<noteq> ord_owner t"
    and q: "qt \<le> remainingAmount t" "qm \<le> remainingAmount m" "qt \<noteq> 0" "qm \<noteq> 0"
  shows "match_inv A I C t0 W (Suc n) (indexFill f h j k (settle t m qt qm d), recordFill t qt, out')"
proof -
  have keys: "keys_ok (ledger_keys A I) d" and mk: "makers_ok A (J t0) C t0 d" and wt: "Order_wf t" "same_order t0 t"
    and lo: "wealth A (J t0) tk d + lock_of tk (Some t) \<le> W tk"
    and hi: "W tk \<le> wealth A (J t0) tk d + lock_of tk (Some t) + n" for tk
    using inv by (auto simp: match_inv_def match_wealth_def J_def)
  note same = same_order_fields [OF wt(2)]
  have J: "finite (J t0)" "J t0 \<subseteq> I" "i \<in> J t0" using fin C by (auto simp: J_def)
  have w: "Order_wf m" "ord_id m = i" "ord_owner m \<in> A" "ord_sell_token m = ord_buy_token t"
    "ord_buy_token m = ord_sell_token t"
    using mk m J(3) C(2) same by (auto simp: makers_ok_def)
  have at: "ord_owner t \<in> A" "\<not> isNull (ord_owner t)" using t0 same Order_wf_facts [OF wt(1)] by auto
  have "bal (ord_owner t) (ord_buy_token t) d + lock_of (ord_buy_token t) (getOrder i d)
      \<le> wealth A (J t0) (ord_buy_token t) d"
    unfolding wealth_def by (rule add_mono [OF bal_le_total [OF fin(1) at(1)] lock_le_total [OF J(1,3)]])
  then have f1: "bal (ord_owner t) (ord_buy_token t) d + unat qm < 2 ^ 64"
    using lo [of "ord_buy_token t"] fits [of "ord_buy_token t"] m w(4) q(2)
    by (simp add: lock_of_def word_le_nat_alt)
  have "bal (ord_owner m) (ord_sell_token t) d \<le> wealth A (J t0) (ord_sell_token t) d"
    using bal_le_total [OF fin(1) w(3)] by (simp add: wealth_def trans_le_add1)
  then have f2: "bal (ord_owner m) (ord_buy_token m) d + unat qt < 2 ^ 64"
    using lo [of "ord_sell_token t"] fits [of "ord_sell_token t"] w(5) q(1)
    by (simp add: lock_of_def word_le_nat_alt)
  note eff = settle_effect [OF keys fin(1) J(1,2) at m(1) [folded w(2)] _ w(1,3) m(2) q(2,4,3) f1 f2]
  note rt = recordFill_wf [OF wt(1) q(1)] and rm = recordFill_wf [OF w(1) q(2)]
  have eq: "wealth A (J t0) tk (settle t m qt qm d) + lock_of tk (Some (recordFill t qt))
      = wealth A (J t0) tk d + lock_of tk (Some t)" for tk
    using eff(2,3) [of tk] J(3) w rt(2) by (auto simp: wealth_def lock_of_def split: if_splits)
  have k': "keys_ok (ledger_keys A I) (settle t m qt qm d)" using eff(1) J(3) w(2) by simp
  have frame: "wealth A (J t0) tk (indexFill f h j k (settle t m qt qm d)) = wealth A (J t0) tk (settle t m qt qm d)"
    for tk using order_ops_totals(8,14) [OF k' J(2)] by (simp add: wealth_def)
  have "makers_ok A (J t0) C t0 (settle t m qt qm d)"
  proof (rule makers_ok_update [OF mk])
    fix j x assume j: "j \<in> J t0" "getOrder j (settle t m qt qm d) = Some x"
    have "same_order m (recordFill m qm)" by (simp add: same_order_def recordFill_def)
    then show "getOrder j d = Some x \<or> (\<exists>m. getOrder j d = Some m \<and> same_order m x \<and> Order_wf x)"
      using j eff(4) [of j] J w(2) m(1) rm(1) by (auto split: if_splits)
  qed
  then have "makers_ok A (J t0) C t0 (indexFill f h j k (settle t m qt qm d))"
    by (rule makers_ok_update) (use book_ops_order(6) [OF k'] J(2) in auto)
  moreover have "same_order t0 (recordFill t qt)" using wt(2) by (auto simp: same_order_iff recordFill_def)
  ultimately show ?thesis
    using k' rt(1) lo hi unfolding match_inv_def match_wealth_def J_def [symmetric]
    by (simp add: frame eq le_SucI)
qed

lemma match_inv_step:
  fixes I :: "id set"
  assumes fin: "finite A" "finite I" and C: "C \<subseteq> I - {ord_id t0}" "i \<in> C" and fits: "\<And>tk. W tk < 2 ^ 64"
    and t0: "ord_owner t0 \<in> A"
    and inv: "match_inv A I C t0 W n st" and step: "match_step lim side frame i st st'"
  shows "match_inv A I C t0 W (Suc n) st'"
  using step
proof cases
  case idle
  then show ?thesis using inv by (simp add: match_inv_Suc)
next
  case (orphan d m t out)
  then have "makers_ok A (I - {ord_id t0}) C t0 d" using inv by (simp add: match_inv_def)
  then have "Order_wf m" using C orphan(3) unfolding makers_ok_def by blast
  then show ?thesis using orphan(4) Order_wf_facts(1) by blast
next
  case (self_trade d m t out)
  show ?thesis unfolding self_trade
    by (rule match_inv_self_trade [OF fin C fits inv [unfolded self_trade] self_trade(3)])
next
  case (fill t d m p q out' out h j k)
  show ?thesis unfolding fill(2)
    by (rule match_inv_fill [OF fin C fits t0 inv [unfolded fill(1)]]) (use fill fill_pay_le in simp_all)
qed

definition taker_side_of :: "order \<Rightarrow> u8" where
  "taker_side_of t = (if sellsBase t then 0 else 1)"

definition candidates_of :: "order \<Rightarrow> db \<Rightarrow> (id \<times> u64) list" where
  "candidates_of t d = collect_candidates (frameOf t) (1 - taker_side_of t) d"

definition rest_taker :: "order \<Rightarrow> db \<Rightarrow> db" where
  "rest_taker t d =
     (if isFullyFilled t then deleteOrder (ord_id t) d
      else (let (s, d) = nextOrderSequence (putOrder t d) in addToOrderBook t s d))"

text \<open>A run either leaves everything as it is or is the loop followed by the taker's own record.\<close>

lemma matchPassiveOrder_cases:
  assumes "matchPassiveOrder t h j d = (d', t', out')"
  obtains (idle) "d' = d" "t' = t" "out' = empty_outcome"
  | (run) lim d1 out1 where "canonicalPrice t = Some lim" "\<not> isFullyFilled t"
      "match_loop lim (taker_side_of t) (frameOf t) h j (candidates_of t d) (d, t, empty_outcome) = (d1, t', out1)"
      "d' = rest_taker t' d1" "out' = out1\<lparr>out_taker_rests := \<not> isFullyFilled t'\<rparr>"
proof (cases "ord_id t = INVALID_ID \<or> isNull (ord_owner t) \<or> isFullyFilled t \<or> ord_mode t \<noteq> Passive
    \<or> canonicalPrice t = None")
  case True
  then show thesis using assms idle by (auto simp: matchPassiveOrder_def split: if_splits)
next
  case False
  then obtain lim where lim: "canonicalPrice t = Some lim" by auto
  obtain d1 t1 out1 where loop: "match_loop lim (taker_side_of t) (frameOf t) h j (candidates_of t d)
      (d, t, empty_outcome) = (d1, t1, out1)" by (metis surj_pair)
  show thesis
  proof (rule run [OF lim])
    have "(d', t', out') = (rest_taker t1 d1, t1, out1\<lparr>out_taker_rests := \<not> isFullyFilled t1\<rparr>)"
      using assms False loop
      by (auto simp: matchPassiveOrder_def Let_def lim rest_taker_def taker_side_of_def [symmetric]
          candidates_of_def [symmetric] split: prod.splits)
    then show "d' = rest_taker t' d1" "out' = out1\<lparr>out_taker_rests := \<not> isFullyFilled t'\<rparr>"
      "match_loop lim (taker_side_of t) (frameOf t) h j (candidates_of t d) (d, t, empty_outcome) = (d1, t', out1)"
      using loop by auto
  qed (use False in auto)
qed

lemma total_locked_remove:
  "finite I \<Longrightarrow> i \<in> I \<Longrightarrow> total_locked I tk d = total_locked (I - {i}) tk d + lock_of tk (getOrder i d)"
  by (simp add: total_locked_def sum.remove)

lemma rest_taker_wealth:
  assumes keys: "keys_ok (ledger_keys A I) d" and fin: "finite I" and t: "ord_id t \<in> I" "Order_wf t"
  shows "wealth A I tk (rest_taker t d) = wealth A (I - {ord_id t}) tk d + lock_of tk (Some t)"
proof (cases "isFullyFilled t")
  case True
  then have "lock_of tk (Some t) = 0" using full_remaining [OF t(2)] by (simp add: lock_of_def)
  then show ?thesis
    using True order_ops_totals(2) [OF keys subset_refl t(1)] order_record_totals(2) [OF keys fin subset_refl t(1), of tk]
      total_locked_remove [OF fin t(1), of tk d]
    by (simp add: rest_taker_def wealth_def)
next
  case False
  let ?s = "getGlobalU64 ''order:next_sequence'' (putOrder t d) + 1"
  let ?d1 = "putOrder t d" and ?d2 = "putGlobalU64 ''order:next_sequence'' ?s (putOrder t d)"
  have r: "rest_taker t d = addToOrderBook t ?s ?d2"
    using False by (simp add: rest_taker_def nextOrderSequence_def Let_def)
  have k1: "keys_ok (ledger_keys A I) ?d1" and k2: "keys_ok (ledger_keys A I) ?d2" using keys by simp_all
  have "total_bal A tk (rest_taker t d) = total_bal A tk d"
    using t order_ops_totals [OF k2 subset_refl] order_ops_totals [OF k1 subset_refl] order_ops_totals [OF keys subset_refl]
    by (simp add: r)
  moreover have "total_locked I tk (rest_taker t d) = total_locked I tk ?d1"
    using t order_ops_totals [OF k2 subset_refl] order_ops_totals [OF k1 subset_refl] by (simp add: r)
  ultimately show ?thesis
    using order_record_totals(1) [OF keys fin subset_refl t(2,1), of tk] total_locked_remove [OF fin t(1), of tk d]
    by (simp add: wealth_def)
qed

text \<open>The candidates are the first entries of the opposite side of the book.\<close>

lemma visit_capped:
  assumes "length acc < n"
  shows "visit (\<lambda>k v acc. let acc = acc @ [g k v] in if length acc \<ge> n then (False, acc) else (True, acc)) t acc
    = acc @ take (n - length acc) (map (\<lambda>(k, v). g k v) t)"
  using assms
proof (induction t arbitrary: acc)
  case (Cons r t)
  obtain k v where r: "r = (k, v)" by (cases r)
  show ?case
  proof (cases "n \<le> Suc (length acc)")
    case True
    then have "n - length acc = 1" using Cons.prems by simp
    then show ?thesis using True r by (simp add: Let_def)
  next
    case False
    then have "n - length acc = Suc (n - Suc (length acc))" by simp
    then show ?thesis using False r Cons.IH [of "acc @ [g k v]"] by (simp add: Let_def)
  qed
qed simp

lemma candidates_take:
  assumes "db_ok d"
  shows "candidates_of t d = take MAX_BOOK_LEVELS_PER_TAKER (map (\<lambda>(i, p, s). (i, p))
    (book_entries (ucast (frame_base_token (frameOf t))) (ucast (frame_quote_token (frameOf t)))
       (1 - taker_side_of t) d))"
proof -
  let ?g = "\<lambda>k v. (case book_entry (k, v) of (i, p, s) \<Rightarrow> (i, p))"
  show ?thesis
    using visit_capped [of "[]" MAX_BOOK_LEVELS_PER_TAKER ?g]
    by (simp add: candidates_of_def collect_candidates_def forEachBookLevel_rows [OF assms] Let_def
        book_entries_rows [OF assms] MAX_BOOK_LEVELS_PER_TAKER_def comp_def case_prod_beta')
qed

lemma candidates_length: "db_ok d \<Longrightarrow> length (candidates_of t d) \<le> MAX_BOOK_LEVELS_PER_TAKER"
  by (simp add: candidates_take)

lemma matchPassiveOrder_wealth:
  fixes A :: "address set" and I :: "id set"
  assumes fin: "finite A" "finite I" and keys: "keys_ok (ledger_keys A I) d"
    and t: "Order_wf t" "ord_id t \<in> I" "ord_owner t \<in> A" "getOrder (ord_id t) d = Some t"
    and cands: "fst ` set (candidates_of t d) \<subseteq> I - {ord_id t}"
    and makers: "makers_ok A (I - {ord_id t}) (fst ` set (candidates_of t d)) t d"
    and fits: "\<And>tk. wealth A I tk d < 2 ^ 64"
    and run: "matchPassiveOrder t h j d = (d', t', out')"
  shows "keys_ok (ledger_keys A I) d' \<and>
    wealth A I tk d' \<le> wealth A I tk d \<and> wealth A I tk d \<le> wealth A I tk d' + MAX_BOOK_LEVELS_PER_TAKER"
  using run
proof (cases rule: matchPassiveOrder_cases)
  case (run lim d1 out1)
  let ?C = "fst ` set (candidates_of t d)" and ?W = "\<lambda>tk. wealth A I tk d"
  have W: "wealth A I tk d = wealth A (I - {ord_id t}) tk d + lock_of tk (Some t)" for tk
    using total_locked_remove [OF fin(2) t(2), of tk d] t(4) by (simp add: wealth_def)
  have "match_inv A I ?C t ?W 0 (d, t, empty_outcome)"
    using keys makers t(1) by (simp add: match_inv_def match_wealth_def W same_order_def)
  then have "\<exists>n \<le> length (candidates_of t d). match_inv A I ?C t ?W n
      (match_loop lim (taker_side_of t) (frameOf t) h j (candidates_of t d) (d, t, empty_outcome))"
    by (rule match_loop_inv) (rule match_inv_step [OF fin cands _ fits t(3)])
  then obtain n where n: "n \<le> length (candidates_of t d)" and inv: "match_inv A I ?C t ?W n (d1, t', out1)"
    unfolding run(3) by blast
  have t': "Order_wf t'" "ord_id t' = ord_id t" and k1: "keys_ok (ledger_keys A I) d1"
    using inv same_order_fields(2) [of t t'] by (simp_all add: match_inv_def)
  have "wealth A I tk d' = match_wealth A (I - {ord_id t}) tk (d1, t', out1)"
    using rest_taker_wealth [OF k1 fin(2) _ t'(1), of tk] t'(2) t(2) by (simp add: run(4) match_wealth_def)
  moreover have "match_wealth A (I - {ord_id t}) tk (d1, t', out1) \<le> ?W tk \<and>
      ?W tk \<le> match_wealth A (I - {ord_id t}) tk (d1, t', out1) + n"
    using inv by (simp add: match_inv_def)
  moreover have "keys_ok (ledger_keys A I) d'" using k1 by (simp add: run(4) rest_taker_def nextOrderSequence_def Let_def)
  ultimately show ?thesis using n candidates_length [OF keys_okD [OF keys], of t] by linarith
qed (use keys in simp)

section \<open>The fills of a run\<close>

text \<open>
  A fill of a taker is a limit fill in the taker's pair, of positive amounts, at a price that
  crosses the taker's limit.
\<close>

definition fill_ok :: "order \<Rightarrow> u64 \<Rightarrow> fill \<Rightarrow> bool" where
  "fill_ok t lim f \<longleftrightarrow> fill_source f = Limit \<and> fill_taker_order_id f = ord_id t \<and>
     fill_qty_base f \<noteq> 0 \<and> fill_qty_quote f \<noteq> 0 \<and> crosses lim (fill_price f) (taker_side_of t) \<and>
     fill_base_token f = frame_base_token (frameOf t) \<and> fill_quote_token f = frame_quote_token (frameOf t)"

definition taker_paid :: "order \<Rightarrow> fill \<Rightarrow> nat" where
  "taker_paid t f = unat (if sellsBase t then fill_qty_base f else fill_qty_quote f)"

definition fills_inv :: "order \<Rightarrow> u64 \<Rightarrow> nat \<Rightarrow> match_state \<Rightarrow> bool" where
  "fills_inv t0 lim n = (\<lambda>(d, t, out).
     Order_wf t \<and> same_order t0 t \<and> length (out_fills out) \<le> n \<and> list_all (fill_ok t0 lim) (out_fills out) \<and>
     unat (ord_filled_amount t) = unat (ord_filled_amount t0) + (\<Sum>f \<leftarrow> out_fills out. taker_paid t0 f) \<and>
     out_total_base out = sum_list (map fill_qty_base (out_fills out)) \<and>
     out_total_quote out = sum_list (map fill_qty_quote (out_fills out)))"

lemma fills_inv_step:
  assumes inv: "fills_inv t0 lim n st" and step: "match_step lim (taker_side_of t0) (frameOf t0) i st st'"
  shows "fills_inv t0 lim (Suc n) st'"
  using step
proof cases
  case (fill t d m p q out' out h j k)
  have wt: "Order_wf t" "same_order t0 t" using inv fill(1) by (simp_all add: fills_inv_def)
  have sb: "sellsBase t = sellsBase t0" using same_order_fields [OF wt(2)] by (simp add: sellsBase_def)
  have le: "fill_pay t q p \<le> remainingAmount t" using fill_pay_le(1) [of t m p] fill by simp
  have "same_order t0 (recordFill t (fill_pay t q p))" using wt(2) by (auto simp: same_order_iff recordFill_def)
  moreover have "fill_ok t0 lim (the_fill (frameOf t0) t m q p)"
    using fill same_order_fields [OF wt(2)] by (simp add: fill_ok_def the_fill_def)
  moreover have "taker_paid t0 (the_fill (frameOf t0) t m q p) = unat (fill_pay t q p)"
    by (simp add: taker_paid_def the_fill_def sb fill_pay_def)
  ultimately show ?thesis
    using inv fill recordFill_wf(1) [OF wt(1) le] recordFill_unat(1) [OF wt(1) le]
    by (simp add: fills_inv_def the_fill_def)
qed (use inv in \<open>auto simp: fills_inv_def\<close>)

lemma fills_inv_run:
  assumes "Order_wf t" "db_ok d" "matchPassiveOrder t h j d = (d', t', out')"
  obtains lim where "fills_inv t lim MAX_BOOK_LEVELS_PER_TAKER (d', t', out')"
    "out_fills out' \<noteq> [] \<longrightarrow> canonicalPrice t = Some lim"
  using assms(3)
proof (cases rule: matchPassiveOrder_cases)
  case idle
  then show thesis using that [of 0] assms(1) by (simp add: fills_inv_def same_order_def empty_outcome_def)
next
  case (run lim d1 out1)
  have "fills_inv t lim 0 (d, t, empty_outcome)"
    using assms(1) by (simp add: fills_inv_def same_order_def empty_outcome_def)
  then have "\<exists>n \<le> length (candidates_of t d). fills_inv t lim n
      (match_loop lim (taker_side_of t) (frameOf t) h j (candidates_of t d) (d, t, empty_outcome))"
    by (rule match_loop_inv) (rule fills_inv_step)
  then obtain n where "n \<le> MAX_BOOK_LEVELS_PER_TAKER" "fills_inv t lim n (d1, t', out1)"
    using candidates_length [OF assms(2), of t] unfolding run(3) by (meson order.trans)
  then show thesis using that [of lim] run by (auto simp: fills_inv_def)
qed

end
