(* ===== verification/Amm_Router.thy ===== *)
theory Amm_Router
  imports Order_Book
begin

text \<open>
  Swap arithmetic of the constant-product pools (\<^verbatim>\<open>src/Core/ActiveRouter.cpp\<close>): the output of
  a swap, its effective price and the largest input an order's limit admits.
\<close>

section \<open>Definitions\<close>

text \<open>
  The factor \<^verbatim>\<open>10'000 - fee_bps\<close> is a signed \<^verbatim>\<open>int\<close> in the source, converted to 128 bits by
  the multiplication.
\<close>

definition fee_factor :: "u16 \<Rightarrow> u128" where
  "fee_factor fee_bps = word_of_int (10000 - uint fee_bps)"

definition maxInputWithinLimit :: "u64 \<Rightarrow> u64 \<Rightarrow> u16 \<Rightarrow> u64 \<Rightarrow> u64 option" where
  "maxInputWithinLimit reserve_in reserve_out fee_bps limit_price_scaled =
     (if reserve_in = 0 \<or> reserve_out = 0 then None
      else if fee_bps \<ge> 10000 then None
      else if limit_price_scaled = 0 then None
      else
        let spot_num = (ucast reserve_out :: u128) * ucast BOOK_PRICE_SCALE;
            limit_den = (ucast limit_price_scaled :: u128) * ucast reserve_in
        in if spot_num \<le> limit_den then None
           else
             let b_scaled = (ucast reserve_out :: u128) * ucast BOOK_PRICE_SCALE div ucast limit_price_scaled;
                 a_adj = (ucast reserve_in :: u128) * 10000 div fee_factor fee_bps
             in if b_scaled \<le> a_adj then None
                else
                  let y_full = b_scaled - a_adj
                  in if y_full = 0 then None
                     else if y_full > ucast UINT64_MAX then None
                     else Some (ucast y_full))"

definition computeOutput :: "u64 \<Rightarrow> u64 \<Rightarrow> u16 \<Rightarrow> u64 \<Rightarrow> u64" where
  "computeOutput reserve_in reserve_out fee_bps amount_in =
     (if reserve_in = 0 \<or> reserve_out = 0 \<or> amount_in = 0 then 0
      else
        let amount_in_with_fee = (ucast amount_in :: u128) * fee_factor fee_bps div 10000;
            numerator = (ucast reserve_out :: u128) * amount_in_with_fee;
            denominator = (ucast reserve_in :: u128) + amount_in_with_fee
        in if denominator = 0 then 0 else ucast (numerator div denominator))"

definition computeEffectivePrice :: "u64 \<Rightarrow> u64 \<Rightarrow> u16 \<Rightarrow> u64 \<Rightarrow> u64" where
  "computeEffectivePrice reserve_in reserve_out fee_bps amount_in =
     (if amount_in = 0 then 0
      else
        let out = computeOutput reserve_in reserve_out fee_bps amount_in
        in if out = 0 then 0
           else
             let price = (ucast out :: u128) * ucast BOOK_PRICE_SCALE;
                 q = price div ucast amount_in
             in if q > ucast UINT64_MAX then 0 else ucast q)"

section \<open>The arithmetic over the naturals\<close>

text \<open>The input that counts after the fee, and the floor of the constant-product output.\<close>

definition net_input :: "u16 \<Rightarrow> u64 \<Rightarrow> nat" where
  "net_input fee x = unat x * (10000 - unat fee) div 10000"

lemma fee_factor_unat: "unat fee \<le> 10000 \<Longrightarrow> unat (fee_factor fee) = 10000 - unat fee"
proof -
  assume "unat fee \<le> 10000"
  then have "10000 - uint fee = int (10000 - unat fee)" by (simp add: of_nat_diff)
  then have "fee_factor fee = word_of_nat (10000 - unat fee)" by (simp only: fee_factor_def of_int_of_nat_eq)
  then show ?thesis by (simp add: unat_of_nat)
qed

lemma net_input_le: "net_input fee x \<le> unat x"
  unfolding net_input_def using div_le_mono [of "unat x * (10000 - unat fee)" "unat x * 10000" 10000] by simp

lemma net_input_word:
  assumes "unat fee \<le> 10000"
  shows "unat ((ucast x :: u128) * fee_factor fee div 10000) = net_input fee x"
proof -
  have "unat x * (10000 - unat fee) \<le> unat x * 10000" by simp
  moreover have "unat x < 18446744073709551616" by simp
  ultimately have "unat x * (10000 - unat fee) < 340282366920938463463374607431768211456" by linarith
  then have "unat ((ucast x :: u128) * fee_factor fee) = unat x * (10000 - unat fee)"
    using assms by (subst unat_u128_mult_less) (simp_all add: fee_factor_unat)
  then show ?thesis by (simp add: unat_div net_input_def)
qed

text \<open>The constant-product rule over the naturals: the output is below the reserve and the product grows.\<close>

lemma cp_output_less: "0 < a \<Longrightarrow> 0 < b \<Longrightarrow> b * n div (a + n) < (b :: nat)"
  by (subst div_less_iff_less_mult) (simp_all add: algebra_simps)

lemma cp_product:
  assumes "0 < a"
  shows "a * b \<le> (a + n) * (b - b * n div (a + n :: nat))"
proof -
  have "(b * n div (a + n)) * (a + n) \<le> b * n" by (rule div_times_less_eq_dividend)
  then have "(a + n) * (b - b * n div (a + n)) \<ge> (a + n) * b - b * n"
    by (simp add: diff_mult_distrib2 algebra_simps)
  then show ?thesis by (simp add: algebra_simps)
qed

lemma computeOutput_unat:
  assumes "unat fee \<le> 10000"
  shows "unat (computeOutput a b fee x) =
    (if a = 0 \<or> b = 0 then 0 else unat b * net_input fee x div (unat a + net_input fee x))"
proof (cases "a = 0 \<or> b = 0 \<or> x = 0")
  case True
  then show ?thesis by (auto simp: computeOutput_def net_input_def)
next
  case False
  define n where "n = (ucast x :: u128) * fee_factor fee div 10000"
  have n: "unat n = net_input fee x" unfolding n_def by (rule net_input_word [OF assms])
  have le: "net_input fee x < 18446744073709551616" using net_input_le [of fee x] unat_u64_less [of x] by linarith
  have num: "unat ((ucast b :: u128) * n) = unat b * net_input fee x"
    using le mult_u64_less [OF unat_u64_less [of b] le] by (subst unat_u128_mult_less) (simp_all add: n)
  have den: "unat ((ucast a :: u128) + n) = unat a + net_input fee x"
  proof -
    have "unat a + net_input fee x < 340282366920938463463374607431768211456"
      using le unat_u64_less [of a] by linarith
    then show ?thesis by (subst unat_u128_add_less) (simp_all add: n)
  qed
  have pos: "0 < unat a" using False by (simp add: unat_gt_0)
  have nz: "(ucast a :: u128) + n \<noteq> 0" using den pos by (metis add_gr_0 less_not_refl unat_0)
  have "unat b * net_input fee x div (unat a + net_input fee x) < 18446744073709551616"
    by (rule order.strict_trans [OF cp_output_less unat_u64_less]) (use pos False in \<open>simp_all add: unat_gt_0\<close>)
  then show ?thesis
    using False nz by (simp add: computeOutput_def n_def [symmetric] Let_def unat_div num den)
qed

section \<open>Swaps\<close>

lemma swap_output_less:
  assumes "unat fee \<le> 10000" "b \<noteq> 0"
  shows "computeOutput a b fee x < b"
  using assms cp_output_less [of "unat a" "unat b" "net_input fee x"]
  by (auto simp: word_less_nat_alt computeOutput_unat unat_gt_0)

lemma swap_product:
  assumes "unat fee \<le> 10000"
  shows "unat a * unat b \<le> (unat a + unat x) * (unat b - unat (computeOutput a b fee x))"
proof (cases "a = 0 \<or> b = 0")
  case True
  then show ?thesis by auto
next
  case False
  then have "unat a * unat b \<le> (unat a + net_input fee x) * (unat b - unat (computeOutput a b fee x))"
    using assms cp_product [of "unat a" "unat b" "net_input fee x"] by (simp add: computeOutput_unat unat_gt_0)
  also have "\<dots> \<le> (unat a + unat x) * (unat b - unat (computeOutput a b fee x))"
    using net_input_le by (intro mult_le_mono1) simp
  finally show ?thesis .
qed

lemma net_input_mono: "x \<le> y \<Longrightarrow> net_input fee x \<le> net_input fee y"
  unfolding net_input_def by (intro div_le_mono mult_le_mono1) (simp add: word_le_nat_alt)

lemma cp_output_mono:
  assumes "0 < a" "m \<le> n"
  shows "b * m div (a + m) \<le> b * n div (a + n :: nat)"
proof -
  have "b * m * (a + n) \<le> b * n * (a + m)" using assms(2) by (simp add: algebra_simps)
  moreover have "(b * m div (a + m)) * (a + m) \<le> b * m" by (rule div_times_less_eq_dividend)
  ultimately have "(b * m div (a + m)) * (a + m) * (a + n) \<le> b * n * (a + m)"
    by (meson le_trans mult_le_mono1)
  then have "(b * m div (a + m)) * (a + n) * (a + m) \<le> b * n * (a + m)" by (simp add: algebra_simps)
  then have "(b * m div (a + m)) * (a + n) \<le> b * n" using assms(1) by simp
  then show ?thesis using assms(1) by (simp add: less_eq_div_iff_mult_less_eq)
qed

lemma swap_output_mono:
  assumes "unat fee \<le> 10000" "x \<le> y"
  shows "computeOutput a b fee x \<le> computeOutput a b fee y"
  using assms cp_output_mono [of "unat a" "net_input fee x" "net_input fee y" "unat b"] net_input_mono
  by (auto simp: word_le_nat_alt computeOutput_unat unat_gt_0)

text \<open>
  What the limit computation guarantees: the input it returns, added in full to the input reserve,
  leaves the exact average price at or above the limit.
\<close>

lemma maxInput_sound:
  assumes "maxInputWithinLimit a b fee lim = Some y"
  shows "unat lim * (unat a + unat y) \<le> unat b * 10000000000" "y \<noteq> 0"
proof -
  have c: "a \<noteq> 0" "b \<noteq> 0" "fee < 10000" "lim \<noteq> 0"
    using assms by (auto simp: maxInputWithinLimit_def not_le split: if_splits)
  have fee: "unat fee < 10000" using c(3) by (simp add: word_less_nat_alt)
  define B where "B = (ucast b :: u128) * ucast BOOK_PRICE_SCALE div ucast lim"
  define A' where "A' = (ucast a :: u128) * 10000 div fee_factor fee"
  have y: "A' < B" "\<not> B - A' > ucast UINT64_MAX" "y = ucast (B - A')" "B - A' \<noteq> 0"
    using assms by (auto simp: maxInputWithinLimit_def Let_def B_def [symmetric] A'_def [symmetric] not_le
        split: if_splits)
  have B: "unat B = unat b * 10000000000 div unat lim"
    by (simp add: B_def unat_div)
  have "unat a * 10000 < 340282366920938463463374607431768211456" using unat_u64_less [of a] by linarith
  then have A: "unat A' = unat a * 10000 div (10000 - unat fee)"
    using fee by (simp add: A'_def unat_div fee_factor_unat unat_word_ariths)
  have "unat a * (10000 - unat fee) \<le> unat a * 10000" by simp
  then have le: "unat a \<le> unat A'"
    using fee unfolding A by (simp add: less_eq_div_iff_mult_less_eq)
  have "unat (B - A') < 18446744073709551616" using y(2) by (simp add: u128_gt_max)
  then have yu: "unat y = unat B - unat A'"
    using y(1,3) by (simp add: unat_sub_le)
  then have "unat a + unat y \<le> unat b * 10000000000 div unat lim"
    using le y(1) B by (simp add: word_less_nat_alt)
  then have "unat lim * (unat a + unat y) \<le> unat lim * (unat b * 10000000000 div unat lim)" by simp
  also have "\<dots> \<le> unat b * 10000000000" by simp
  finally show "unat lim * (unat a + unat y) \<le> unat b * 10000000000" .
  show "y \<noteq> 0" using yu y(1) by (auto simp: word_less_nat_alt simp flip: unat_eq_zero)
qed

end
