(* ===== verification/Dex_Properties.thy ===== *)
theory Dex_Properties
  imports Samples Matching Amm_Router
begin

text \<open>
  The properties of the exchange: what the matching engine conserves and guarantees, where its
  rounding and its stopping rule lead, and the pool arithmetic.
\<close>

section \<open>A sample book\<close>

definition bid :: order where "bid = sample_order 1 1 7 0 20 10 0"
definition ask :: order where "ask = sample_order 2 2 0 7 10 10 0"

definition sample_market :: db where
  "sample_market = putOrder ask (addToOrderBook bid 1 (putOrder bid (db_init sampleH 0)))"

lemma market_orders_wf: "Order_wf bid" "Order_wf ask"
  by (simp_all add: bid_def ask_def sample_order_wf)

lemma market_fields [simp]:
  "ord_id bid = 1" "ord_id ask = 2" "ord_owner bid = sample_addr 1" "ord_owner ask = sample_addr 2"
  "ord_sell_token bid = 7" "ord_buy_token bid = 0" "ord_sell_token ask = 0" "ord_buy_token ask = 7"
  "ord_sell_amount bid = 20" "ord_sell_amount ask = 10" "ord_filled_amount bid = 0" "ord_filled_amount ask = 0"
  by (simp_all add: bid_def ask_def)

lemma bid_price: "canonicalPrice bid = Some 20000000000"
  by (simp add: bid_def canonicalPrice_def mulFitsU64_def BOOK_PRICE_SCALE_def Let_def UINT64_MAX_def)

lemma market_keys: "keys_ok (ledger_keys sample_addrs {1, 2}) sample_market"
  by (simp add: sample_market_def keys_ok_sample)


lemma sample_pair:
  "pairKey sampleH 0 7 = pairKey sampleH 7 0" "length (pairKey sampleH 7 0) = 32"
  by (simp_all add: pairKey_def Let_def)

lemma bid_row:
  assumes "sideOf o' = 1" "ord_sell_token o' = 7" "ord_buy_token o' = 0" "canonicalPrice o' = Some p"
  shows "book_key sampleH o' s = encodeBookKey (pairKey sampleH 7 0) 1 p s"
    "length (book_key sampleH o' s) = 49" "has_prefix (pairKey sampleH 7 0 @ [1]) (book_key sampleH o' s, v)"
    "decodeBookKey (book_key sampleH o' s) = (p, s)"
proof -
  show key: "book_key sampleH o' s = encodeBookKey (pairKey sampleH 7 0) 1 p s"
    using assms by (simp add: book_key_def)
  show "length (book_key sampleH o' s) = 49" unfolding key by (rule length_encodeBookKey [OF sample_pair(2)])
  show "has_prefix (pairKey sampleH 7 0 @ [1]) (book_key sampleH o' s, v)"
    unfolding key using sample_pair(2) by (simp add: has_prefix_iff encodeBookKey_def Let_def)
  show "decodeBookKey (book_key sampleH o' s) = (p, s)"
    unfolding key by (rule decode_encodeBookKey [OF sample_pair(2)])
qed

lemma bid_facts: "sideOf bid = 1" "bookable bid"
  by (simp_all add: sideOf_def bookable_def isFullyFilled_def INVALID_ID_def bid_price)

lemmas bid_key = bid_row [OF bid_facts(1) market_fields(5,6) bid_price]

lemma market_tab: "tab TBL_INDEX_ORDER_BOOK sample_market = [(book_key sampleH bid 1, writeU64 1)]"
  using bid_facts by (simp add: sample_market_def addToOrderBook_eq) (simp add: tab_def db_init_def)

lemma ask_candidates:
  assumes "db_ok d" "db_hash d = sampleH"
  shows "candidates_of ask d = take 256 (map (\<lambda>(i, p, s). (i, p)) (map book_entry
    (filter (\<lambda>r. has_prefix (pairKey sampleH 7 0 @ [1]) r \<and> length (fst r) = 49 \<and> length (snd r) = 8)
      (tab TBL_INDEX_ORDER_BOOK d))))"
  using assms sample_pair
  by (simp add: candidates_take book_entries_rows frameOf_def taker_side_of_def sellsBase_def book_rows_def
      MAX_BOOK_LEVELS_PER_TAKER_def min_def max_def)



section \<open>Matching\<close>



text \<open>
  C16. Every fill of a matching run is in the taker's pair, of positive amounts, at a price the taker's
  limit admits; there are at most 256; the taker's filled amount grows by exactly what its fills
  paid and never exceeds its sell amount; the totals of the outcome are the sums over its fills.
\<close>

theorem matching_fills:
  assumes "Order_wf t" "db_ok d" "matchPassiveOrder t h j d = (d', t', out')"
  shows "\<exists>lim. list_all (fill_ok t lim) (out_fills out') \<and> (out_fills out' \<noteq> [] \<longrightarrow> canonicalPrice t = Some lim) \<and>
    length (out_fills out') \<le> MAX_BOOK_LEVELS_PER_TAKER \<and>
    unat (ord_filled_amount t') = unat (ord_filled_amount t) + (\<Sum>f \<leftarrow> out_fills out'. taker_paid t f) \<and>
    ord_filled_amount t' \<le> ord_sell_amount t \<and>
    out_total_base out' = sum_list (map fill_qty_base (out_fills out')) \<and>
    out_total_quote out' = sum_list (map fill_qty_quote (out_fills out'))"
proof -
  obtain lim where inv: "fills_inv t lim MAX_BOOK_LEVELS_PER_TAKER (d', t', out')"
    and lim: "out_fills out' \<noteq> [] \<longrightarrow> canonicalPrice t = Some lim"
    by (rule fills_inv_run [OF assms])
  then have "ord_filled_amount t' \<le> ord_sell_amount t"
    using Order_wf_facts(3) [of t'] same_order_fields(5) [of t t'] by (simp add: fills_inv_def)
  then show ?thesis using inv lim by (auto simp: fills_inv_def intro!: exI [of _ lim])
qed

theorem matching_fills_witness:
  "length (out_fills (snd (snd (matchPassiveOrder ask 5 0 sample_market)))) \<le> 256"
proof -
  obtain d' t' out' where run: "matchPassiveOrder ask 5 0 sample_market = (d', t', out')" by (metis surj_pair)
  show ?thesis
    using matching_fills [OF market_orders_wf(2) keys_okD [OF market_keys] run]
    by (auto simp: run MAX_BOOK_LEVELS_PER_TAKER_def)
qed

text \<open>
  C26. An exhausted maker at the top of the book stops matching. When the first candidate's remainder is
  worth no base unit at its price, the loop ends before any fill, whatever lies below it.
\<close>

theorem dust_maker_stops_matching:
  assumes cand: "candidates_of t d = (i, p0) # cs" and m: "getOrder i d = Some m" "Order_wf m"
    "ord_owner m \<noteq> ord_owner t" "canonicalPrice m = Some p"
    and dust: "sellAmountToBase (remainingAmount m) (sellsBase m) p = 0"
    and run: "matchPassiveOrder t h j d = (d', t', out')"
  shows "out_fills out' = [] \<and> t' = t"
  using run
proof (cases rule: matchPassiveOrder_cases)
  case idle
  then show ?thesis by (simp add: empty_outcome_def)
next
  case (run lim d1 out1)
  have "match_candidate lim (taker_side_of t) (frameOf t) h j (i, p0) (d, t, empty_outcome) = (False, d, t, empty_outcome)"
    using run(2) m dust Order_wf_facts(1) [OF m(2)] by (simp add: match_candidate_def Let_def min_def)
  then show ?thesis using run(3,5) by (auto simp: cand empty_outcome_def)
qed

definition dust_bid :: order where "dust_bid = sample_order 3 3 7 0 5 2 4"

definition dusty_market :: db where
  "dusty_market = addToOrderBook dust_bid 2 (putOrder dust_bid sample_market)"

lemma dust_bid_facts:
  "Order_wf dust_bid" "canonicalPrice dust_bid = Some 25000000000" "ord_owner dust_bid = sample_addr 3" "ord_id dust_bid = 3"
  "sellAmountToBase (remainingAmount dust_bid) (sellsBase dust_bid) 25000000000 = 0" "sideOf dust_bid = 1" "bookable dust_bid"
proof -
  show price: "canonicalPrice dust_bid = Some 25000000000"
    by (simp add: dust_bid_def canonicalPrice_def mulFitsU64_def BOOK_PRICE_SCALE_def Let_def UINT64_MAX_def)
  show "bookable dust_bid" using price by (simp add: bookable_def dust_bid_def isFullyFilled_def INVALID_ID_def)
  show "sellAmountToBase (remainingAmount dust_bid) (sellsBase dust_bid) 25000000000 = 0"
    by (simp add: dust_bid_def sellAmountToBase_def sellsBase_def remainingAmount_def Let_def BOOK_PRICE_SCALE_def UINT64_MAX_def)
qed (simp_all add: dust_bid_def sample_order_wf sideOf_def)

lemmas dust_key = bid_row [OF dust_bid_facts(6) _ _ dust_bid_facts(2)]

lemma dusty_market_candidates: "candidates_of ask dusty_market = [(3, 25000000000), (1, 20000000000)]"
proof -
  have tok: "ord_sell_token dust_bid = 7" "ord_buy_token dust_bid = 0" by (simp_all add: dust_bid_def)
  have hash: "db_hash dusty_market = sampleH" by (simp add: dusty_market_def sample_market_def)
  have ok: "db_ok dusty_market" using keys_okD [OF market_keys] by (simp add: dusty_market_def)
  have less: "book_key sampleH dust_bid 2 < book_key sampleH bid 1"
    unfolding dust_key(1) [OF tok] bid_key(1) encodeBookKey_less by (simp add: book_before_def)
  have "tab TBL_INDEX_ORDER_BOOK dusty_market = [(book_key sampleH dust_bid 2, writeU64 3), (book_key sampleH bid 1, writeU64 1)]"
    using less dust_bid_facts(4,7) by (simp add: dusty_market_def addToOrderBook_eq market_tab) (simp add: sample_market_def)
  then show ?thesis
    by (subst ask_candidates [OF ok hash]) (simp add: bid_key(2-4) dust_key(2-4) [OF tok] book_entry_def codec_simps)
qed

lemma dusty_market_order: "getOrder 3 dusty_market = Some dust_bid"
proof -
  have k: "keys_ok (ledger_keys sample_addrs {1, 2, 3}) sample_market"
    by (simp add: sample_market_def keys_ok_sample)
  then have "keys_ok (ledger_keys sample_addrs {1, 2, 3}) (putOrder dust_bid sample_market)" by simp
  from book_ops_order(2) [OF this, of 3 dust_bid 2] order_record_ops(1) [OF k, of 3 dust_bid]
  show ?thesis using dust_bid_facts(1,4) by (simp add: dusty_market_def)
qed

theorem dust_maker_stops_matching_witness:
  "out_fills (snd (snd (matchPassiveOrder ask 5 0 dusty_market))) = [] \<and> fill_base_qty ask bid 20000000000 = 10"
proof -
  obtain d' t' out' where run: "matchPassiveOrder ask 5 0 dusty_market = (d', t', out')" by (metis surj_pair)
  have "out_fills out' = []"
    using dust_maker_stops_matching [OF dusty_market_candidates dusty_market_order dust_bid_facts(1) _ dust_bid_facts(2,5) run]
    by (simp add: dust_bid_facts(3))
  moreover have "fill_base_qty ask bid 20000000000 = 10"
    by (simp add: fill_base_qty_def sellsBase_def remainingAmount_def sellAmountToBase_def Let_def BOOK_PRICE_SCALE_def UINT64_MAX_def)
  ultimately show ?thesis by (simp add: run)
qed

text \<open>
  C20. What a fill pays: the side that sells quote pays the value of the base amount at the execution
  price, rounded down by less than one unit, and no side ever pays more than it has left.
\<close>

theorem fill_value:
  assumes "\<not> sellsBase o'" "fill_pay o' (fill_base_qty t m p) p \<noteq> 0"
  shows "unat (fill_pay o' (fill_base_qty t m p) p) * unat BOOK_PRICE_SCALE \<le> unat (fill_base_qty t m p) * unat p \<and>
    unat (fill_base_qty t m p) * unat p < (unat (fill_pay o' (fill_base_qty t m p) p) + 1) * unat BOOK_PRICE_SCALE \<and>
    fill_pay t (fill_base_qty t m p) p \<le> remainingAmount t \<and> fill_pay m (fill_base_qty t m p) p \<le> remainingAmount m"
proof -
  let ?q = "fill_base_qty t m p"
  have u: "unat (fill_pay o' ?q p) = unat ?q * unat p div 10000000000"
    using assms baseToSellAmount_unat [of ?q p] by (auto simp: fill_pay_def simp flip: unat_eq_zero split: if_splits)
  have "unat ?q * unat p < (unat ?q * unat p div 10000000000 + 1) * 10000000000"
    using dividend_less_div_times [of 10000000000 "unat ?q * unat p"] by simp
  then show ?thesis unfolding u using fill_pay_le by simp
qed

theorem fill_value_witness:
  "unat (fill_pay bid (fill_base_qty ask bid 20000000000) 20000000000) = 20"
proof -
  have q: "fill_base_qty ask bid 20000000000 = 10"
    by (simp add: fill_base_qty_def sellsBase_def remainingAmount_def sellAmountToBase_def Let_def BOOK_PRICE_SCALE_def UINT64_MAX_def)
  have "fill_pay bid 10 20000000000 \<noteq> 0"
    by (simp add: fill_pay_def sellsBase_def baseToSellAmount_def Let_def BOOK_PRICE_SCALE_def UINT64_MAX_def)
  then show ?thesis
    using fill_value [of bid ask bid 20000000000] by (simp add: q sellsBase_def)
qed


section \<open>Pools\<close>

text \<open>
  C21. A swap never empties a pool and never lowers the product of its reserves: for any fee of at most
  100 percent the output is below the output reserve, and the product with the gross input added
  and the output removed is at least the product before.
\<close>

theorem swap_keeps_product:
  assumes "unat fee \<le> 10000" "b \<noteq> 0"
  shows "computeOutput a b fee x < b \<and>
    unat a * unat b \<le> (unat a + unat x) * (unat b - unat (computeOutput a b fee x))"
  using swap_output_less [OF assms] swap_product [OF assms(1)] by blast

theorem swap_keeps_product_witness:
  "computeOutput 1000 2000 30 100 < 2000"
  using swap_keeps_product [of 30 2000 1000 100] by simp

text \<open>
  More input never buys less output.
\<close>

theorem swap_monotone:
  assumes "unat fee \<le> 10000" "x \<le> y"
  shows "computeOutput a b fee x \<le> computeOutput a b fee y"
  by (rule swap_output_mono [OF assms])

theorem swap_monotone_witness: "computeOutput 1000 2000 30 100 \<le> computeOutput 1000 2000 30 200"
  using swap_monotone [of 30 100 200 1000 2000] by simp

text \<open>
  The input the router admits under a limit is positive and keeps the pool's exact average price,
  before fee and rounding, at or above the limit.
\<close>

theorem router_input_sound:
  assumes "maxInputWithinLimit a b fee lim = Some y"
  shows "0 < unat y \<and> unat lim * (unat a + unat y) \<le> unat b * unat BOOK_PRICE_SCALE"
  using maxInput_sound [OF assms] by (simp add: unat_gt_0)

theorem router_input_sound_witness: "unat (10000000000 :: u64) * (unat (3 :: u64) + unat (7 :: u64)) \<le> unat (10 :: u64) * unat BOOK_PRICE_SCALE"
proof -
  have "maxInputWithinLimit 3 10 30 10000000000 = Some 7"
    by (simp add: maxInputWithinLimit_def fee_factor_def Let_def BOOK_PRICE_SCALE_def UINT64_MAX_def)
  from router_input_sound [OF this] show ?thesis by simp
qed


end
