(* ===== verification/Transactions.thy ===== *)
theory Transactions
  imports Dex_Types Order_Book
begin

text \<open>
  Transactions and receipts: \<^verbatim>\<open>src/Core/TransactionTypes.h\<close>, \<^verbatim>\<open>src/Core/Transaction.h/.cpp\<close>
  and \<^verbatim>\<open>src/Core/Receipt.h/.cpp\<close>. A byte that is no enumerator stays a value of the
  enumeration, as in the code, which casts without a check.
\<close>

section \<open>Transaction types\<close>

datatype TxType =
    Tx_Transfer
  | Tx_OptInStaking | Tx_OptOutStaking | Tx_ClaimRewards
  | Tx_RegisterValidator | Tx_UnregisterValidator | Tx_UpdateRewardAddress | Tx_RotateConsensusKey
  | Tx_CreatePool | Tx_AddLiquidity | Tx_RemoveLiquidity | Tx_Swap
  | Tx_CreateOrder | Tx_CancelOrder
  | Tx_CreateNftCollection | Tx_MintNft | Tx_WrapNft | Tx_TransferNft | Tx_BurnNft
  | Tx_UpdateNftMetadata | Tx_TopUpNft | Tx_ClaimNftReward | Tx_RefillCollectionReward
  | Tx_CreateToken | Tx_MintToken | Tx_BurnToken | Tx_UpdateTokenMeta
  | Tx_BlockReward | Tx_OrderExpired | Tx_Slash
  | Tx_Invalid
  | Tx_raw u8

definition txtype_table :: "(TxType \<times> u8) list" where
  "txtype_table =
     [(Tx_Transfer, 0x00),
      (Tx_OptInStaking, 0x10), (Tx_OptOutStaking, 0x11), (Tx_ClaimRewards, 0x12),
      (Tx_RegisterValidator, 0x20), (Tx_UnregisterValidator, 0x21),
      (Tx_UpdateRewardAddress, 0x22), (Tx_RotateConsensusKey, 0x23),
      (Tx_CreatePool, 0x30), (Tx_AddLiquidity, 0x31), (Tx_RemoveLiquidity, 0x32), (Tx_Swap, 0x33),
      (Tx_CreateOrder, 0x40), (Tx_CancelOrder, 0x41),
      (Tx_CreateNftCollection, 0x42), (Tx_MintNft, 0x43), (Tx_WrapNft, 0x44), (Tx_TransferNft, 0x45),
      (Tx_BurnNft, 0x46), (Tx_UpdateNftMetadata, 0x47), (Tx_TopUpNft, 0x48), (Tx_ClaimNftReward, 0x49),
      (Tx_RefillCollectionReward, 0x4A),
      (Tx_CreateToken, 0x50), (Tx_MintToken, 0x51), (Tx_BurnToken, 0x52), (Tx_UpdateTokenMeta, 0x53),
      (Tx_BlockReward, 0xF0), (Tx_OrderExpired, 0xF1), (Tx_Slash, 0xF2),
      (Tx_Invalid, 0xFF)]"

definition txtype_byte :: "TxType \<Rightarrow> u8" where
  "txtype_byte t = (case t of Tx_raw b \<Rightarrow> b | _ \<Rightarrow> the (map_of txtype_table t))"

definition txtype_of_byte :: "u8 \<Rightarrow> TxType" where
  "txtype_of_byte b =
     (case map_of (map (\<lambda>(t, c). (c, t)) txtype_table) b of Some t \<Rightarrow> t | None \<Rightarrow> Tx_raw b)"

definition isUserSubmitted :: "TxType \<Rightarrow> bool" where
  "isUserSubmitted t = (txtype_byte t < 0xF0)"

definition isSystemTx :: "TxType \<Rightarrow> bool" where
  "isSystemTx t = (txtype_byte t \<ge> 0xF0 \<and> t \<noteq> Tx_Invalid)"

text \<open>A value of the enumeration that names a listed byte by its enumerator.\<close>

definition txtype_canonical :: "TxType \<Rightarrow> bool" where
  "txtype_canonical t \<longleftrightarrow> txtype_of_byte (txtype_byte t) = t"

section \<open>Transactions\<close>

definition CURRENT_TRANSACTION_VERSION :: u16 where "CURRENT_TRANSACTION_VERSION = 1"
definition TX_MAX_PAYLOAD_SIZE :: nat where "TX_MAX_PAYLOAD_SIZE = 64 * 1024"
definition TX_DOMAIN :: string where "TX_DOMAIN = ''CLRTY_TX_V1''"

record transaction =
  tx_version :: u16
  tx_chain_id :: u64
  tx_type :: TxType
  tx_nonce :: u64
  tx_valid_until_height :: u64
  tx_from :: address
  tx_to :: address
  tx_token_id :: id
  tx_amount :: amount
  tx_fee :: amount
  tx_payload :: bytes
  tx_signature :: bytes

definition Transaction_isWellFormed :: "transaction \<Rightarrow> bool" where
  "Transaction_isWellFormed tx =
     (if tx_version tx \<noteq> CURRENT_TRANSACTION_VERSION then False
      else if tx_chain_id tx = 0 then False
      else if tx_type tx = Tx_Invalid then False
      else if length (tx_payload tx) > TX_MAX_PAYLOAD_SIZE then False
      else if isSystemTx (tx_type tx) then tx_payload tx \<noteq> []
      else if isNull (tx_from tx) then False
      else if tx_amount tx = 0 \<and> tx_fee tx = 0 \<and> tx_payload tx = [] then False
      else True)"

definition Transaction_serializeForSigning :: "transaction \<Rightarrow> bytes" where
  "Transaction_serializeForSigning tx = run_writer
     [wr_u16 (tx_version tx),
      wr_u64 (tx_chain_id tx),
      wr_u8 (txtype_byte (tx_type tx)),
      wr_u64 (tx_nonce tx),
      wr_u64 (tx_valid_until_height tx),
      wr_bytes (tx_from tx) 32,
      wr_bytes (tx_to tx) 32,
      wr_u32 (ucast (tx_token_id tx)),
      wr_u64 (tx_amount tx),
      wr_u64 (tx_fee tx),
      wr_u32 (of_nat (length (tx_payload tx))),
      wr_bytes (tx_payload tx) (length (tx_payload tx))]"

definition Transaction_serialize :: "transaction \<Rightarrow> bytes" where
  "Transaction_serialize tx = putBytes (Transaction_serializeForSigning tx) (tx_signature tx) 64"

definition Transaction_signingHash :: "(bytes \<Rightarrow> hash) \<Rightarrow> transaction \<Rightarrow> hash" where
  "Transaction_signingHash H tx = H (map of_char TX_DOMAIN @ Transaction_serializeForSigning tx)"

definition Transaction_txid :: "(bytes \<Rightarrow> hash) \<Rightarrow> transaction \<Rightarrow> hash" where
  "Transaction_txid H tx = Transaction_signingHash H tx"

definition Transaction_deserialize :: "bytes \<Rightarrow> transaction option" where
  "Transaction_deserialize data =
     (let r = Reader data;
          (version, r) = rd_u16 r;
          (chain_id, r) = rd_u64 r;
          (ty, r) = rd_u8 r;
          (nonce, r) = rd_u64 r;
          (valid_until, r) = rd_u64 r;
          (from', r) = rd_bytes null32 32 r;
          (to', r) = rd_bytes null32 32 r;
          (token_id, r) = rd_u32 r;
          (amount, r) = rd_u64 r;
          (fee, r) = rd_u64 r
      in if \<not> rd_ok r then None
         else
           let (payload_size, r) = rd_u32 r
           in if \<not> rd_ok r \<or> unat payload_size > TX_MAX_PAYLOAD_SIZE then None
              else
                let (payload, r) = rd_vector (unat payload_size) r;
                    (signature, r) = rd_bytes (replicate 64 0) 64 r
                in if \<not> rd_ok r then None
                   else if rd_remaining r \<noteq> 0 then None
                   else
                     let out = \<lparr>tx_version = version, tx_chain_id = chain_id,
                           tx_type = txtype_of_byte ty, tx_nonce = nonce,
                           tx_valid_until_height = valid_until, tx_from = from', tx_to = to',
                           tx_token_id = ucast token_id, tx_amount = amount, tx_fee = fee,
                           tx_payload = payload, tx_signature = signature\<rparr>
                     in if Transaction_isWellFormed out then Some out else None)"

definition Transaction_serializedSize :: "transaction \<Rightarrow> nat" where
  "Transaction_serializedSize tx =
     2 + 8 + 1 + 8 + 8 + 32 + 32 + 4 + 8 + 8 + 4 + length (tx_payload tx) + 64"

section \<open>Receipts\<close>

datatype ReceiptStatus = Success | Failure | Status_raw u8

definition status_byte :: "ReceiptStatus \<Rightarrow> u8" where
  "status_byte s = (case s of Success \<Rightarrow> 0 | Failure \<Rightarrow> 1 | Status_raw b \<Rightarrow> b)"

definition status_of_byte :: "u8 \<Rightarrow> ReceiptStatus" where
  "status_of_byte b = (if b = 0 then Success else if b = 1 then Failure else Status_raw b)"

record receipt =
  rcpt_status :: ReceiptStatus
  rcpt_fee_paid :: u64
  rcpt_fills :: "fill list"

definition Receipt_isValid :: "receipt \<Rightarrow> bool" where
  "Receipt_isValid r = (rcpt_status r = Success \<or> rcpt_status r = Failure)"

definition Receipt_STATE_SIZE :: nat where "Receipt_STATE_SIZE = 1 + 8"
definition MAX_FILLS_PER_RECEIPT :: nat where "MAX_FILLS_PER_RECEIPT = MAX_BOOK_LEVELS_PER_TAKER"

definition Receipt_serializeState :: "receipt \<Rightarrow> bytes" where
  "Receipt_serializeState r =
     (let out = [status_byte (rcpt_status r)];
          out = foldl (\<lambda>out i. out @ [ucast (drop_bit (i * 8) (rcpt_fee_paid r))]) out [0..<8];
          count = (of_nat (length (rcpt_fills r)) :: u32);
          out = out @ [ucast count, ucast (drop_bit 8 count), ucast (drop_bit 16 count), ucast (drop_bit 24 count)]
      in foldl (\<lambda>out f. out @ Fill_serializeState f) out (rcpt_fills r))"

fun read_fills :: "nat \<Rightarrow> bytes \<Rightarrow> fill list option" where
  "read_fills 0 data = Some []"
| "read_fills (Suc n) data =
     (case Fill_deserializeState (take Fill_STATE_SIZE data) of
        None \<Rightarrow> None
      | Some f \<Rightarrow> (case read_fills n (drop Fill_STATE_SIZE data) of
                     None \<Rightarrow> None | Some fs \<Rightarrow> Some (f # fs)))"

definition Receipt_deserializeState :: "bytes \<Rightarrow> receipt option" where
  "Receipt_deserializeState data =
     (if length data = Receipt_STATE_SIZE
      then let out = \<lparr>rcpt_status = status_of_byte (data ! 0), rcpt_fee_paid = readU64 (drop 1 data),
                      rcpt_fills = []\<rparr>
           in if Receipt_isValid out then Some out else None
      else if length data < Receipt_STATE_SIZE + 4 then None
      else
        let count = unat (readU32 (drop 9 data))
        in if count > MAX_FILLS_PER_RECEIPT then None
           else if length data \<noteq> Receipt_STATE_SIZE + 4 + count * Fill_STATE_SIZE then None
           else (case read_fills count (drop (Receipt_STATE_SIZE + 4) data) of
                   None \<Rightarrow> None
                 | Some fills \<Rightarrow>
                     let out = \<lparr>rcpt_status = status_of_byte (data ! 0),
                           rcpt_fee_paid = readU64 (drop 1 data), rcpt_fills = fills\<rparr>
                     in if Receipt_isValid out then Some out else None))"

section \<open>The codecs invert\<close>

lemma txtype_of_byte_byte: "txtype_byte (txtype_of_byte b) = b"
proof (cases "map_of (map (\<lambda>(t, c). (c, t)) txtype_table) b")
  case None
  then show ?thesis by (simp add: txtype_of_byte_def txtype_byte_def)
next
  case (Some t)
  then have "(b, t) \<in> set (map (\<lambda>(t, c). (c, t)) txtype_table)" by (rule map_of_SomeD)
  then have "(t, b) \<in> set txtype_table" by auto
  then show ?thesis unfolding txtype_of_byte_def Some
    by (auto simp: txtype_table_def txtype_byte_def)
qed

lemma txtype_byte_inj:
  assumes "txtype_canonical s" "txtype_canonical t" "txtype_byte s = txtype_byte t"
  shows "s = t"
  using assms by (metis txtype_canonical_def)

lemma isSystemTx_iff: "isSystemTx t \<Longrightarrow> \<not> isUserSubmitted t"
  by (simp add: isSystemTx_def isUserSubmitted_def not_less)

definition Transaction_wf :: "transaction \<Rightarrow> bool" where
  "Transaction_wf tx \<longleftrightarrow> Transaction_isWellFormed tx \<and> txtype_canonical (tx_type tx) \<and>
     length (tx_from tx) = 32 \<and> length (tx_to tx) = 32 \<and> fits32 (tx_token_id tx) \<and>
     length (tx_signature tx) = 64"

lemma serializeForSigning_eq:
  "Transaction_serializeForSigning tx =
     writeU16 (tx_version tx) @ writeU64 (tx_chain_id tx) @ [txtype_byte (tx_type tx)] @
     writeU64 (tx_nonce tx) @ writeU64 (tx_valid_until_height tx) @ take 32 (tx_from tx) @
     take 32 (tx_to tx) @ writeU32 (ucast (tx_token_id tx)) @ writeU64 (tx_amount tx) @
     writeU64 (tx_fee tx) @ writeU32 (of_nat (length (tx_payload tx))) @ tx_payload tx"
  by (simp add: Transaction_serializeForSigning_def run_writer_Cons)

lemma rd_vector_wr [codec_simps]:
  "length p = n \<Longrightarrow>
     rd_vector n \<lparr>rd_rest = p @ q, rd_error = e\<rparr> = (p, \<lparr>rd_rest = q, rd_error = e\<rparr>)"
  by (simp add: rd_vector_def rd_remaining_def)

lemma payload_length:
  "Transaction_isWellFormed tx \<Longrightarrow> unat (of_nat (length (tx_payload tx)) :: u32) = length (tx_payload tx)"
  by (rule unat_of_nat_small) (auto simp: Transaction_isWellFormed_def TX_MAX_PAYLOAD_SIZE_def split: if_splits)

lemma Transaction_codec:
  assumes "Transaction_wf tx"
  shows "Transaction_deserialize (Transaction_serialize tx) = Some tx"
proof -
  have wf: "Transaction_isWellFormed tx" and small: "length (tx_payload tx) \<le> TX_MAX_PAYLOAD_SIZE"
    using assms by (auto simp: Transaction_wf_def Transaction_isWellFormed_def split: if_splits)
  show ?thesis
    using assms small payload_length [OF wf] wf
    by (cases tx) (simp add: Transaction_deserialize_def Transaction_serialize_def serializeForSigning_eq
        putBytes_def Transaction_wf_def txtype_canonical_def ucast_fits32 codec_simps Let_def)
qed

interpretation tx_codec: state_codec Transaction_serialize Transaction_deserialize Transaction_wf
  by unfold_locales (rule Transaction_codec)

lemma length_Transaction_serialize:
  "Transaction_wf tx \<Longrightarrow> length (Transaction_serialize tx) = Transaction_serializedSize tx"
  by (simp add: Transaction_serialize_def serializeForSigning_eq putBytes_def Transaction_wf_def
      Transaction_serializedSize_def)

text \<open>What is signed determines every field but the signature.\<close>

lemma isWellFormed_signature [simp]:
  "Transaction_isWellFormed (t\<lparr>tx_signature := s\<rparr>) = Transaction_isWellFormed t"
  by (simp add: Transaction_isWellFormed_def)

lemma serializeForSigning_inj:
  assumes "Transaction_wf t" "Transaction_wf u"
    and "Transaction_serializeForSigning t = Transaction_serializeForSigning u"
  shows "t\<lparr>tx_signature := tx_signature u\<rparr> = u"
proof -
  let ?t = "t\<lparr>tx_signature := tx_signature u\<rparr>"
  have eq: "Transaction_serialize ?t = Transaction_serialize u"
    using assms(3) by (simp add: Transaction_serialize_def serializeForSigning_eq)
  have "Transaction_wf ?t"
    using assms(1,2) by (simp add: Transaction_wf_def)
  then show ?thesis using tx_codec.encode_inj [OF _ assms(2) eq] by blast
qed

lemma foldl_append_concat: "foldl (\<lambda>out f. out @ g f) out xs = out @ concat (map g xs)"
  by (induction xs arbitrary: out) auto

lemma Receipt_serializeState_eq:
  "Receipt_serializeState r = status_byte (rcpt_status r) # writeU64 (rcpt_fee_paid r) @
     writeU32 (of_nat (length (rcpt_fills r))) @ concat (map Fill_serializeState (rcpt_fills r))"
  unfolding Receipt_serializeState_def Let_def foldl_append_concat foldl_snoc
  by (simp add: writeU64_def writeU32_def)

lemma length_Fill_serializeState [simp]: "length (Fill_serializeState f) = Fill_STATE_SIZE"
  by (simp add: Fill_serializeState_eq Fill_STATE_SIZE_def)

lemma length_concat_fills: "length (concat (map Fill_serializeState fs)) = length fs * Fill_STATE_SIZE"
  by (induction fs) simp_all

lemma read_fills_write:
  "list_all Fill_wf fs \<Longrightarrow> read_fills (length fs) (concat (map Fill_serializeState fs)) = Some fs"
  by (induction fs) (simp_all add: Fill_codec)

definition Receipt_wf :: "receipt \<Rightarrow> bool" where
  "Receipt_wf r \<longleftrightarrow> Receipt_isValid r \<and> length (rcpt_fills r) \<le> MAX_FILLS_PER_RECEIPT \<and> list_all Fill_wf (rcpt_fills r)"

lemma Receipt_codec:
  assumes "Receipt_wf r"
  shows "Receipt_deserializeState (Receipt_serializeState r) = Some r"
proof -
  have small: "length (rcpt_fills r) \<le> 256"
    using assms by (simp add: Receipt_wf_def MAX_FILLS_PER_RECEIPT_def MAX_BOOK_LEVELS_PER_TAKER_def)
  have cnt: "unat (of_nat (length (rcpt_fills r)) :: u32) = length (rcpt_fills r)"
    by (rule unat_of_nat_small) (use small in simp)
  have st: "status_of_byte (status_byte (rcpt_status r)) = rcpt_status r"
    using assms by (auto simp: Receipt_wf_def Receipt_isValid_def status_of_byte_def status_byte_def)
  have d9: "drop 9 (Receipt_serializeState r) = writeU32 (of_nat (length (rcpt_fills r))) @
      concat (map Fill_serializeState (rcpt_fills r))"
    by (simp add: Receipt_serializeState_eq)
  have d13: "drop 13 (Receipt_serializeState r) = concat (map Fill_serializeState (rcpt_fills r))"
    by (simp add: Receipt_serializeState_eq)
  have hd: "Receipt_serializeState r ! 0 = status_byte (rcpt_status r)"
      "readU64 (drop (Suc 0) (Receipt_serializeState r)) = rcpt_fee_paid r"
    by (simp_all add: Receipt_serializeState_eq codec_simps)
  have len: "length (Receipt_serializeState r) = 13 + length (rcpt_fills r) * Fill_STATE_SIZE"
    by (simp add: Receipt_serializeState_eq length_concat_fills)
  show ?thesis
    using assms read_fills_write [of "rcpt_fills r"]
    by (simp add: Receipt_deserializeState_def Receipt_STATE_SIZE_def len d9 d13 hd st cnt codec_simps
        Receipt_wf_def Receipt_isValid_def Let_def)
qed

interpretation receipt_codec: state_codec Receipt_serializeState Receipt_deserializeState Receipt_wf
  by unfold_locales (rule Receipt_codec)

end
