(* ===== verification/State_Amm.thy ===== *)
theory State_Amm
  imports Ledger Transactions
begin

text \<open>
  Pools, liquidity positions, the owner's position index and receipts in the state
  (\<^verbatim>\<open>src/State/StateAccess.cpp\<close>), and the reserves of the pools as a part of the ledger.
\<close>

section \<open>Pools\<close>

definition getAmmPool :: "id \<Rightarrow> db \<Rightarrow> amm_pool option" where
  "getAmmPool pid d = smt_typed AmmPool_deserializeState (Keys_ammPool (db_hash d) pid) d"

definition pool_token_key :: "id \<Rightarrow> id \<Rightarrow> bytes" where
  "pool_token_key token pid = writeU32 (ucast token) @ writeU64 pid"

definition indexAmmPoolRow :: "id \<Rightarrow> id \<Rightarrow> id \<Rightarrow> db \<Rightarrow> db" where
  "indexAmmPoolRow pid token_a token_b d =
     (case getAmmPool pid d of
        None \<Rightarrow> d
      | Some pool \<Rightarrow>
          putSentinel TBL_INDEX_POOLS_BY_TOKEN (pool_token_key token_b pid)
            (putSentinel TBL_INDEX_POOLS_BY_TOKEN (pool_token_key token_a pid)
              (putBlobRow TBL_AMM_POOLS (writeU64 pid) (AmmPool_serializeState pool) d)))"

definition unindexAmmPoolRow :: "id \<Rightarrow> id \<Rightarrow> id \<Rightarrow> db \<Rightarrow> db" where
  "unindexAmmPoolRow pid token_a token_b d =
     deleteRow TBL_INDEX_POOLS_BY_TOKEN (pool_token_key token_b pid)
       (deleteRow TBL_INDEX_POOLS_BY_TOKEN (pool_token_key token_a pid)
         (deleteRow TBL_AMM_POOLS (writeU64 pid) d))"

definition putAmmPool :: "amm_pool \<Rightarrow> db \<Rightarrow> db" where
  "putAmmPool pool d =
     indexAmmPoolRow (pool_id pool) (pool_token_a pool) (pool_token_b pool)
       (smt_update (Keys_ammPool (db_hash d) (pool_id pool)) (AmmPool_serializeState pool) d)"

definition deleteAmmPool :: "id \<Rightarrow> db \<Rightarrow> db" where
  "deleteAmmPool pid d =
     (let have_pool = getAmmPool pid d;
          d = smt_remove (Keys_ammPool (db_hash d) pid) d
      in case have_pool of
           None \<Rightarrow> d
         | Some pool \<Rightarrow> unindexAmmPoolRow pid (pool_token_a pool) (pool_token_b pool) d)"

definition forEachAmmPool :: "(amm_pool \<Rightarrow> 's \<Rightarrow> 's) \<Rightarrow> db \<Rightarrow> 's \<Rightarrow> 's" where
  "forEachAmmPool fn d s =
     Txn_forEach TBL_AMM_POOLS
       (\<lambda>key v s. if length key \<noteq> 8 then (True, s)
                  else (case AmmPool_deserializeState v of
                          None \<Rightarrow> (True, s)
                        | Some pool \<Rightarrow> (True, fn pool s))) d s"

definition forEachPoolForToken :: "id \<Rightarrow> (amm_pool \<Rightarrow> 's \<Rightarrow> 's) \<Rightarrow> db \<Rightarrow> 's \<Rightarrow> 's" where
  "forEachPoolForToken token_id fn d s =
     Txn_forEachWithPrefix TBL_INDEX_POOLS_BY_TOKEN (writeU32 (ucast token_id))
       (\<lambda>key v s. if length key \<noteq> 12 then (True, s)
                  else (case getAmmPool (readU64 (drop 4 key)) d of
                          None \<Rightarrow> (True, s)
                        | Some pool \<Rightarrow> (True, fn pool s))) d s"

section \<open>Positions\<close>

definition getAmmPosition :: "id \<Rightarrow> db \<Rightarrow> amm_position option" where
  "getAmmPosition pid d = smt_typed AmmPosition_deserializeState (Keys_ammPosition (db_hash d) pid) d"

definition position_owner_key :: "address \<Rightarrow> id \<Rightarrow> bytes" where
  "position_owner_key owner pid = take 32 owner @ writeU64 pid"

definition indexAmmPositionRow :: "id \<Rightarrow> address \<Rightarrow> db \<Rightarrow> db" where
  "indexAmmPositionRow pid owner d =
     (case getAmmPosition pid d of
        None \<Rightarrow> d
      | Some pos \<Rightarrow>
          putU64Row TBL_INDEX_POSITIONS_BY_OWNER (position_owner_key owner pid) (pos_pool_id pos)
            (putBlobRow TBL_AMM_POSITIONS (writeU64 pid) (AmmPosition_serializeState pos) d))"

definition unindexAmmPositionRow :: "id \<Rightarrow> address \<Rightarrow> db \<Rightarrow> db" where
  "unindexAmmPositionRow pid owner d =
     deleteRow TBL_INDEX_POSITIONS_BY_OWNER (position_owner_key owner pid)
       (deleteRow TBL_AMM_POSITIONS (writeU64 pid) d)"

definition putAmmPosition :: "amm_position \<Rightarrow> db \<Rightarrow> db" where
  "putAmmPosition pos d =
     indexAmmPositionRow (pos_id pos) (pos_owner pos)
       (smt_update (Keys_ammPosition (db_hash d) (pos_id pos)) (AmmPosition_serializeState pos) d)"

definition deleteAmmPosition :: "id \<Rightarrow> db \<Rightarrow> db" where
  "deleteAmmPosition pid d =
     (let have_pos = getAmmPosition pid d;
          d = smt_remove (Keys_ammPosition (db_hash d) pid) d
      in case have_pos of None \<Rightarrow> d | Some pos \<Rightarrow> unindexAmmPositionRow pid (pos_owner pos) d)"

definition forEachAmmPosition :: "(amm_position \<Rightarrow> 's \<Rightarrow> 's) \<Rightarrow> db \<Rightarrow> 's \<Rightarrow> 's" where
  "forEachAmmPosition fn d s =
     Txn_forEach TBL_AMM_POSITIONS
       (\<lambda>key v s. if length key \<noteq> 8 then (True, s)
                  else (case AmmPosition_deserializeState v of
                          None \<Rightarrow> (True, s)
                        | Some pos \<Rightarrow> (True, fn pos s))) d s"

definition forEachPositionForOwner :: "address \<Rightarrow> (amm_position \<Rightarrow> 's \<Rightarrow> 's) \<Rightarrow> db \<Rightarrow> 's \<Rightarrow> 's" where
  "forEachPositionForOwner owner fn d s =
     Txn_forEachWithPrefix TBL_INDEX_POSITIONS_BY_OWNER owner
       (\<lambda>key v s. if length key \<noteq> 40 then (True, s)
                  else (case getAmmPosition (readU64 (drop 32 key)) d of
                          None \<Rightarrow> (True, s)
                        | Some pos \<Rightarrow> (True, fn pos s))) d s"

section \<open>Position index and receipts\<close>

definition getPositionIndex :: "address \<Rightarrow> u64 \<Rightarrow> db \<Rightarrow> u64 option" where
  "getPositionIndex owner pid d =
     (case smt_get (Keys_ammPositionIndex (db_hash d) owner pid) d of
        None \<Rightarrow> None
      | Some v \<Rightarrow> if length v \<noteq> 8 then None else Some (readU64 v))"

definition putPositionIndex :: "address \<Rightarrow> u64 \<Rightarrow> u64 \<Rightarrow> db \<Rightarrow> db" where
  "putPositionIndex owner pid position_id d =
     smt_update (Keys_ammPositionIndex (db_hash d) owner pid) (writeU64 position_id) d"

definition deletePositionIndex :: "address \<Rightarrow> u64 \<Rightarrow> db \<Rightarrow> db" where
  "deletePositionIndex owner pid d = smt_remove (Keys_ammPositionIndex (db_hash d) owner pid) d"

definition getReceipt :: "hash \<Rightarrow> db \<Rightarrow> receipt option" where
  "getReceipt tx_hash d = smt_typed Receipt_deserializeState (Keys_receipt (db_hash d) tx_hash) d"

definition putReceipt :: "hash \<Rightarrow> receipt \<Rightarrow> db \<Rightarrow> db" where
  "putReceipt tx_hash r d = smt_update (Keys_receipt (db_hash d) tx_hash) (Receipt_serializeState r) d"

section \<open>What the operations write\<close>

lemma index_amm_frame [simp]:
  "smt_get k (indexAmmPoolRow p a b d) = smt_get k d" "db_hash (indexAmmPoolRow p a b d) = db_hash d"
  "db_version (indexAmmPoolRow p a b d) = db_version d" "db_ok d \<Longrightarrow> db_ok (indexAmmPoolRow p a b d)"
  "smt_get k (unindexAmmPoolRow p a b d) = smt_get k d" "db_hash (unindexAmmPoolRow p a b d) = db_hash d"
  "db_version (unindexAmmPoolRow p a b d) = db_version d" "db_ok d \<Longrightarrow> db_ok (unindexAmmPoolRow p a b d)"
  "smt_get k (indexAmmPositionRow p w d) = smt_get k d" "db_hash (indexAmmPositionRow p w d) = db_hash d"
  "db_version (indexAmmPositionRow p w d) = db_version d" "db_ok d \<Longrightarrow> db_ok (indexAmmPositionRow p w d)"
  "smt_get k (unindexAmmPositionRow p w d) = smt_get k d" "db_hash (unindexAmmPositionRow p w d) = db_hash d"
  "db_version (unindexAmmPositionRow p w d) = db_version d" "db_ok d \<Longrightarrow> db_ok (unindexAmmPositionRow p w d)"
  by (simp_all add: indexAmmPoolRow_def unindexAmmPoolRow_def indexAmmPositionRow_def
      unindexAmmPositionRow_def split: option.split)

lemma amm_fields [simp]:
  "db_hash (putAmmPool p d) = db_hash d" "db_version (putAmmPool p d) = db_version d"
  "db_ok d \<Longrightarrow> db_ok (putAmmPool p d)"
  "db_hash (deleteAmmPool i d) = db_hash d" "db_version (deleteAmmPool i d) = db_version d"
  "db_ok d \<Longrightarrow> db_ok (deleteAmmPool i d)"
  "db_hash (putAmmPosition q d) = db_hash d" "db_version (putAmmPosition q d) = db_version d"
  "db_ok d \<Longrightarrow> db_ok (putAmmPosition q d)"
  "db_hash (deleteAmmPosition i d) = db_hash d" "db_version (deleteAmmPosition i d) = db_version d"
  "db_ok d \<Longrightarrow> db_ok (deleteAmmPosition i d)"
  "db_hash (putPositionIndex w i j d) = db_hash d" "db_version (putPositionIndex w i j d) = db_version d"
  "db_ok d \<Longrightarrow> db_ok (putPositionIndex w i j d)"
  "db_hash (deletePositionIndex w i d) = db_hash d" "db_version (deletePositionIndex w i d) = db_version d"
  "db_ok d \<Longrightarrow> db_ok (deletePositionIndex w i d)"
  "db_hash (putReceipt h r d) = db_hash d" "db_version (putReceipt h r d) = db_version d"
  "db_ok d \<Longrightarrow> db_ok (putReceipt h r d)"
  by (simp_all add: putAmmPool_def deleteAmmPool_def putAmmPosition_def deleteAmmPosition_def
      putPositionIndex_def deletePositionIndex_def putReceipt_def Let_def split: option.split)

lemma amm_keys_ok [simp]:
  assumes "keys_ok K d"
  shows "keys_ok K (putAmmPool p d)" "keys_ok K (deleteAmmPool i d)" "keys_ok K (putAmmPosition q d)"
    "keys_ok K (deleteAmmPosition i d)" "keys_ok K (putPositionIndex w i j d)"
    "keys_ok K (deletePositionIndex w i d)" "keys_ok K (putReceipt h r d)"
  using assms keys_okD [OF assms] by (auto intro: keys_ok_cong)

lemma amm_smt:
  "smt_get k (putAmmPool p d) =
     (if k = skey_of (db_hash d) (KAmmPool (pool_id p)) then Some (AmmPool_serializeState p) else smt_get k d)"
  "smt_get k (deleteAmmPool i d) = (if k = skey_of (db_hash d) (KAmmPool i) then None else smt_get k d)"
  "smt_get k (putAmmPosition q d) =
     (if k = skey_of (db_hash d) (KAmmPosition (pos_id q)) then Some (AmmPosition_serializeState q) else smt_get k d)"
  "smt_get k (deleteAmmPosition i d) = (if k = skey_of (db_hash d) (KAmmPosition i) then None else smt_get k d)"
  "smt_get k (putPositionIndex w i j d) =
     (if k = skey_of (db_hash d) (KAmmPositionIndex w i) then Some (writeU64 j) else smt_get k d)"
  "smt_get k (deletePositionIndex w i d) =
     (if k = skey_of (db_hash d) (KAmmPositionIndex w i) then None else smt_get k d)"
  by (simp_all add: putAmmPool_def deleteAmmPool_def putAmmPosition_def deleteAmmPosition_def
      putPositionIndex_def deletePositionIndex_def Let_def Keys_skey split: option.split)

lemma leaf_amm:
  assumes "keys_ok K d" "k \<in> K"
  shows "KAmmPool (pool_id p) \<in> K \<Longrightarrow> leaf k (putAmmPool p d) =
      (if k = KAmmPool (pool_id p) then Some (AmmPool_serializeState p) else leaf k d)"
    "KAmmPool i \<in> K \<Longrightarrow> leaf k (deleteAmmPool i d) = (if k = KAmmPool i then None else leaf k d)"
    "KAmmPosition (pos_id q) \<in> K \<Longrightarrow> leaf k (putAmmPosition q d) =
      (if k = KAmmPosition (pos_id q) then Some (AmmPosition_serializeState q) else leaf k d)"
    "KAmmPosition i \<in> K \<Longrightarrow> leaf k (deleteAmmPosition i d) = (if k = KAmmPosition i then None else leaf k d)"
    "KAmmPositionIndex w i \<in> K \<Longrightarrow> leaf k (putPositionIndex w i j d) =
      (if k = KAmmPositionIndex w i then Some (writeU64 j) else leaf k d)"
    "KAmmPositionIndex w i \<in> K \<Longrightarrow> leaf k (deletePositionIndex w i d) =
      (if k = KAmmPositionIndex w i then None else leaf k d)"
  using assms by (simp_all add: leaf_def amm_smt keys_eq)

lemma getAmmPool_leaf:
  "getAmmPool i d = (case leaf (KAmmPool i) d of None \<Rightarrow> None | Some v \<Rightarrow> AmmPool_deserializeState v)"
  by (simp add: getAmmPool_def leaf_def smt_typed_alt Keys_skey)

lemma getAmmPosition_leaf:
  "getAmmPosition i d = (case leaf (KAmmPosition i) d of None \<Rightarrow> None | Some v \<Rightarrow> AmmPosition_deserializeState v)"
  by (simp add: getAmmPosition_def leaf_def smt_typed_alt Keys_skey)

lemma getPositionIndex_leaf:
  "getPositionIndex w i d = (case leaf (KAmmPositionIndex w i) d of
     None \<Rightarrow> None | Some v \<Rightarrow> if length v \<noteq> 8 then None else Some (readU64 v))"
  by (simp add: getPositionIndex_def leaf_def Keys_skey)

lemma getAmmPool_wf: "getAmmPool i d = Some p \<Longrightarrow> AmmPool_wf p"
  by (auto simp: getAmmPool_leaf dest: AmmPool_deserialize_wf split: option.splits)

lemma getAmmPosition_wf: "getAmmPosition i d = Some p \<Longrightarrow> AmmPosition_wf p"
  by (auto simp: getAmmPosition_leaf dest: AmmPosition_deserialize_wf split: option.splits)

lemma getOrder_wf: "getOrder i d = Some o' \<Longrightarrow> Order_wf o'"
  by (auto simp: getOrder_leaf dest: Order_deserialize_wf split: option.splits)

section \<open>Pools and positions as object tables\<close>

interpretation pools: object_table AmmPool_serializeState AmmPool_deserializeState
    AmmPool_wf TBL_AMM_POOLS 8 writeU64 pool_id getAmmPool
  by unfold_locales (simp_all add: key_simps)

interpretation positions: object_table AmmPosition_serializeState AmmPosition_deserializeState
    AmmPosition_wf TBL_AMM_POSITIONS 8 writeU64 pos_id getAmmPosition
  by unfold_locales (simp_all add: key_simps)

abbreviation pools_mirror :: "id set \<Rightarrow> db \<Rightarrow> bool" where
  "pools_mirror \<equiv> mirror TBL_AMM_POOLS writeU64 AmmPool_serializeState AmmPool_wf pool_id getAmmPool"

lemma getAmmPool_put:
  assumes "keys_ok K d" "{KAmmPool i, KAmmPool (pool_id p)} \<subseteq> K" "AmmPool_wf p"
  shows "getAmmPool i (putAmmPool p d) = (if i = pool_id p then Some p else getAmmPool i d)"
  using assms by (simp add: getAmmPool_leaf leaf_amm AmmPool_codec)

lemma getAmmPool_delete:
  assumes "keys_ok K d" "{KAmmPool i, KAmmPool j} \<subseteq> K"
  shows "getAmmPool i (deleteAmmPool j d) = (if i = j then None else getAmmPool i d)"
  using assms by (simp add: getAmmPool_leaf leaf_amm)

lemma getAmmPosition_put:
  assumes "keys_ok K d" "{KAmmPosition i, KAmmPosition (pos_id p)} \<subseteq> K" "AmmPosition_wf p"
  shows "getAmmPosition i (putAmmPosition p d) = (if i = pos_id p then Some p else getAmmPosition i d)"
  using assms by (simp add: getAmmPosition_leaf leaf_amm AmmPosition_codec)

lemma putAmmPool_mirror:
  assumes "keys_ok (KAmmPool ` I) d" "pools_mirror I d" "AmmPool_wf p" "pool_id p \<in> I"
  shows "pools_mirror I (putAmmPool p d)"
proof (rule pools.mirror_put [OF assms(2-4)])
  show "rows_ok (tab TBL_AMM_POOLS d)" using keys_okD [OF assms(1)] by (rule rows_ok_tab)
  show "getAmmPool i (putAmmPool p d) = (if i = pool_id p then Some p else getAmmPool i d)" if "i \<in> I" for i
    using assms that by (intro getAmmPool_put) auto
  have "getAmmPool (pool_id p) (smt_update (Keys_ammPool (db_hash d) (pool_id p)) (AmmPool_serializeState p) d) = Some p"
    using assms(3) by (simp add: getAmmPool_def smt_typed_alt AmmPool_codec)
  then show "tab TBL_AMM_POOLS (putAmmPool p d) =
      rows_put (writeU64 (pool_id p)) (AmmPool_serializeState p) (tab TBL_AMM_POOLS d)"
    by (simp add: putAmmPool_def indexAmmPoolRow_def)
qed

lemma rows_del_absent: "rows_get k t = None \<Longrightarrow> rows_del k t = t"
  by (induction k t rule: rows_del.induct) (simp_all split: if_splits)

lemma deleteAmmPool_mirror:
  assumes "keys_ok (KAmmPool ` I) d" "pools_mirror I d" "j \<in> I"
  shows "pools_mirror I (deleteAmmPool j d)"
proof (rule pools.mirror_del [OF assms(2)])
  have ok: "rows_ok (tab TBL_AMM_POOLS d)" using keys_okD [OF assms(1)] by (rule rows_ok_tab)
  show "rows_ok (tab TBL_AMM_POOLS d)" by (rule ok)
  show "getAmmPool i (deleteAmmPool j d) = (if i = j then None else getAmmPool i d)" if "i \<in> I" for i
    using assms that by (intro getAmmPool_delete [OF assms(1)]) auto
  show "tab TBL_AMM_POOLS (deleteAmmPool j d) = rows_del (writeU64 j) (tab TBL_AMM_POOLS d)"
  proof (cases "getAmmPool j d")
    case None
    then have "rows_get (writeU64 j) (tab TBL_AMM_POOLS d) = None" using assms(2,3) by (simp add: mirror_def)
    then show ?thesis using None by (simp add: deleteAmmPool_def Let_def rows_del_absent)
  next
    case (Some p)
    then show ?thesis by (simp add: deleteAmmPool_def Let_def unindexAmmPoolRow_def)
  qed
qed

end
