(* ===== verification/Exec_Base.thy ===== *)
theory Exec_Base
  imports State_Amm Amm_Router
begin

text \<open>
  What the transaction handlers share (\<^verbatim>\<open>src/Core/TransactionExecutor.cpp\<close>): the execution
  context, the helpers of the anonymous namespace, the checks and the fee of \<^verbatim>\<open>execute\<close>, and the
  counters that name new objects.
\<close>

record tx_context =
  ctx_current_height :: u64
  ctx_chain_id :: u64
  ctx_tx_index_in_block :: u64

definition failure :: "transaction \<Rightarrow> receipt" where
  "failure tx = \<lparr>rcpt_status = Failure, rcpt_fee_paid = tx_fee tx, rcpt_fills = []\<rparr>"

definition success :: "transaction \<Rightarrow> receipt" where
  "success tx = \<lparr>rcpt_status = Success, rcpt_fee_paid = tx_fee tx, rcpt_fills = []\<rparr>"

section \<open>Integer square root\<close>

function isqrt_loop :: "u128 \<Rightarrow> u128 \<Rightarrow> u128 \<Rightarrow> u128" where
  "isqrt_loop n lo hi =
     (if hi - lo > 1
      then let mid = lo + (hi - lo) div 2
           in if mid * mid \<le> n then isqrt_loop n mid hi else isqrt_loop n lo mid
      else lo)"
  by pat_completeness auto

lemma half_less:
  assumes "(1 :: u128) < w"
  shows "unat (w div 2) < unat w" "unat (w - w div 2) < unat w"
proof -
  have h: "unat (w div 2) = unat w div 2" by (simp add: unat_div)
  have w: "1 < unat w" using assms by (simp add: word_less_nat_alt)
  show "unat (w div 2) < unat w" using h w by linarith
  have "w div 2 \<le> w" using h by (simp add: word_le_nat_alt)
  then have "unat (w - w div 2) = unat w - unat w div 2" using h by (simp add: unat_sub_le)
  then show "unat (w - w div 2) < unat w" using w by linarith
qed

termination isqrt_loop
proof (relation "measure (\<lambda>(n, lo, hi). unat (hi - lo))")
  fix n lo hi mid :: u128
  assume *: "1 < hi - lo" "mid = lo + (hi - lo) div 2"
  show "((n, mid, hi), n, lo, hi) \<in> measure (\<lambda>(n, lo, hi). unat (hi - lo))"
    using half_less(2) [OF *(1)] *(2) by (simp add: algebra_simps)
  show "((n, lo, mid), n, lo, hi) \<in> measure (\<lambda>(n, lo, hi). unat (hi - lo))"
    using half_less(1) [OF *(1)] *(2) by simp
qed simp

declare isqrt_loop.simps [simp del]

definition isqrt128 :: "u128 \<Rightarrow> u64" where
  "isqrt128 n = (if n = 0 then 0 else ucast (isqrt_loop n 0 (push_bit 64 1)))"

text \<open>The loop keeps \<open>lo\<^sup>2 \<le> n < hi\<^sup>2\<close> and stops when the two bounds are adjacent.\<close>

lemma isqrt_loop_bounds:
  assumes "unat lo < unat hi" "unat hi \<le> 2 ^ 64" "(unat lo)\<^sup>2 \<le> unat n" "unat n < (unat hi)\<^sup>2"
  shows "(unat (isqrt_loop n lo hi))\<^sup>2 \<le> unat n \<and> unat n < (unat (isqrt_loop n lo hi) + 1)\<^sup>2"
  using assms
proof (induction n lo hi rule: isqrt_loop.induct)
  case (1 n lo hi)
  have le: "lo \<le> hi" using "1.prems" by (simp add: word_le_nat_alt)
  have w: "unat (hi - lo) = unat hi - unat lo" using le by (rule unat_sub_le)
  show ?case
  proof (cases "1 < hi - lo")
    case False
    then have "unat hi = unat lo + 1" using w "1.prems" by (simp add: word_less_nat_alt)
    then show ?thesis using False "1.prems" by (simp add: isqrt_loop.simps)
  next
    case True
    let ?mid = "lo + (hi - lo) div 2"
    have half: "unat ((hi - lo) div 2) = (unat hi - unat lo) div 2" by (simp add: unat_div w)
    have "unat lo + unat ((hi - lo) div 2) < 2 ^ 128" using half "1.prems" by simp
    then have mid: "unat ?mid = unat lo + (unat hi - unat lo) div 2"
      using half by (simp add: unat_add_no_overflow)
    have gt: "1 < unat hi - unat lo" using True w by (simp add: word_less_nat_alt)
    have bounds: "unat lo < unat ?mid" "unat ?mid < unat hi" using gt unfolding mid by linarith+
    have sq: "unat (?mid * ?mid) = (unat ?mid)\<^sup>2"
    proof -
      have "unat ?mid * unat ?mid < 2 ^ 64 * 2 ^ 64"
        using bounds "1.prems" by (intro mult_strict_mono) auto
      then show ?thesis by (simp add: unat_word_ariths power2_eq_square)
    qed
    have test: "?mid * ?mid \<le> n \<longleftrightarrow> (unat ?mid)\<^sup>2 \<le> unat n" by (simp only: word_le_nat_alt sq)
    show ?thesis
    proof (cases "?mid * ?mid \<le> n")
      case le_n: True
      have "isqrt_loop n lo hi = isqrt_loop n ?mid hi"
        using True le_n by (subst isqrt_loop.simps) (simp add: Let_def)
      then show ?thesis using "1.IH"(1) [OF True refl le_n] test le_n bounds "1.prems" by simp
    next
      case gt_n: False
      have "isqrt_loop n lo hi = isqrt_loop n lo ?mid"
        using True gt_n by (subst isqrt_loop.simps) (simp add: Let_def)
      then show ?thesis using "1.IH"(2) [OF True refl gt_n] test gt_n bounds "1.prems" by simp
    qed
  qed
qed

lemma isqrt128_floor:
  "(unat (isqrt128 n))\<^sup>2 \<le> unat n \<and> unat n < (unat (isqrt128 n) + 1)\<^sup>2"
proof (cases "n = 0")
  case True
  then show ?thesis by (simp add: isqrt128_def)
next
  case False
  let ?r = "isqrt_loop n 0 (push_bit 64 1)"
  have hi: "unat (push_bit 64 1 :: u128) = 2 ^ 64" by simp
  have "unat n < (2 ^ 64)\<^sup>2" using unsigned_less [of n, where ?'a = nat] by simp
  then have b: "(unat ?r)\<^sup>2 \<le> unat n \<and> unat n < (unat ?r + 1)\<^sup>2"
    using hi by (intro isqrt_loop_bounds) simp_all
  then have "(unat ?r)\<^sup>2 < (2 ^ 64)\<^sup>2" using \<open>unat n < (2 ^ 64)\<^sup>2\<close> by linarith
  then have "unat ?r < 2 ^ 64" by (rule power_less_imp_less_base) simp
  then have "unat (ucast ?r :: u64) = unat ?r" by (simp add: unsigned_ucast_eq take_bit_nat_eq_self)
  then show ?thesis using b False by (simp add: isqrt128_def)
qed

section \<open>Global counters\<close>

definition readU64GlobalInternal :: "string \<Rightarrow> db \<Rightarrow> u64" where
  "readU64GlobalInternal name d =
     (case getGlobal name d of
        None \<Rightarrow> 0
      | Some b \<Rightarrow> if length b \<noteq> 8 then 0
                  else foldl (\<lambda>v i. v OR push_bit (i * 8) (ucast (b ! i))) 0 [0..<8])"

definition writeU64GlobalInternal :: "string \<Rightarrow> u64 \<Rightarrow> db \<Rightarrow> db" where
  "writeU64GlobalInternal name v d = putGlobal name (map (\<lambda>i. ucast (drop_bit (i * 8) v)) [0..<8]) d"

text \<open>
  The counters of tokens, pools and positions are read into a variable that starts at one: the
  bytes are or-ed onto it.
\<close>

definition counter_from_one :: "string \<Rightarrow> db \<Rightarrow> u64" where
  "counter_from_one name d =
     (let b = (case getGlobal name d of None \<Rightarrow> [] | Some b \<Rightarrow> b)
      in if b = [] then 1
         else foldl (\<lambda>v i. v OR push_bit (i * 8) (ucast (b ! i))) 1 [0..<min 8 (length b)])"

text \<open>The counter of orders starts at zero, and at one when it is absent.\<close>

definition order_counter :: "db \<Rightarrow> u64" where
  "order_counter d =
     (let b = (case getGlobal ''next_order_id'' d of None \<Rightarrow> [] | Some b \<Rightarrow> b)
      in if b = [] then 1
         else foldl (\<lambda>v i. v OR push_bit (i * 8) (ucast (b ! i))) 0 [0..<min 8 (length b)])"

definition validator_counter :: "db \<Rightarrow> u64" where
  "validator_counter d =
     (let b = (case getGlobal ''next_validator_id'' d of
                 None \<Rightarrow> 1 # replicate 7 0 | Some b \<Rightarrow> b)
      in foldl (\<lambda>v i. v OR push_bit (i * 8) (ucast (b ! i))) 0 [0..<min 8 (length b)])"

section \<open>Debit and credit\<close>

definition debitToken :: "address \<Rightarrow> id \<Rightarrow> u64 \<Rightarrow> db \<Rightarrow> bool \<times> db" where
  "debitToken addr token_id amount d =
     (if token_id = NATIVE_TOKEN_ID
      then let acct = getAccount addr d
           in if acct_balance acct < amount then (False, d)
              else (True, putAccount addr (acct\<lparr>acct_balance := acct_balance acct - amount\<rparr>) d)
      else let cur = getTokenBalance addr token_id d
           in if cur < amount then (False, d)
              else (True, putTokenBalance addr token_id (cur - amount) d))"

definition creditToken :: "address \<Rightarrow> id \<Rightarrow> u64 \<Rightarrow> db \<Rightarrow> db" where
  "creditToken addr token_id amount d =
     (if amount = 0 then d
      else if token_id = NATIVE_TOKEN_ID
      then let acct = getAccount addr d
           in putAccount addr (acct\<lparr>acct_balance := acct_balance acct + amount\<rparr>) d
      else let cur = getTokenBalance addr token_id d
           in putTokenBalance addr token_id (cur + amount) d)"

text \<open>
  The pool and order handlers spell the same three steps out in place: test a balance, take from
  it, add to it.
\<close>

definition lacks :: "address \<Rightarrow> id \<Rightarrow> u64 \<Rightarrow> db \<Rightarrow> bool" where
  "lacks addr token_id amount d =
     (if token_id = NATIVE_TOKEN_ID then acct_balance (getAccount addr d) < amount
      else getTokenBalance addr token_id d < amount)"

definition take_funds :: "address \<Rightarrow> id \<Rightarrow> u64 \<Rightarrow> db \<Rightarrow> db" where
  "take_funds addr token_id amount d =
     (if token_id = NATIVE_TOKEN_ID
      then let acct = getAccount addr d
           in putAccount addr (acct\<lparr>acct_balance := acct_balance acct - amount\<rparr>) d
      else let cur = getTokenBalance addr token_id d
           in putTokenBalance addr token_id (cur - amount) d)"

definition give_funds :: "address \<Rightarrow> id \<Rightarrow> u64 \<Rightarrow> db \<Rightarrow> db" where
  "give_funds addr token_id amount d =
     (if token_id = NATIVE_TOKEN_ID
      then let acct = getAccount addr d
           in putAccount addr (acct\<lparr>acct_balance := acct_balance acct + amount\<rparr>) d
      else let cur = getTokenBalance addr token_id d
           in putTokenBalance addr token_id (cur + amount) d)"

definition readU32At :: "bytes \<Rightarrow> nat \<Rightarrow> u32" where
  "readU32At p off = ucast (p ! off) OR push_bit 8 (ucast (p ! (off + 1))) OR
     push_bit 16 (ucast (p ! (off + 2))) OR push_bit 24 (ucast (p ! (off + 3)))"

definition readU64At :: "bytes \<Rightarrow> nat \<Rightarrow> u64" where
  "readU64At p off = foldl (\<lambda>v i. v OR push_bit (i * 8) (ucast (p ! (off + i)))) 0 [0..<8]"

definition readU16At :: "bytes \<Rightarrow> nat \<Rightarrow> u16" where
  "readU16At p off = ucast (p ! off) OR push_bit 8 (ucast (p ! (off + 1)))"

section \<open>Checks, fee and nonce\<close>

text \<open>
  The signature check calls Ed25519; the verifier is the parameter \<open>sig_ok\<close>, a predicate on
  digest, signer and signature.
\<close>

definition verifySignature :: "(hash \<Rightarrow> address \<Rightarrow> bytes \<Rightarrow> bool) \<Rightarrow> (bytes \<Rightarrow> hash) \<Rightarrow> transaction \<Rightarrow> bool" where
  "verifySignature sig_ok H tx = sig_ok (Transaction_signingHash H tx) (tx_from tx) (tx_signature tx)"

definition verifyNonce :: "transaction \<Rightarrow> db \<Rightarrow> bool" where
  "verifyNonce tx d = (acct_nonce (getAccount (tx_from tx) d) = tx_nonce tx)"

definition checkExpiry :: "transaction \<Rightarrow> tx_context \<Rightarrow> bool" where
  "checkExpiry tx ctx =
     (if tx_valid_until_height tx = 0 then True
      else ctx_current_height ctx \<le> tx_valid_until_height tx)"

definition chargeFee :: "transaction \<Rightarrow> db \<Rightarrow> bool \<times> db" where
  "chargeFee tx d =
     (let sender = getAccount (tx_from tx) d
      in if acct_balance sender < tx_fee tx then (False, d)
         else (True, putAccount (tx_from tx) (sender\<lparr>acct_balance := acct_balance sender - tx_fee tx\<rparr>) d))"

definition refundFee :: "transaction \<Rightarrow> db \<Rightarrow> db" where
  "refundFee tx d =
     (let sender = getAccount (tx_from tx) d
      in putAccount (tx_from tx) (sender\<lparr>acct_balance := acct_balance sender + tx_fee tx\<rparr>) d)"

definition bumpNonce :: "transaction \<Rightarrow> db \<Rightarrow> db" where
  "bumpNonce tx d =
     (let sender = getAccount (tx_from tx) d
      in putAccount (tx_from tx) (sender\<lparr>acct_nonce := acct_nonce sender + 1\<rparr>) d)"

section \<open>The active set\<close>

definition loadActiveSet :: "db \<Rightarrow> id list" where
  "loadActiveSet d =
     (case getGlobal ''active_set'' d of
        None \<Rightarrow> []
      | Some b \<Rightarrow> map (\<lambda>i. foldl (\<lambda>v j. v OR push_bit (j * 8) (ucast (b ! (i * 8 + j)))) 0 [0..<8])
                    [0..<length b div 8])"

definition saveActiveSet :: "id list \<Rightarrow> db \<Rightarrow> db" where
  "saveActiveSet active_set d =
     putGlobal ''active_set''
       (foldl (\<lambda>out vid. foldl (\<lambda>out i. out @ [ucast (drop_bit (i * 8) vid)]) out [0..<8]) [] active_set) d"

section \<open>Laws of the helpers\<close>

lemma readU64GlobalInternal_eq: "readU64GlobalInternal name d = getGlobalU64 name d"
  by (simp add: readU64GlobalInternal_def getGlobalU64_def readU64_def split: option.split)

lemma writeU64GlobalInternal_eq: "writeU64GlobalInternal name v d = putGlobalU64 name v d"
  by (simp add: writeU64GlobalInternal_def putGlobalU64_def writeU64_def)

lemma readU64At_drop: "readU64At p off = readU64 (drop off p)" if "off + 8 \<le> length p"
  unfolding readU64At_def readU64_def using that by (intro foldl_cong) simp_all

lemma readU32At_drop: "readU32At p off = readU32 (drop off p)" if "off + 4 \<le> length p"
  using that by (simp add: readU32At_def readU32_def)

lemma foldl_or_init:
  "foldl (\<lambda>v i. v OR f i) (x :: 'a::len word) is = x OR foldl (\<lambda>v i. v OR f i) 0 is"
proof (induction "is" arbitrary: x)
  case (Cons i "is")
  show ?case using Cons [of "x OR f i"] Cons [of "f i"] by (simp add: or.assoc)
qed simp

lemma counter_from_one_eq:
  "counter_from_one name d = (case getGlobal name d of
     None \<Rightarrow> 1 | Some b \<Rightarrow> 1 OR le_word (min 8 (length b)) b)"
  unfolding counter_from_one_def Let_def
  by (subst foldl_or_init) (auto simp: le_word_def split: option.split)

lemma counter_from_one_written:
  "leaf (KGlobal name) d = Some (writeU64 v) \<Longrightarrow> counter_from_one name d = 1 OR v"
  using readU64_le [of "writeU64 v"]
  by (simp add: counter_from_one_eq getGlobal_def leaf_def Keys_skey codec_simps)

lemma order_counter_written:
  "leaf (KGlobal ''next_order_id'') d = Some (writeU64 v) \<Longrightarrow> order_counter d = v"
  using readU64_def [of "writeU64 v"]
  by (auto simp: order_counter_def getGlobal_def leaf_def Keys_skey codec_simps Let_def
      dest: arg_cong [of _ _ length])

end
