(* ===== verification/Rewards.thy ===== *)
theory Rewards
  imports State_Objects
begin

text \<open>
  Reward arithmetic (\<^verbatim>\<open>src/Core/RewardTypes.h\<close>, \<^verbatim>\<open>src/Core/RewardCalculator.h/.cpp\<close>) and the typed
  access to global values (\<^verbatim>\<open>src/Core/GlobalState.h/.cpp\<close>).
\<close>

section \<open>Basis points\<close>

definition applyBps :: "u64 \<Rightarrow> u16 \<Rightarrow> u64" where
  "applyBps value' bps = (let tmp = (ucast value' :: u128) * ucast bps in ucast (tmp div 10000))"

definition applyBpsRound :: "u64 \<Rightarrow> u16 \<Rightarrow> u64" where
  "applyBpsRound value' bps =
     (let tmp = (ucast value' :: u128) * ucast bps; tmp = tmp + 5000 in ucast (tmp div 10000))"

definition SECONDS_PER_YEAR :: u64 where "SECONDS_PER_YEAR = 31556952"

section \<open>Block rewards\<close>

record reward_context =
  rc_height :: u64
  rc_epoch_number :: u64
  rc_active_set_size :: u64
  rc_total_staked :: u64
  rc_pot :: u64
  rc_fees_this_block :: u64
  rc_block_reward_atomic :: u64
  rc_apy_base_bps :: u16
  rc_apy_activity_bps :: u16
  rc_apy_pot_bonus_bps :: u16

definition RewardContext_default :: reward_context where
  "RewardContext_default = \<lparr>rc_height = 0, rc_epoch_number = 0, rc_active_set_size = 0,
     rc_total_staked = 0, rc_pot = 0, rc_fees_this_block = 0, rc_block_reward_atomic = BLOCK_REWARD,
     rc_apy_base_bps = APY_BASE_BPS, rc_apy_activity_bps = 0, rc_apy_pot_bonus_bps = 0\<rparr>"

record block_reward_result =
  br_total_issued :: u64
  br_producer_amount :: u64
  br_set_amount :: u64
  br_validator_rewards :: "(id \<times> u64) list"

definition computeBlockReward :: "reward_context \<Rightarrow> validator_registry \<Rightarrow> block_reward_result" where
  "computeBlockReward ctx registry =
     (if reg_active_set registry = []
      then \<lparr>br_total_issued = 0, br_producer_amount = 0, br_set_amount = 0, br_validator_rewards = []\<rparr>
      else
        let block_reward = rc_block_reward_atomic ctx;
            validator_pool = applyBps block_reward VALIDATOR_SHARE_BPS;
            producer_amount = applyBps validator_pool PRODUCER_BONUS_BPS;
            set_amount = validator_pool - producer_amount;
            n = (of_nat (length (reg_active_set registry)) :: u64);
            per_validator = set_amount div n;
            remainder = set_amount mod n;
            (remainder, rewards) =
              foldl (\<lambda>(remainder, rewards) vid.
                       let amount = per_validator;
                           (amount, remainder) = (if remainder > 0 then (amount + 1, remainder - 1)
                                                  else (amount, remainder))
                       in (remainder, rewards @ [(vid, amount)]))
                (remainder, []) (reg_active_set registry)
        in \<lparr>br_total_issued = validator_pool, br_producer_amount = producer_amount,
            br_set_amount = set_amount, br_validator_rewards = rewards\<rparr>)"

section \<open>APY\<close>

definition apyToPerSecondScaled :: "u16 \<Rightarrow> u64" where
  "apyToPerSecondScaled apy_bps =
     (let tmp = (ucast apy_bps :: u128) * 1000000000000 in ucast (tmp div ucast SECONDS_PER_YEAR))"

definition computeEffectiveApy :: "reward_context \<Rightarrow> u64 \<Rightarrow> u16" where
  "computeEffectiveApy ctx seconds_since_last_epoch =
     (let apy = (ucast (rc_apy_base_bps ctx) :: u32);
          apy = apy + min (ucast (rc_apy_activity_bps ctx)) (ucast APY_ACTIVITY_MAX_BPS);
          apy = apy + min (ucast (rc_apy_pot_bonus_bps ctx)) (ucast APY_POT_BONUS_MAX_BPS);
          apy = (if apy > 65535 then 65535 else apy)
      in ucast apy)"

definition computeTargetStakerPayout :: "reward_context \<Rightarrow> u16 \<Rightarrow> u64 \<Rightarrow> u64" where
  "computeTargetStakerPayout ctx effective_apy_bps epoch_seconds =
     (if rc_total_staked ctx = 0 then 0
      else if effective_apy_bps = 0 then 0
      else
        let step1 = (ucast (rc_total_staked ctx) :: u128) * ucast epoch_seconds;
            step2 = step1 * ucast effective_apy_bps;
            step3 = step2 div 10000;
            step4 = step3 div ucast SECONDS_PER_YEAR
        in ucast step4)"

definition computeActivityBps :: "u64 \<Rightarrow> u16" where
  "computeActivityBps avg_tx_per_block =
     (if avg_tx_per_block = 0 then 0
      else if avg_tx_per_block \<ge> TRAFFIC_SATURATION_TX then APY_ACTIVITY_MAX_BPS
      else
        let scaled = (ucast avg_tx_per_block :: u128) * ucast APY_ACTIVITY_MAX_BPS;
            result = (ucast (scaled div ucast TRAFFIC_SATURATION_TX) :: u32);
            result = (if result > ucast APY_ACTIVITY_MAX_BPS then ucast APY_ACTIVITY_MAX_BPS else result)
        in ucast result)"

definition computePotBonusBps :: "u64 \<Rightarrow> u64 \<Rightarrow> u16" where
  "computePotBonusBps pot pool_baseline =
     (if pool_baseline = 0 then 0
      else
        let pot_high = pool_baseline * POT_HIGH_EPOCHS;
            pot_max = pool_baseline * POT_MAX_EPOCHS
        in if pot \<le> pot_high then 0
           else if pot \<ge> pot_max then APY_POT_BONUS_MAX_BPS
           else
             let span = pot_max - pot_high
             in if span = 0 then 0
                else
                  let offset = pot - pot_high;
                      scaled = (ucast offset :: u128) * ucast APY_POT_BONUS_MAX_BPS;
                      result = (ucast (scaled div ucast span) :: u32);
                      result = (if result > ucast APY_POT_BONUS_MAX_BPS
                                then ucast APY_POT_BONUS_MAX_BPS else result)
                  in ucast result)"

section \<open>The pot\<close>

record pot_adjustment =
  adj_distributed :: u64
  adj_added_to_pot :: u64
  adj_drained_from_pot :: u64
  adj_burned :: u64

definition applyPotMechanics :: "u64 \<Rightarrow> u64 \<Rightarrow> u64 \<Rightarrow> u64 \<Rightarrow> pot_adjustment" where
  "applyPotMechanics staker_pool target_payout current_pot epoch_pool_baseline =
     (let pool_baseline = (if epoch_pool_baseline > 0 then epoch_pool_baseline else staker_pool);
          pot_max = pool_baseline * POT_MAX_EPOCHS;
          adj = \<lparr>adj_distributed = 0, adj_added_to_pot = 0, adj_drained_from_pot = 0, adj_burned = 0\<rparr>;
          adj = (if staker_pool \<ge> target_payout
                 then adj\<lparr>adj_distributed := target_payout, adj_added_to_pot := staker_pool - target_payout\<rparr>
                 else
                   let shortfall = target_payout - staker_pool
                   in if current_pot \<ge> shortfall
                      then adj\<lparr>adj_distributed := target_payout, adj_drained_from_pot := shortfall\<rparr>
                      else adj\<lparr>adj_distributed := staker_pool + current_pot,
                               adj_drained_from_pot := current_pot\<rparr>);
          new_pot = current_pot + adj_added_to_pot adj - adj_drained_from_pot adj
      in if new_pot > pot_max then adj\<lparr>adj_burned := new_pot - pot_max\<rparr> else adj)"

section \<open>Global values\<close>

definition encodeGlobalU64 :: "u64 \<Rightarrow> bytes" where
  "encodeGlobalU64 v = map (\<lambda>i. ucast (drop_bit (i * 8) v)) [0..<8]"

definition decodeGlobalU64 :: "bytes \<Rightarrow> u64 option" where
  "decodeGlobalU64 data =
     (if length data \<noteq> 8 then None
      else Some (foldl (\<lambda>v i. v OR push_bit (i * 8) (ucast (data ! i))) 0 [0..<8]))"

definition readGlobalU64 :: "string \<Rightarrow> db \<Rightarrow> u64" where
  "readGlobalU64 name d =
     (case getGlobal name d of
        None \<Rightarrow> 0
      | Some v \<Rightarrow> (case decodeGlobalU64 v of None \<Rightarrow> 0 | Some x \<Rightarrow> x))"

definition writeGlobalU64 :: "string \<Rightarrow> u64 \<Rightarrow> db \<Rightarrow> db" where
  "writeGlobalU64 name v d = putGlobal name (encodeGlobalU64 v) d"

definition reader_totalStaked :: "db \<Rightarrow> u64" where
  "reader_totalStaked d = readGlobalU64 ''total_staked'' d"
definition reader_pot :: "db \<Rightarrow> u64" where
  "reader_pot d = readGlobalU64 ''pot'' d"
definition reader_epochNumber :: "db \<Rightarrow> u64" where
  "reader_epochNumber d = readGlobalU64 ''epoch_number'' d"
definition reader_totalSupply :: "db \<Rightarrow> u64" where
  "reader_totalSupply d = readGlobalU64 ''total_supply'' d"
definition reader_stakerCount :: "db \<Rightarrow> u64" where
  "reader_stakerCount d = readGlobalU64 ''staker_count'' d"
definition reader_nextTokenId :: "db \<Rightarrow> u32" where
  "reader_nextTokenId d = ucast (readGlobalU64 ''next_token_id'' d)"
definition reader_nextOrderId :: "db \<Rightarrow> u64" where
  "reader_nextOrderId d = readGlobalU64 ''next_order_id'' d"
definition reader_nextValidatorId :: "db \<Rightarrow> u64" where
  "reader_nextValidatorId d = readGlobalU64 ''next_validator_id'' d"
definition reader_activeSetSize :: "db \<Rightarrow> u32" where
  "reader_activeSetSize d = ucast (readGlobalU64 ''active_set_size'' d)"
definition reader_lastRotationHeight :: "db \<Rightarrow> u64" where
  "reader_lastRotationHeight d = readGlobalU64 ''last_rotation_height'' d"
definition reader_apyActivityBps :: "db \<Rightarrow> u16" where
  "reader_apyActivityBps d = ucast (readGlobalU64 ''apy_activity_bps'' d)"
definition reader_apyPotBps :: "db \<Rightarrow> u16" where
  "reader_apyPotBps d = ucast (readGlobalU64 ''apy_pot_bps'' d)"

definition setTotalStaked :: "u64 \<Rightarrow> db \<Rightarrow> db" where
  "setTotalStaked v d = writeGlobalU64 ''total_staked'' v d"
definition setPot :: "u64 \<Rightarrow> db \<Rightarrow> db" where
  "setPot v d = writeGlobalU64 ''pot'' v d"
definition setEpochNumber :: "u64 \<Rightarrow> db \<Rightarrow> db" where
  "setEpochNumber v d = writeGlobalU64 ''epoch_number'' v d"
definition setTotalSupply :: "u64 \<Rightarrow> db \<Rightarrow> db" where
  "setTotalSupply v d = writeGlobalU64 ''total_supply'' v d"
definition setStakerCount :: "u64 \<Rightarrow> db \<Rightarrow> db" where
  "setStakerCount v d = writeGlobalU64 ''staker_count'' v d"
definition setNextTokenId :: "u32 \<Rightarrow> db \<Rightarrow> db" where
  "setNextTokenId v d = writeGlobalU64 ''next_token_id'' (ucast v) d"
definition setNextOrderId :: "u64 \<Rightarrow> db \<Rightarrow> db" where
  "setNextOrderId v d = writeGlobalU64 ''next_order_id'' v d"
definition setNextValidatorId :: "u64 \<Rightarrow> db \<Rightarrow> db" where
  "setNextValidatorId v d = writeGlobalU64 ''next_validator_id'' v d"
definition setActiveSetSize :: "u32 \<Rightarrow> db \<Rightarrow> db" where
  "setActiveSetSize v d = writeGlobalU64 ''active_set_size'' (ucast v) d"
definition setLastRotationHeight :: "u64 \<Rightarrow> db \<Rightarrow> db" where
  "setLastRotationHeight v d = writeGlobalU64 ''last_rotation_height'' v d"
definition setApyActivityBps :: "u16 \<Rightarrow> db \<Rightarrow> db" where
  "setApyActivityBps v d = writeGlobalU64 ''apy_activity_bps'' (ucast v) d"
definition setApyPotBps :: "u16 \<Rightarrow> db \<Rightarrow> db" where
  "setApyPotBps v d = writeGlobalU64 ''apy_pot_bps'' (ucast v) d"

lemmas global_access = reader_totalStaked_def reader_pot_def reader_epochNumber_def reader_totalSupply_def
  reader_stakerCount_def reader_nextTokenId_def reader_nextOrderId_def reader_nextValidatorId_def
  reader_activeSetSize_def reader_lastRotationHeight_def reader_apyActivityBps_def reader_apyPotBps_def
  setTotalStaked_def setPot_def setEpochNumber_def setTotalSupply_def setStakerCount_def
  setNextTokenId_def setNextOrderId_def setNextValidatorId_def setActiveSetSize_def
  setLastRotationHeight_def setApyActivityBps_def setApyPotBps_def

lemma readGlobalU64_eq: "readGlobalU64 name d = getGlobalU64 name d"
  by (simp add: readGlobalU64_def getGlobalU64_def decodeGlobalU64_def readU64_def split: option.split)

lemma writeGlobalU64_eq: "writeGlobalU64 name v d = putGlobalU64 name v d"
  by (simp add: writeGlobalU64_def putGlobalU64_def encodeGlobalU64_def writeU64_def)

section \<open>Exact values\<close>

lemma applyBps_exact:
  assumes "bps \<le> 10000"
  shows "unat (applyBps v bps) = unat v * unat bps div 10000"
proof -
  have b: "unat bps \<le> 10000" using assms by (simp add: word_le_nat_alt)
  have le: "unat v * unat bps \<le> unat v * 10000" using b by (rule mult_le_mono2)
  then have m: "unat v * unat bps div 10000 \<le> unat v" using div_le_mono [OF le, of 10000] by simp
  have small: "unat v * unat bps < 340282366920938463463374607431768211456"
    using le unat_u64_less [of v] by linarith
  have p: "unat ((ucast v :: u128) * ucast bps) = unat v * unat bps"
    using small by (simp add: unat_word_ariths)
  have "unat v * unat bps div 10000 < 18446744073709551616" using m unat_u64_less [of v] by linarith
  then show ?thesis by (simp add: applyBps_def Let_def p)
qed

lemma applyBps_le: "bps \<le> 10000 \<Longrightarrow> applyBps v bps \<le> v"
proof -
  assume b: "bps \<le> 10000"
  then have "unat v * unat bps \<le> unat v * 10000" by (intro mult_le_mono2) (simp add: word_le_nat_alt)
  from div_le_mono [OF this, of 10000] show ?thesis
    using applyBps_exact [OF b, of v] by (simp add: word_le_nat_alt)
qed

text \<open>
  The loop of \<^verbatim>\<open>computeBlockReward\<close>: the first \<open>r\<close> validators get one unit more than the others.
\<close>

lemma reward_loop:
  fixes q r :: u64
  shows "unat r \<le> length vs \<Longrightarrow> snd (foldl (\<lambda>(remainder, rewards) vid.
      let amount = q; (amount, remainder) = (if remainder > 0 then (amount + 1, remainder - 1) else (amount, remainder))
      in (remainder, rewards @ [(vid, amount)])) (r, acc) vs)
    = acc @ map (\<lambda>v. (v, q + 1)) (take (unat r) vs) @ map (\<lambda>v. (v, q)) (drop (unat r) vs)"
proof (induction vs arbitrary: r acc)
  case (Cons v vs)
  show ?case
  proof (cases "r = 0")
    case True
    then show ?thesis using Cons.IH [of 0 "acc @ [(v, q)]"] by simp
  next
    case False
    then have r: "unat (r - 1) = unat r - 1" "0 < unat r" by (simp_all add: unat_minus_one unat_gt_0)
    then have "unat (r - 1) \<le> length vs" using Cons.prems by simp
    from Cons.IH [OF this, of "acc @ [(v, q + 1)]"] False r Cons.prems show ?thesis
      by (cases "unat r") simp_all
  qed
qed simp

lemma blockReward_list:
  fixes ctx :: reward_context and reg :: validator_registry and vs :: "id list"
  assumes "reg_active_set reg = vs" "vs \<noteq> []" "length vs < 2 ^ 64"
  defines "s \<equiv> br_set_amount (computeBlockReward ctx reg)" and "n \<equiv> (of_nat (length vs) :: u64)"
  shows "br_validator_rewards (computeBlockReward ctx reg) =
    map (\<lambda>v. (v, s div n + 1)) (take (unat (s mod n)) vs) @ map (\<lambda>v. (v, s div n)) (drop (unat (s mod n)) vs)"
proof -
  have n: "unat n = length vs" unfolding n_def by (rule unat_of_nat_small) (use assms in simp)
  have "unat (s mod n) \<le> length vs" using n assms(2) by (simp add: unat_mod less_imp_le)
  from reward_loop [OF this, of "s div n" "[]"] show ?thesis
    using assms(1,2) by (simp add: s_def n_def computeBlockReward_def Let_def split_beta)
qed

lemma blockReward_amounts:
  assumes "reg_active_set reg \<noteq> []"
  shows "br_total_issued (computeBlockReward ctx reg) = applyBps (rc_block_reward_atomic ctx) VALIDATOR_SHARE_BPS"
    "unat (br_producer_amount (computeBlockReward ctx reg)) + unat (br_set_amount (computeBlockReward ctx reg))
      = unat (br_total_issued (computeBlockReward ctx reg))"
proof -
  let ?pool = "applyBps (rc_block_reward_atomic ctx) VALIDATOR_SHARE_BPS"
  show t: "br_total_issued (computeBlockReward ctx reg) = ?pool"
    using assms by (simp add: computeBlockReward_def Let_def split_beta)
  have "applyBps ?pool PRODUCER_BONUS_BPS \<le> ?pool"
    by (rule applyBps_le) (simp add: PRODUCER_BONUS_BPS_def)
  then show "unat (br_producer_amount (computeBlockReward ctx reg)) + unat (br_set_amount (computeBlockReward ctx reg))
      = unat (br_total_issued (computeBlockReward ctx reg))"
    unfolding t using assms
    by (simp add: computeBlockReward_def Let_def split_beta unat_sub_le word_le_nat_alt)
qed

lemma sum_list_two_level:
  fixes q :: u64
  assumes "r \<le> length vs" "0 < r \<Longrightarrow> unat q + 1 < 2 ^ 64"
  shows "sum_list (map (\<lambda>x. unat (snd x)) (map (\<lambda>v. (v, q + 1)) (take r vs) @ map (\<lambda>v. (v, q)) (drop r vs)))
    = length vs * unat q + r"
proof -
  have "r = 0 \<or> unat (q + 1) = unat q + 1"
    using assms(2) unat_add_no_overflow [of q 1] by (cases "r = 0") simp_all
  then have "r * unat (q + 1) + (length vs - r) * unat q = length vs * unat q + r"
    using assms(1) by (auto simp: algebra_simps diff_mult_distrib)
  then show ?thesis using assms(1) by (simp add: comp_def sum_list_triv)
qed

lemma blockReward_sum:
  assumes "reg_active_set reg \<noteq> []" "length (reg_active_set reg) < 2 ^ 64"
  shows "sum_list (map (\<lambda>x. unat (snd x)) (br_validator_rewards (computeBlockReward ctx reg)))
    = unat (br_set_amount (computeBlockReward ctx reg))"
proof -
  let ?s = "br_set_amount (computeBlockReward ctx reg)" and ?vs = "reg_active_set reg"
  let ?n = "of_nat (length ?vs) :: u64"
  have n: "unat ?n = length ?vs" by (rule unat_of_nat_small) (use assms in simp)
  have r: "unat (?s mod ?n) = unat ?s mod length ?vs" "unat (?s div ?n) = unat ?s div length ?vs"
    using n by (simp_all add: unat_mod unat_div)
  have small: "unat (?s div ?n) + 1 < 2 ^ 64" if "0 < unat (?s mod ?n)"
  proof -
    have "length ?vs \<noteq> 1" using that r by auto
    then have "2 \<le> length ?vs" using assms(1) by (cases "length ?vs") auto
    then have "unat ?s div length ?vs \<le> unat ?s div 2" by (intro div_le_mono2) simp_all
    moreover have "unat ?s div 2 < 9223372036854775808" using unat_u64_less [of ?s] by linarith
    ultimately show ?thesis using r by simp
  qed
  have "unat (?s mod ?n) \<le> length ?vs" using r assms(1) by (simp add: less_imp_le)
  from sum_list_two_level [OF this small]
  show ?thesis unfolding blockReward_list [OF refl assms] using r by simp
qed

text \<open>The pot: what is paid out and kept equals what came in and was there.\<close>

lemma pot_flow:
  fixes pool target pot base :: u64
  assumes "unat pot + unat pool < 2 ^ 64"
  defines "adj \<equiv> applyPotMechanics pool target pot base"
  shows "unat (adj_distributed adj) + unat (adj_added_to_pot adj) = unat pool + unat (adj_drained_from_pot adj)"
    "adj_drained_from_pot adj \<le> pot" "adj_distributed adj \<le> target"
    "adj_added_to_pot adj = 0 \<or> adj_drained_from_pot adj = 0"
    "unat pot + unat (adj_added_to_pot adj) < 2 ^ 64"
proof -
  have sum: "unat (pool + pot) = unat pool + unat pot"
    using assms(1) by (intro unat_add_no_overflow) simp
  have fields: "adj_distributed adj = (if target \<le> pool then target else if target - pool \<le> pot then target else pool + pot)"
      "adj_added_to_pot adj = (if target \<le> pool then pool - target else 0)"
      "adj_drained_from_pot adj = (if target \<le> pool then 0 else if target - pool \<le> pot then target - pool else pot)"
    unfolding adj_def applyPotMechanics_def Let_def by simp_all
  have sub: "target \<le> pool \<Longrightarrow> unat (pool - target) = unat pool - unat target"
      "\<not> target \<le> pool \<Longrightarrow> unat (target - pool) = unat target - unat pool"
    by (simp_all add: unat_sub_le)
  show "unat (adj_distributed adj) + unat (adj_added_to_pot adj) = unat pool + unat (adj_drained_from_pot adj)"
    "adj_drained_from_pot adj \<le> pot" "adj_distributed adj \<le> target"
    "adj_added_to_pot adj = 0 \<or> adj_drained_from_pot adj = 0"
    "unat pot + unat (adj_added_to_pot adj) < 2 ^ 64"
    unfolding fields using sub sum assms(1) by (auto simp: word_le_nat_alt)
qed

end
