(* ===== verification/Exec_Accounts.thy ===== *)
theory Exec_Accounts
  imports Exec_Base Rewards
begin

text \<open>
  The handlers for transfers, staking, validators and tokens
  (\<^verbatim>\<open>src/Core/TransactionExecutor.cpp\<close>), and the effect of each on the state.
\<close>

section \<open>Transfer and staking\<close>

definition executeTransfer :: "transaction \<Rightarrow> tx_context \<Rightarrow> db \<Rightarrow> receipt \<times> db" where
  "executeTransfer tx ctx d =
     (if tx_amount tx = 0 then (failure tx, d)
      else if isNull (tx_to tx) then (failure tx, d)
      else if tx_token_id tx = NATIVE_TOKEN_ID
      then
        let sender = getAccount (tx_from tx) d
        in if acct_balance sender < tx_amount tx then (failure tx, d)
           else
             let d = putAccount (tx_from tx) (sender\<lparr>acct_balance := acct_balance sender - tx_amount tx\<rparr>) d;
                 receiver = getAccount (tx_to tx) d;
                 receiver = receiver\<lparr>acct_balance := acct_balance receiver + tx_amount tx\<rparr>;
                 receiver = (if acct_created_at_height receiver = 0
                             then receiver\<lparr>acct_created_at_height := ctx_current_height ctx\<rparr>
                             else receiver)
             in (success tx, putAccount (tx_to tx) receiver d)
      else
        let sender_balance = getTokenBalance (tx_from tx) (tx_token_id tx) d
        in if sender_balance < tx_amount tx then (failure tx, d)
           else
             let d = putTokenBalance (tx_from tx) (tx_token_id tx) (sender_balance - tx_amount tx) d;
                 receiver_balance = getTokenBalance (tx_to tx) (tx_token_id tx) d
             in (success tx, putTokenBalance (tx_to tx) (tx_token_id tx) (receiver_balance + tx_amount tx) d))"

definition executeOptInStaking :: "transaction \<Rightarrow> tx_context \<Rightarrow> db \<Rightarrow> receipt \<times> db" where
  "executeOptInStaking tx ctx d =
     (let acct = getAccount (tx_from tx) d;
          acct = acct\<lparr>acct_staking_opted_out := False\<rparr>;
          acct = recalculateStaked AUTO_STAKE_THRESHOLD acct
      in (success tx, putAccount (tx_from tx) acct d))"

definition executeOptOutStaking :: "transaction \<Rightarrow> tx_context \<Rightarrow> db \<Rightarrow> receipt \<times> db" where
  "executeOptOutStaking tx ctx d =
     (let acct = getAccount (tx_from tx) d;
          acct = acct\<lparr>acct_staking_opted_out := True\<rparr>;
          acct = recalculateStaked AUTO_STAKE_THRESHOLD acct
      in (success tx, putAccount (tx_from tx) acct d))"

definition executeClaimRewards :: "transaction \<Rightarrow> tx_context \<Rightarrow> db \<Rightarrow> receipt \<times> db" where
  "executeClaimRewards tx ctx d =
     (let acct = getAccount (tx_from tx) d;
          acct = acct\<lparr>acct_balance := acct_balance acct + acct_pending_rewards acct\<rparr>;
          acct = acct\<lparr>acct_pending_rewards := 0\<rparr>;
          acct = recalculateStaked AUTO_STAKE_THRESHOLD acct
      in (success tx, putAccount (tx_from tx) acct d))"

section \<open>Validators\<close>

definition executeRegisterValidator :: "transaction \<Rightarrow> tx_context \<Rightarrow> db \<Rightarrow> receipt \<times> db" where
  "executeRegisterValidator tx ctx d =
     (let acct = getAccount (tx_from tx) d
      in if acct_balance acct < VALIDATOR_MIN_STAKE then (failure tx, d)
         else if length (tx_payload tx) \<noteq> 32 then (failure tx, d)
         else if getValidatorByAddress (tx_from tx) d \<noteq> None then (failure tx, d)
         else
           let next_id = validator_counter d;
               validator = ValidatorInfo_default\<lparr>
                 val_id := next_id,
                 val_reward_address := tx_from tx,
                 val_owner := tx_from tx,
                 val_stake := acct_balance acct,
                 val_registered_at_height := ctx_current_height ctx,
                 val_uptime_score := 10000,
                 val_is_seed := False,
                 val_is_active := False,
                 val_consensus_key := take 32 (tx_payload tx)\<rparr>;
               d = putValidator validator d;
               d = putValidatorByAddress (val_reward_address validator) (val_id validator) d;
               entry = \<lparr>kr_key = effectiveConsensusKey validator,
                        kr_valid_from_height = ctx_current_height ctx, kr_valid_until_height = 0\<rparr>;
               d = putValidatorKeyHistory (val_id validator) [entry] d;
               d = putGlobal ''next_validator_id'' (writeU64 (next_id + 1)) d
           in (success tx, d))"

definition executeUnregisterValidator :: "transaction \<Rightarrow> tx_context \<Rightarrow> db \<Rightarrow> receipt \<times> db" where
  "executeUnregisterValidator tx ctx d =
     (case getValidatorByAddress (tx_from tx) d of
        None \<Rightarrow> (failure tx, d)
      | Some validator_id \<Rightarrow>
        (case getValidator validator_id d of
           None \<Rightarrow> (failure tx, d)
         | Some validator \<Rightarrow>
           if val_is_seed validator then (failure tx, d)
           else
             let active_set = loadActiveSet d;
                 was_active = (validator_id \<in> set active_set);
                 new_set = filter (\<lambda>vid. vid \<noteq> validator_id) active_set
             in if was_active \<and> length new_set < unat ACTIVE_SET_MIN then (failure tx, d)
                else
                  let d = (if was_active then saveActiveSet new_set d else d)
                  in if val_pending_unbond_height validator \<noteq> 0 then (failure tx, d)
                     else
                       let validator = validator\<lparr>
                             val_is_active := False,
                             val_last_active_at := ctx_current_height ctx,
                             val_pending_unbond_height := ctx_current_height ctx + UNBONDING_PERIOD\<rparr>
                       in (success tx, putValidator validator d)))"

definition executeUpdateRewardAddress :: "transaction \<Rightarrow> tx_context \<Rightarrow> db \<Rightarrow> receipt \<times> db" where
  "executeUpdateRewardAddress tx ctx d =
     (if length (tx_payload tx) \<noteq> 32 then (failure tx, d)
      else
        let new_address = take 32 (tx_payload tx)
        in if isNull new_address then (failure tx, d)
           else (case getValidatorByAddress (tx_from tx) d of
             None \<Rightarrow> (failure tx, d)
           | Some validator_id \<Rightarrow>
             (case getValidator validator_id d of
                None \<Rightarrow> (failure tx, d)
              | Some validator \<Rightarrow>
                if new_address \<noteq> tx_from tx \<and> getValidatorByAddress new_address d \<noteq> None
                then (failure tx, d)
                else
                  let validator = (if isNull (val_consensus_key validator)
                        then validator\<lparr>val_consensus_key := effectiveConsensusKey validator\<rparr>
                        else validator);
                      d = deleteValidatorByAddress (val_reward_address validator) d;
                      d = putValidatorByAddress new_address (val_id validator) d;
                      validator = validator\<lparr>val_reward_address := new_address, val_owner := new_address\<rparr>
                  in (success tx, putValidator validator d))))"

definition seal_last :: "u64 \<Rightarrow> key_rotation list \<Rightarrow> key_rotation list" where
  "seal_last h history = butlast history @ [(last history)\<lparr>kr_valid_until_height := h\<rparr>]"

definition executeRotateConsensusKey :: "transaction \<Rightarrow> tx_context \<Rightarrow> db \<Rightarrow> receipt \<times> db" where
  "executeRotateConsensusKey tx ctx d =
     (if length (tx_payload tx) \<noteq> 32 then (failure tx, d)
      else
        let new_key = take 32 (tx_payload tx)
        in if isNull new_key then (failure tx, d)
           else (case getValidatorByAddress (tx_from tx) d of
             None \<Rightarrow> (failure tx, d)
           | Some validator_id \<Rightarrow>
             (case getValidator validator_id d of
                None \<Rightarrow> (failure tx, d)
              | Some validator \<Rightarrow>
                if val_owner validator \<noteq> tx_from tx then (failure tx, d)
                else if effectiveConsensusKey validator = new_key then (failure tx, d)
                else if val_pending_unbond_height validator \<noteq> 0 then (failure tx, d)
                else
                  let stored = (case getValidatorKeyHistory validator_id d of None \<Rightarrow> [] | Some h \<Rightarrow> h);
                      initial = \<lparr>kr_key = effectiveConsensusKey validator,
                                 kr_valid_from_height = val_registered_at_height validator,
                                 kr_valid_until_height = 0\<rparr>;
                      history = (if stored = [] then [initial] else stored);
                      history = seal_last (ctx_current_height ctx) history;
                      entry = \<lparr>kr_key = new_key, kr_valid_from_height = ctx_current_height ctx,
                               kr_valid_until_height = 0\<rparr>;
                      d = putValidatorKeyHistory validator_id (history @ [entry]) d
                  in (success tx, putValidator (validator\<lparr>val_consensus_key := new_key\<rparr>) d))))"

section \<open>Tokens\<close>

definition executeCreateToken :: "transaction \<Rightarrow> tx_context \<Rightarrow> db \<Rightarrow> receipt \<times> db" where
  "executeCreateToken tx ctx d =
     (let p = tx_payload tx
      in if length p < 3 then (failure tx, d)
         else
           let decimals = p ! 0; backing = p ! 1; name_len = unat (p ! 2); off = 3
           in if off + name_len + 1 > length p then (failure tx, d)
              else
                let name = take name_len (drop off p);
                    off = off + name_len;
                    sym_len = unat (p ! off);
                    off = off + 1
                in if off + sym_len + 8 + 2 + 1 > length p then (failure tx, d)
                   else
                     let symbol = take sym_len (drop off p);
                         off = off + sym_len;
                         max_supply = readU64At p off;
                         off = off + 8;
                         royalty_bps = readU16At p off;
                         off = off + 2;
                         has_fp = p ! off;
                         off = off + 1
                     in if has_fp \<noteq> 0 \<and> off + 32 > length p then (failure tx, d)
                        else
                          let fingerprint = (if has_fp \<noteq> 0 then Some (take 32 (drop off p)) else None);
                              next_id = counter_from_one ''next_token_id'' d;
                              token = \<lparr>tok_id = next_id, tok_name = name, tok_symbol = symbol,
                                tok_decimals = decimals, tok_creator = tx_from tx,
                                tok_backing = backing_of_byte backing, tok_maxSupply = max_supply,
                                tok_royaltyBps = royalty_bps, tok_fingerprint = fingerprint\<rparr>
                          in if \<not> TokenInfo_isValid token then (failure tx, d)
                             else
                               let d = putToken token d;
                                   d = putTokenSupply (tok_id token) 0 d;
                                   d = putGlobal ''next_token_id'' (writeU64 (next_id + 1)) d
                               in (success tx, d))"

definition executeMintToken :: "transaction \<Rightarrow> tx_context \<Rightarrow> db \<Rightarrow> receipt \<times> db" where
  "executeMintToken tx ctx d =
     (if tx_amount tx = 0 then (failure tx, d)
      else if tx_token_id tx = NATIVE_TOKEN_ID then (failure tx, d)
      else (case getToken (tx_token_id tx) d of
        None \<Rightarrow> (failure tx, d)
      | Some token \<Rightarrow>
        if tok_creator token \<noteq> tx_from tx then (failure tx, d)
        else
          let current_supply = getTokenSupply (tx_token_id tx) d
          in if tok_maxSupply token > 0 \<and> current_supply + tx_amount tx > tok_maxSupply token
             then (failure tx, d)
             else
               let recipient_balance = getTokenBalance (tx_to tx) (tx_token_id tx) d;
                   d = putTokenBalance (tx_to tx) (tx_token_id tx) (recipient_balance + tx_amount tx) d;
                   d = putTokenSupply (tx_token_id tx) (current_supply + tx_amount tx) d
               in (success tx, d)))"

definition executeBurnToken :: "transaction \<Rightarrow> tx_context \<Rightarrow> db \<Rightarrow> receipt \<times> db" where
  "executeBurnToken tx ctx d =
     (if tx_amount tx = 0 then (failure tx, d)
      else if tx_token_id tx = NATIVE_TOKEN_ID then (failure tx, d)
      else
        let sender_balance = getTokenBalance (tx_from tx) (tx_token_id tx) d
        in if sender_balance < tx_amount tx then (failure tx, d)
           else
             let d = putTokenBalance (tx_from tx) (tx_token_id tx) (sender_balance - tx_amount tx) d;
                 current_supply = getTokenSupply (tx_token_id tx) d;
                 new_supply = (if current_supply \<ge> tx_amount tx then current_supply - tx_amount tx else 0)
             in (success tx, putTokenSupply (tx_token_id tx) new_supply d))"

definition executeUpdateTokenMeta :: "transaction \<Rightarrow> tx_context \<Rightarrow> db \<Rightarrow> receipt \<times> db" where
  "executeUpdateTokenMeta tx ctx d =
     (let p = tx_payload tx
      in if length p < 4 then (failure tx, d)
         else if tx_token_id tx = NATIVE_TOKEN_ID then (failure tx, d)
         else (case getToken (tx_token_id tx) d of
           None \<Rightarrow> (failure tx, d)
         | Some token \<Rightarrow>
           if tok_creator token \<noteq> tx_from tx then (failure tx, d)
           else
             let name_len = unat (p ! 0); off = 1
             in if off + name_len + 1 > length p then (failure tx, d)
                else
                  let new_name = take name_len (drop off p);
                      off = off + name_len;
                      sym_len = unat (p ! off);
                      off = off + 1
                  in if off + sym_len + 2 > length p then (failure tx, d)
                     else
                       let new_symbol = take sym_len (drop off p);
                           off = off + sym_len;
                           new_royalty = readU16At p off;
                           updated = token;
                           updated = (if name_len > 0 then updated\<lparr>tok_name := new_name\<rparr> else updated);
                           updated = (if sym_len > 0 then updated\<lparr>tok_symbol := new_symbol\<rparr> else updated);
                           updated = (if new_royalty \<noteq> 0 then updated\<lparr>tok_royaltyBps := new_royalty\<rparr> else updated)
                       in if \<not> TokenInfo_isValid updated then (failure tx, d)
                          else (success tx, putToken updated d)))"

section \<open>System slash\<close>

definition executeSystemSlash :: "u64 \<Rightarrow> u64 \<Rightarrow> db \<Rightarrow> receipt \<times> db" where
  "executeSystemSlash validator_id slash_height d =
     (let no_op = \<lparr>rcpt_status = Success, rcpt_fee_paid = 0, rcpt_fills = []\<rparr>
      in (case getValidator validator_id d of
        None \<Rightarrow> (no_op, d)
      | Some validator \<Rightarrow>
        if val_is_seed validator then (no_op, d)
        else
          let slash_amount = applyBps (val_stake validator) SLASH_AMOUNT_BPS;
              validator = (if slash_amount \<le> val_stake validator
                           then validator\<lparr>val_stake := val_stake validator - slash_amount\<rparr> else validator);
              validator = applyInfractionPenalty validator slash_height;
              d = putValidator validator d;
              d = (if slash_amount > 0 then setPot (reader_pot d + slash_amount) d else d)
          in (no_op, d)))"

end
