(* ===== verification/Active_Orders.thy ===== *)
theory Active_Orders
  imports Exec_Base Matching
begin

text \<open>
  Orders at the block boundary and the route of an active order through its pool: the order part of
  \<^verbatim>\<open>src/Core/BlockProcessor.cpp\<close>.
\<close>

datatype ActiveRouteOutcome = Filled | Rested | Unroutable

section \<open>Volume window of a pool\<close>

text \<open>
  The native-token value of a trade at the price before it, and the rolling window it is added to.
  A swap and a routed order write the two blocks out alike.
\<close>

definition clrty_volume :: "id \<Rightarrow> u64 \<Rightarrow> amm_pool \<Rightarrow> u64" where
  "clrty_volume token_in amount_in pool =
     (if token_in = NATIVE_TOKEN_ID then amount_in
      else if pool_token_a pool = NATIVE_TOKEN_ID \<and> pool_reserve_b pool > 0
      then ucast ((ucast amount_in :: u128) * ucast (pool_reserve_a pool) div ucast (pool_reserve_b pool))
      else if pool_token_b pool = NATIVE_TOKEN_ID \<and> pool_reserve_a pool > 0
      then ucast ((ucast amount_in :: u128) * ucast (pool_reserve_b pool) div ucast (pool_reserve_a pool))
      else 0)"

definition roll_volume :: "u64 \<Rightarrow> u64 \<Rightarrow> amm_pool \<Rightarrow> amm_pool" where
  "roll_volume height vol pool =
     (if pool_volume_window_height pool = 0
      then pool\<lparr>pool_volume_window_height := height, pool_volume_current := vol, pool_volume_last := 0\<rparr>
      else if height \<ge> pool_volume_window_height pool + ROTATION_INTERVAL
      then pool\<lparr>pool_volume_last := pool_volume_current pool, pool_volume_current := vol,
                pool_volume_window_height := height\<rparr>
      else pool\<lparr>pool_volume_current := pool_volume_current pool + vol\<rparr>)"

section \<open>Routing an active order\<close>

definition executeActiveOrder ::
    "order \<Rightarrow> u64 \<Rightarrow> u32 \<Rightarrow> fill list \<Rightarrow> db \<Rightarrow> ActiveRouteOutcome \<times> order \<times> fill list \<times> db" where
  "executeActiveOrder o' height tx_index fills_out d =
     (if ord_mode o' \<noteq> Active then (Unroutable, o', fills_out, d)
      else if ord_pool_id o' = 0 then (Unroutable, o', fills_out, d)
      else if isNull (ord_owner o') then (Unroutable, o', fills_out, d)
      else if isFullyFilled o' then (Unroutable, o', fills_out, d)
      else (case getAmmPool (ucast (ord_pool_id o')) d of
        None \<Rightarrow> (Unroutable, o', fills_out, d)
      | Some pool \<Rightarrow>
        if \<not> pool_active pool then (Unroutable, o', fills_out, d)
        else
          let sell = (ucast (ord_sell_token o') :: id); buy = (ucast (ord_buy_token o') :: id);
              sells_a = (sell = pool_token_a pool \<and> buy = pool_token_b pool);
              sells_b = (sell = pool_token_b pool \<and> buy = pool_token_a pool)
          in if \<not> sells_a \<and> \<not> sells_b then (Unroutable, o', fills_out, d)
             else
               let reserve_in = (if sells_a then pool_reserve_a pool else pool_reserve_b pool);
                   reserve_out = (if sells_a then pool_reserve_b pool else pool_reserve_a pool)
               in if reserve_in = 0 \<or> reserve_out = 0 then (Unroutable, o', fills_out, d)
                  else (case canonicalPrice o' of
                    None \<Rightarrow> (Unroutable, o', fills_out, d)
                  | Some canonical_limit \<Rightarrow>
                    (case maxInputWithinLimit reserve_in reserve_out (pool_fee_bps pool) canonical_limit of
                       None \<Rightarrow> (Rested, o', fills_out, d)
                     | Some max_in \<Rightarrow>
                       if max_in = 0 then (Rested, o', fills_out, d)
                       else
                         let amount_in = min max_in (remainingAmount o')
                         in if amount_in = 0 then (Rested, o', fills_out, d)
                            else
                              let amount_out = computeOutput reserve_in reserve_out (pool_fee_bps pool) amount_in
                              in if amount_out = 0 then (Rested, o', fills_out, d)
                                 else
                                   let effective_price = computeEffectivePrice reserve_in reserve_out
                                         (pool_fee_bps pool) amount_in;
                                       vol = clrty_volume sell amount_in pool;
                                       pool = (if sell = pool_token_a pool
                                               then pool\<lparr>pool_reserve_a := pool_reserve_a pool + amount_in,
                                                         pool_reserve_b := pool_reserve_b pool - amount_out\<rparr>
                                               else pool\<lparr>pool_reserve_b := pool_reserve_b pool + amount_in,
                                                         pool_reserve_a := pool_reserve_a pool - amount_out\<rparr>);
                                       pool = roll_volume height vol pool;
                                       d = putAmmPool pool d;
                                       d = give_funds (ord_owner o') buy amount_out d;
                                       o' = o'\<lparr>ord_filled_amount := ord_filled_amount o' + amount_in\<rparr>;
                                       sells_base = (ord_sell_token o' < ord_buy_token o');
                                       f = \<lparr>fill_source = Amm, fill_maker_order_id = 0,
                                            fill_taker_order_id = ord_id o', fill_pool_id = ord_pool_id o',
                                            fill_qty_base = (if sells_base then amount_in else amount_out),
                                            fill_qty_quote = (if sells_base then amount_out else amount_in),
                                            fill_price = effective_price,
                                            fill_base_token = (if sells_base then ord_sell_token o' else ord_buy_token o'),
                                            fill_quote_token = (if sells_base then ord_buy_token o' else ord_sell_token o')\<rparr>;
                                       d = (if isFullyFilled o' then deleteOrder (ord_id o') d else putOrder o' d);
                                       d = indexFill f height tx_index (of_nat (length fills_out)) d
                                   in (Filled, o', fills_out @ [f], d)))))"

section \<open>Conditions\<close>

definition poolSpotPrice :: "u32 \<Rightarrow> u32 \<Rightarrow> u32 \<Rightarrow> db \<Rightarrow> u64 option" where
  "poolSpotPrice pid sell_token buy_token d =
     (case getAmmPool (ucast pid) d of
        None \<Rightarrow> None
      | Some pool \<Rightarrow>
          let sell_is_a = (pool_token_a pool = ucast sell_token \<and> pool_token_b pool = ucast buy_token);
              sell_is_b = (pool_token_b pool = ucast sell_token \<and> pool_token_a pool = ucast buy_token)
          in if \<not> sell_is_a \<and> \<not> sell_is_b then None
             else if pool_reserve_a pool = 0 \<or> pool_reserve_b pool = 0 then None
             else if sell_is_a
             then Some (ucast ((ucast (pool_reserve_b pool) :: u128) * ucast PRICE_SCALE div ucast (pool_reserve_a pool)))
             else Some (ucast ((ucast (pool_reserve_a pool) :: u128) * ucast PRICE_SCALE div ucast (pool_reserve_b pool))))"

definition condition_holds :: "order \<Rightarrow> u64 \<Rightarrow> db \<Rightarrow> order_condition \<Rightarrow> bool" where
  "condition_holds o' current_height d c =
     (case cond_type c of
        Cond_Invalid \<Rightarrow> False
      | ExpiresAtHeight \<Rightarrow> \<not> current_height \<ge> cond_param1 c
      | PriceAbove \<Rightarrow> (case poolSpotPrice (cond_param2 c) (ord_sell_token o') (ord_buy_token o') d of
                        None \<Rightarrow> True | Some price \<Rightarrow> \<not> price > cond_param1 c)
      | PriceBelow \<Rightarrow> (case poolSpotPrice (cond_param2 c) (ord_sell_token o') (ord_buy_token o') d of
                        None \<Rightarrow> True | Some price \<Rightarrow> \<not> price < cond_param1 c)
      | VolumeBelow \<Rightarrow> (case getAmmPool (ucast (cond_param2 c)) d of
                        None \<Rightarrow> True
                      | Some pool \<Rightarrow> \<not> reportedVolume current_height pool < cond_param1 c)
      | BalanceBelow \<Rightarrow> \<not> acct_balance (getAccount (ord_owner o') d) < cond_param1 c
      | _ \<Rightarrow> True)"

definition conditionsAllHold :: "order \<Rightarrow> u64 \<Rightarrow> db \<Rightarrow> bool" where
  "conditionsAllHold o' current_height d =
     list_all (\<lambda>i. condition_holds o' current_height d (ord_conditions o' ! i))
       [0..<unat (ord_condition_count o')]"

definition cancelOrderByCondition :: "id \<Rightarrow> db \<Rightarrow> db" where
  "cancelOrderByCondition order_id d =
     (case getOrder order_id d of
        None \<Rightarrow> d
      | Some o' \<Rightarrow>
          let remaining = remainingAmount o';
              fee = min remaining ORDER_CANCEL_FEE_ATOMIC;
              refund = remaining - fee;
              d = (if refund > 0 then give_funds (ord_owner o') (ucast (ord_sell_token o')) refund d else d)
          in deleteRestingOrder o' d)"

definition classify_order :: "u64 \<Rightarrow> db \<Rightarrow> order \<Rightarrow> id list \<times> id list \<Rightarrow> id list \<times> id list" where
  "classify_order current_height d o' = (\<lambda>(to_cancel, to_route).
     if ord_condition_count o' = 0 \<and> ord_mode o' \<noteq> Active then (to_cancel, to_route)
     else
       let holds = conditionsAllHold o' current_height d
       in if ord_mode o' = Active
          then (if \<not> holds then (to_cancel @ [ord_id o'], to_route) else (to_cancel, to_route @ [ord_id o']))
          else if ord_condition_count o' = 0 then (to_cancel, to_route)
          else if holds then (to_cancel, to_route)
          else (to_cancel @ [ord_id o'], to_route))"

definition route_order :: "u64 \<Rightarrow> fill list \<times> db \<Rightarrow> id \<Rightarrow> fill list \<times> db" where
  "route_order current_height = (\<lambda>(fills, d) order_id.
     (case getOrder order_id d of
        None \<Rightarrow> (fills, d)
      | Some o' \<Rightarrow>
          (case executeActiveOrder o' current_height (ucast order_id) fills d of
             (outcome, o', fills, d) \<Rightarrow>
               if outcome = Unroutable then (fills, cancelOrderByCondition order_id d) else (fills, d))))"

definition evaluateOrderConditions :: "u64 \<Rightarrow> fill list \<Rightarrow> db \<Rightarrow> fill list \<times> db" where
  "evaluateOrderConditions current_height epoch_fills d =
     (let (to_cancel, to_route) = forEachOrder (classify_order current_height d) d ([], []);
          d = foldl (\<lambda>d order_id. cancelOrderByCondition order_id d) d to_cancel
      in foldl (route_order current_height) (epoch_fills, d) to_route)"

section \<open>Expiry\<close>

definition expire_order :: "db \<Rightarrow> u64 \<Rightarrow> db" where
  "expire_order d order_id =
     (case getOrder order_id d of
        None \<Rightarrow> d
      | Some o' \<Rightarrow>
          let refund = remainingAmount o';
              d = (if refund > 0 then give_funds (ord_owner o') (ucast (ord_sell_token o')) refund d else d)
          in deleteRestingOrder o' d)"

definition processOrderExpiries :: "u64 \<Rightarrow> db \<Rightarrow> db" where
  "processOrderExpiries current_height d =
     (let expiring = getOrdersExpiringAt current_height d
      in if expiring = [] then d
         else clearOrderExpiry current_height (foldl expire_order d expiring))"

end
