(* ===== verification/Exec_Dex.thy ===== *)
theory Exec_Dex
  imports Active_Orders
begin

text \<open>
  The handlers for pools, liquidity, swaps and orders
  (\<^verbatim>\<open>src/Core/TransactionExecutor.cpp\<close>). A division by zero traps: the two handlers that divide by
  a value no guard checks return \<open>None\<close> then.
\<close>

section \<open>Pools and liquidity\<close>

definition executeCreatePool :: "transaction \<Rightarrow> tx_context \<Rightarrow> db \<Rightarrow> receipt \<times> db" where
  "executeCreatePool tx ctx d =
     (let p = tx_payload tx
      in if length p < 14 then (failure tx, d)
         else
           let token_b = readU32At p 0;
               amount_b = readU64At p 4;
               fee_bps = readU16At p 12;
               token_a = (ucast (tx_token_id tx) :: u32);
               amount_a = tx_amount tx
           in if token_a = token_b then (failure tx, d)
              else if amount_a = 0 \<or> amount_b = 0 then (failure tx, d)
              else if fee_bps > AMM_MAX_FEE_BPS then (failure tx, d)
              else if ucast token_a = NATIVE_TOKEN_ID \<and> amount_a < MIN_POOL_LIQUIDITY then (failure tx, d)
              else if ucast token_b = NATIVE_TOKEN_ID \<and> amount_b < MIN_POOL_LIQUIDITY then (failure tx, d)
              else
                let (token_a, token_b, amount_a, amount_b) =
                      (if token_a > token_b then (token_b, token_a, amount_b, amount_a)
                       else (token_a, token_b, amount_a, amount_b));
                    next_id = counter_from_one ''next_pool_id'' d;
                    prod = (ucast amount_a :: u128) * ucast amount_b;
                    pool = \<lparr>pool_id = next_id, pool_creator = tx_from tx, pool_token_a = ucast token_a,
                      pool_token_b = ucast token_b, pool_reserve_a = amount_a, pool_reserve_b = amount_b,
                      pool_total_liquidity = isqrt128 prod, pool_fee_bps = fee_bps,
                      pool_created_at_height = ctx_current_height ctx, pool_active = True,
                      pool_volume_window_height = 0, pool_volume_current = 0, pool_volume_last = 0\<rparr>
                in if \<not> AmmPool_isValid pool then (failure tx, d)
                   else if lacks (tx_from tx) (ucast token_a) amount_a d then (failure tx, d)
                   else if lacks (tx_from tx) (ucast token_b) amount_b d then (failure tx, d)
                   else
                     let d = take_funds (tx_from tx) (ucast token_a) amount_a d;
                         d = take_funds (tx_from tx) (ucast token_b) amount_b d;
                         d = putAmmPool pool d;
                         d = putGlobal ''next_pool_id'' (writeU64 (next_id + 1)) d;
                         next_pos_id = counter_from_one ''next_position_id'' d;
                         pos = \<lparr>pos_id = next_pos_id, pos_owner = tx_from tx, pos_pool_id = pool_id pool,
                           pos_liquidity = isqrt128 prod, pos_created_at_height = ctx_current_height ctx\<rparr>;
                         d = putAmmPosition pos d;
                         d = putPositionIndex (tx_from tx) (pool_id pool) next_pos_id d;
                         d = putGlobal ''next_position_id'' (writeU64 (next_pos_id + 1)) d
                     in (success tx, d))"

definition executeAddLiquidity :: "transaction \<Rightarrow> tx_context \<Rightarrow> db \<Rightarrow> receipt \<times> db" where
  "executeAddLiquidity tx ctx d =
     (let p = tx_payload tx
      in if length p < 16 then (failure tx, d)
         else
           let pid = readU64At p 0;
               amount_b = readU64At p 8
           in (case getAmmPool pid d of
             None \<Rightarrow> (failure tx, d)
           | Some pool \<Rightarrow>
             if \<not> pool_active pool then (failure tx, d)
             else
               let token_in = tx_token_id tx;
                   token_other = (if token_in = pool_token_a pool then pool_token_b pool else pool_token_a pool)
               in if token_in \<noteq> pool_token_a pool \<and> token_in \<noteq> pool_token_b pool then (failure tx, d)
                  else
                    let amount_in = tx_amount tx
                    in if pool_reserve_a pool = 0 \<or> pool_reserve_b pool = 0 then (failure tx, d)
                       else if lacks (tx_from tx) token_in amount_in d then (failure tx, d)
                       else if lacks (tx_from tx) token_other amount_b d then (failure tx, d)
                       else
                         let d = take_funds (tx_from tx) token_in amount_in d;
                             d = take_funds (tx_from tx) token_other amount_b d;
                             share_a = (amount_in * pool_total_liquidity pool) div pool_reserve_a pool;
                             share_b = (amount_b * pool_total_liquidity pool) div pool_reserve_b pool;
                             liquidity_minted = min share_a share_b;
                             pool = (if token_in = pool_token_a pool
                                     then pool\<lparr>pool_reserve_a := pool_reserve_a pool + amount_in,
                                               pool_reserve_b := pool_reserve_b pool + amount_b\<rparr>
                                     else pool\<lparr>pool_reserve_b := pool_reserve_b pool + amount_in,
                                               pool_reserve_a := pool_reserve_a pool + amount_b\<rparr>);
                             pool = pool\<lparr>pool_total_liquidity := pool_total_liquidity pool + liquidity_minted\<rparr>;
                             d = putAmmPool pool d;
                             existing = (case getPositionIndex (tx_from tx) pid d of
                                 None \<Rightarrow> None
                               | Some existing_pos_id \<Rightarrow> getAmmPosition existing_pos_id d)
                         in (case existing of
                               Some pos \<Rightarrow>
                                 (success tx, putAmmPosition (pos\<lparr>pos_liquidity := pos_liquidity pos + liquidity_minted\<rparr>) d)
                             | None \<Rightarrow>
                                 let next_pos_id = counter_from_one ''next_position_id'' d;
                                     pos = \<lparr>pos_id = next_pos_id, pos_owner = tx_from tx, pos_pool_id = pid,
                                       pos_liquidity = liquidity_minted,
                                       pos_created_at_height = ctx_current_height ctx\<rparr>;
                                     d = putAmmPosition pos d;
                                     d = putPositionIndex (tx_from tx) pid next_pos_id d;
                                     d = putGlobal ''next_position_id'' (writeU64 (next_pos_id + 1)) d
                                 in (success tx, d))))"

definition executeRemoveLiquidity :: "transaction \<Rightarrow> tx_context \<Rightarrow> db \<Rightarrow> (receipt \<times> db) option" where
  "executeRemoveLiquidity tx ctx d =
     (if length (tx_payload tx) \<noteq> 16 then Some (failure tx, d)
      else
        let position_id = readU64At (tx_payload tx) 0;
            requested_amount = readU64At (tx_payload tx) 8
        in (case getAmmPosition position_id d of
          None \<Rightarrow> Some (failure tx, d)
        | Some pos \<Rightarrow>
          if pos_owner pos \<noteq> tx_from tx then Some (failure tx, d)
          else if pos_liquidity pos = 0 then Some (failure tx, d)
          else
            let amount = (if requested_amount = 0 then pos_liquidity pos else requested_amount)
            in if amount > pos_liquidity pos then Some (failure tx, d)
               else (case getAmmPool (pos_pool_id pos) d of
                 None \<Rightarrow> Some (failure tx, d)
               | Some pool \<Rightarrow>
                 let is_last_removal = (amount = pool_total_liquidity pool)
                 in if \<not> is_last_removal \<and> pool_total_liquidity pool = 0 then None
                    else
                      let share_a = (if is_last_removal then pool_reserve_a pool
                            else ucast ((ucast amount :: u128) * ucast (pool_reserve_a pool)
                                   div ucast (pool_total_liquidity pool)));
                          share_b = (if is_last_removal then pool_reserve_b pool
                            else ucast ((ucast amount :: u128) * ucast (pool_reserve_b pool)
                                   div ucast (pool_total_liquidity pool)));
                          pool = pool\<lparr>pool_reserve_a := pool_reserve_a pool - share_a,
                                      pool_reserve_b := pool_reserve_b pool - share_b,
                                      pool_total_liquidity := pool_total_liquidity pool - amount\<rparr>;
                          d = putAmmPool pool d;
                          d = give_funds (tx_from tx) (pool_token_a pool) share_a d;
                          d = give_funds (tx_from tx) (pool_token_b pool) share_b d;
                          d = (if is_last_removal
                               then deletePositionIndex (pos_owner pos) (pos_pool_id pos)
                                      (putAmmPosition (pos\<lparr>pos_liquidity := 0\<rparr>) d)
                               else putAmmPosition (pos\<lparr>pos_liquidity := pos_liquidity pos - amount\<rparr>) d);
                          d = (if AmmPool_isClosed pool then deleteAmmPool (pool_id pool) d else d)
                      in Some (success tx, d))))"

definition executeSwap :: "transaction \<Rightarrow> tx_context \<Rightarrow> db \<Rightarrow> (receipt \<times> db) option" where
  "executeSwap tx ctx d =
     (let p = tx_payload tx
      in if length p < 16 then Some (failure tx, d)
         else
           let pid = readU64At p 0;
               min_amount_out = readU64At p 8
           in (case getAmmPool pid d of
             None \<Rightarrow> Some (failure tx, d)
           | Some pool \<Rightarrow>
             if \<not> pool_active pool then Some (failure tx, d)
             else if tx_token_id tx \<noteq> pool_token_a pool \<and> tx_token_id tx \<noteq> pool_token_b pool
             then Some (failure tx, d)
             else
               let token_in = tx_token_id tx;
                   in_is_a = (token_in = pool_token_a pool);
                   token_out = (if in_is_a then pool_token_b pool else pool_token_a pool);
                   reserve_in = (if in_is_a then pool_reserve_a pool else pool_reserve_b pool);
                   reserve_out = (if in_is_a then pool_reserve_b pool else pool_reserve_a pool);
                   amount_in = tx_amount tx
               in if lacks (tx_from tx) token_in amount_in d then Some (failure tx, d)
                  else
                    let amount_in_with_fee =
                          (ucast ((ucast amount_in :: u128) * fee_factor (pool_fee_bps pool) div 10000) :: u64);
                        numerator = (ucast reserve_out :: u128) * ucast amount_in_with_fee;
                        denominator = reserve_in + amount_in_with_fee
                    in if denominator = 0 then None
                       else
                         let amount_out = (ucast (numerator div ucast denominator) :: u64)
                         in if amount_out < min_amount_out then Some (failure tx, d)
                            else
                              let d = take_funds (tx_from tx) token_in amount_in d;
                                  d = give_funds (tx_to tx) token_out amount_out d;
                                  vol = clrty_volume token_in amount_in pool;
                                  pool = roll_volume (ctx_current_height ctx) vol pool;
                                  pool = (if token_in = pool_token_a pool
                                          then pool\<lparr>pool_reserve_a := pool_reserve_a pool + amount_in,
                                                    pool_reserve_b := pool_reserve_b pool - amount_out\<rparr>
                                          else pool\<lparr>pool_reserve_b := pool_reserve_b pool + amount_in,
                                                    pool_reserve_a := pool_reserve_a pool - amount_out\<rparr>)
                              in Some (success tx, putAmmPool pool d)))"

section \<open>Orders\<close>

definition order_probe :: "u32 \<Rightarrow> u32 \<Rightarrow> u64 \<Rightarrow> u64 \<Rightarrow> order" where
  "order_probe sell_token buy_token sell_amount min_buy_amount =
     \<lparr>ord_id = INVALID_ID, ord_owner = null32, ord_mode = Passive, ord_pool_id = 0,
      ord_sell_token = sell_token, ord_buy_token = buy_token, ord_sell_amount = sell_amount,
      ord_min_buy_amount = min_buy_amount, ord_created_at_height = 0, ord_expires_at_height = 0,
      ord_filled_amount = 0, ord_condition_count = 0,
      ord_conditions = replicate ORDER_MAX_CONDITIONS OrderCondition_default\<rparr>"

definition validateCreateOrderStructure :: "transaction \<Rightarrow> bool" where
  "validateCreateOrderStructure tx =
     (let p = tx_payload tx
      in if length p < 26 then False
         else
           let buy_token = readU32At p 0;
               min_buy_amount = readU64At p 4;
               mode = p ! 12;
               pid = readU32At p 13;
               expires_at_height = readU64At p 17;
               condition_count = p ! 25
           in if unat condition_count > ORDER_MAX_CONDITIONS then False
              else if mode \<noteq> mode_byte Passive \<and> mode \<noteq> mode_byte Active then False
              else if mode = mode_byte Active \<and> pid = 0 then False
              else if mode \<noteq> mode_byte Active \<and> pid \<noteq> 0 then False
              else if read_conditions p 26 (unat condition_count) = None then False
              else if tx_token_id tx = ucast buy_token then False
              else if tx_amount tx = 0 then False
              else if min_buy_amount = 0 then False
              else if mode = mode_byte Passive \<and>
                canonicalPrice (order_probe (ucast (tx_token_id tx)) buy_token (tx_amount tx) min_buy_amount) = None
              then False
              else True)"

text \<open>The record built from a payload that passed the structural check.\<close>

definition order_of_payload :: "transaction \<Rightarrow> tx_context \<Rightarrow> u64 \<Rightarrow> order" where
  "order_of_payload tx ctx next_id =
     (let p = tx_payload tx;
          condition_count = p ! 25;
          cs = (case read_conditions p 26 (unat condition_count) of None \<Rightarrow> [] | Some (cs, off) \<Rightarrow> cs)
      in \<lparr>ord_id = next_id, ord_owner = tx_from tx, ord_mode = mode_of_byte (p ! 12),
          ord_pool_id = readU32At p 13, ord_sell_token = ucast (tx_token_id tx),
          ord_buy_token = readU32At p 0, ord_sell_amount = tx_amount tx,
          ord_min_buy_amount = readU64At p 4, ord_created_at_height = ctx_current_height ctx,
          ord_expires_at_height = readU64At p 17, ord_filled_amount = 0,
          ord_condition_count = condition_count,
          ord_conditions = cs @ replicate (ORDER_MAX_CONDITIONS - length cs) OrderCondition_default\<rparr>)"

definition pre_route_ok :: "order \<Rightarrow> db \<Rightarrow> bool" where
  "pre_route_ok o' d =
     (case getAmmPool (ucast (ord_pool_id o')) d of
        None \<Rightarrow> False
      | Some pool \<Rightarrow>
          if \<not> pool_active pool then False
          else
            let sells_a = (ucast (ord_sell_token o') = pool_token_a pool \<and> ucast (ord_buy_token o') = pool_token_b pool);
                sells_b = (ucast (ord_sell_token o') = pool_token_b pool \<and> ucast (ord_buy_token o') = pool_token_a pool)
            in if \<not> sells_a \<and> \<not> sells_b then False
               else if pool_reserve_a pool = 0 \<or> pool_reserve_b pool = 0 then False
               else True)"

definition executeCreateOrder :: "transaction \<Rightarrow> tx_context \<Rightarrow> db \<Rightarrow> receipt \<times> db" where
  "executeCreateOrder tx ctx d =
     (if \<not> validateCreateOrderStructure tx then (failure tx, d)
      else
        let next_id = order_counter d;
            o' = order_of_payload tx ctx next_id
        in if \<not> Order_isValid o' then (failure tx, d)
           else if lacks (tx_from tx) (tx_token_id tx) (tx_amount tx) d then (failure tx, d)
           else if ord_mode o' = Active \<and> ord_condition_count o' = 0 \<and> \<not> pre_route_ok o' d
           then (failure tx, d)
           else
             let d = take_funds (tx_from tx) (tx_token_id tx) (tx_amount tx) d;
                 d = putOrder o' d;
                 (rejected, fills, d) =
                   (if ord_mode o' = Passive
                    then (case matchPassiveOrder o' (ctx_current_height ctx) (ucast (ctx_tx_index_in_block ctx)) d of
                            (d, taker, out) \<Rightarrow> (False, out_fills out, d))
                    else if ord_condition_count o' = 0
                    then (case executeActiveOrder o' (ctx_current_height ctx) (ucast (ctx_tx_index_in_block ctx)) [] d of
                            (outcome, routed, fills, d) \<Rightarrow> (outcome = Unroutable, fills, d))
                    else (False, [], d))
             in if rejected then (failure tx, d)
                else
                  let d = (if getOrder (ord_id o') d \<noteq> None \<and> ord_expires_at_height o' \<noteq> 0
                           then addOrderExpiry (ord_expires_at_height o') (ord_id o') d else d);
                      d = putGlobal ''next_order_id'' (writeU64 (next_id + 1)) d
                  in ((success tx)\<lparr>rcpt_fills := fills\<rparr>, d))"

definition executeCancelOrder :: "transaction \<Rightarrow> tx_context \<Rightarrow> db \<Rightarrow> receipt \<times> db" where
  "executeCancelOrder tx ctx d =
     (if length (tx_payload tx) < 8 then (failure tx, d)
      else
        let order_id = readU64At (tx_payload tx) 0
        in (case getOrder order_id d of
          None \<Rightarrow> (failure tx, d)
        | Some o' \<Rightarrow>
          if ord_owner o' \<noteq> tx_from tx then (failure tx, d)
          else
            let refund = remainingAmount o';
                d = (if refund > 0 then give_funds (tx_from tx) (ucast (ord_sell_token o')) refund d else d)
            in (success tx, deleteRestingOrder o' d)))"

end
