(* ===== verification/Exec_Nft.thy ===== *)
theory Exec_Nft
  imports Exec_Base
begin

text \<open>
  The handlers for NFTs and their collections (\<^verbatim>\<open>src/Core/TransactionExecutor.cpp\<close>).
\<close>

section \<open>Names\<close>

text \<open>\<^verbatim>\<open>std::to_string\<close> of an unsigned number.\<close>

fun decimal :: "nat \<Rightarrow> bytes" where
  "decimal n = (if n < 10 then [48 + of_nat n] else decimal (n div 10) @ [48 + of_nat (n mod 10)])"

declare decimal.simps [simp del]

definition to_string_u64 :: "u64 \<Rightarrow> bytes" where
  "to_string_u64 v = decimal (unat v)"

text \<open>The shadow token of an NFT: one unit, named after the collection or after the NFT.\<close>

definition shadow_token :: "transaction \<Rightarrow> u64 \<Rightarrow> nft_collection option \<Rightarrow> token_info" where
  "shadow_token tx nid collection =
     \<lparr>tok_id = nid,
      tok_name = (case collection of
          Some c \<Rightarrow> col_name c @ str '' #'' @ to_string_u64 nid
        | None \<Rightarrow> str ''NFT #'' @ to_string_u64 nid),
      tok_symbol = (case collection of Some c \<Rightarrow> col_symbol c | None \<Rightarrow> str ''NFT''),
      tok_decimals = 0, tok_creator = tx_from tx, tok_backing = Unbacked, tok_maxSupply = 1,
      tok_royaltyBps = 0, tok_fingerprint = None\<rparr>"

section \<open>Collections\<close>

definition executeCreateNftCollection :: "transaction \<Rightarrow> tx_context \<Rightarrow> db \<Rightarrow> receipt \<times> db" where
  "executeCreateNftCollection tx ctx d =
     (let p = tx_payload tx
      in if length p < 1 then (failure tx, d)
         else
           let name_len = unat (p ! 0); off = 1
           in if off + name_len > length p then (failure tx, d)
              else
                let name = take name_len (drop off p); off = off + name_len
                in if off + 1 > length p then (failure tx, d)
                   else
                     let sym_len = unat (p ! off); off = off + 1
                     in if off + sym_len > length p then (failure tx, d)
                        else
                          let symbol = take sym_len (drop off p); off = off + sym_len
                          in if off + 2 > length p then (failure tx, d)
                             else
                               let uri_len = unat (readU16At p off); off = off + 2
                               in if off + uri_len > length p then (failure tx, d)
                                  else
                                    let base_uri = take uri_len (drop off p); off = off + uri_len
                                    in if off + 4 + 8 + 8 > length p then (failure tx, d)
                                       else
                                         let reward_token_id = (ucast (readU32At p off) :: id);
                                             reward_rate = readU64At p (off + 4);
                                             escrow_amount = readU64At p (off + 12);
                                             next_id = readU64GlobalInternal ''next_collection_id'' d;
                                             next_id = (if next_id = 0 then 1 else next_id);
                                             c = \<lparr>col_id = next_id, col_creator = tx_from tx, col_name = name,
                                               col_symbol = symbol, col_base_uri = base_uri,
                                               col_reward_token_id = reward_token_id,
                                               col_reward_rate_per_epoch = reward_rate,
                                               col_reward_escrow_remaining = 0, col_reward_paused = False,
                                               col_created_at_height = ctx_current_height ctx,
                                               col_minted_count = 0\<rparr>
                                         in if \<not> NftCollection_isValid c then (failure tx, d)
                                            else if escrow_amount > 0
                                            then (case debitToken (tx_from tx) reward_token_id escrow_amount d of
                                              (paid, d) \<Rightarrow>
                                                if \<not> paid then (failure tx, d)
                                                else
                                                  let d = creditToken (Keys_nftCollectionAddress (db_hash d) (col_id c))
                                                            reward_token_id escrow_amount d;
                                                      c = c\<lparr>col_reward_escrow_remaining := escrow_amount\<rparr>;
                                                      d = putNftCollection c d;
                                                      d = writeU64GlobalInternal ''next_collection_id'' (col_id c + 1) d
                                                  in (success tx, d))
                                            else
                                              let d = putNftCollection c d;
                                                  d = writeU64GlobalInternal ''next_collection_id'' (col_id c + 1) d
                                              in (success tx, d))"

definition executeRefillCollectionReward :: "transaction \<Rightarrow> tx_context \<Rightarrow> db \<Rightarrow> receipt \<times> db" where
  "executeRefillCollectionReward tx ctx d =
     (if length (tx_payload tx) \<noteq> 16 then (failure tx, d)
      else
        let collection_id = readU64At (tx_payload tx) 0;
            amount = readU64At (tx_payload tx) 8
        in if amount = 0 then (failure tx, d)
           else (case getNftCollection collection_id d of
             None \<Rightarrow> (failure tx, d)
           | Some collection \<Rightarrow>
             if \<not> NftCollection_hasReward collection then (failure tx, d)
             else if col_creator collection \<noteq> tx_from tx then (failure tx, d)
             else (case debitToken (tx_from tx) (col_reward_token_id collection) amount d of
               (paid, d) \<Rightarrow>
                 if \<not> paid then (failure tx, d)
                 else
                   let d = creditToken (Keys_nftCollectionAddress (db_hash d) collection_id)
                             (col_reward_token_id collection) amount d;
                       collection = collection\<lparr>col_reward_escrow_remaining :=
                         col_reward_escrow_remaining collection + amount\<rparr>;
                       collection = (if col_reward_paused collection \<and> col_reward_escrow_remaining collection > 0
                                     then collection\<lparr>col_reward_paused := False\<rparr> else collection)
                   in (success tx, putNftCollection collection d))))"

section \<open>Minting and wrapping\<close>

text \<open>The collection of an NFT: \<open>None\<close> when the named one is missing, \<open>Some None\<close> for identifier 0.\<close>

definition collection_of :: "u64 \<Rightarrow> db \<Rightarrow> nft_collection option option" where
  "collection_of collection_id d =
     (if collection_id = 0 then Some None
      else (case getNftCollection collection_id d of None \<Rightarrow> None | Some c \<Rightarrow> Some (Some c)))"

definition count_mint :: "nft_collection option \<Rightarrow> db \<Rightarrow> db" where
  "count_mint collection d =
     (case collection of
        None \<Rightarrow> d
      | Some c \<Rightarrow> putNftCollection (c\<lparr>col_minted_count := col_minted_count c + 1\<rparr>) d)"

definition executeMintNft :: "transaction \<Rightarrow> tx_context \<Rightarrow> db \<Rightarrow> receipt \<times> db" where
  "executeMintNft tx ctx d =
     (let p = tx_payload tx
      in if length p < 8 + 32 + 1 + 2 then (failure tx, d)
         else
           let collection_id = readU64At p 0;
               metadata_hash = take 32 (drop 8 p);
               has_hash = p ! 40
           in if has_hash > 1 then (failure tx, d)
              else if has_hash = 0 \<and> \<not> isNull metadata_hash then (failure tx, d)
              else
                let metadata_hash = (if has_hash = 0 then null32 else metadata_hash);
                    uri_len = unat (readU16At p 41)
                in if 43 + uri_len > length p then (failure tx, d)
                   else
                     let uri = take uri_len (drop 43 p)
                     in if length uri > NFT_URI_MAX then (failure tx, d)
                        else (case collection_of collection_id d of
                          None \<Rightarrow> (failure tx, d)
                        | Some collection \<Rightarrow>
                          let next_token_id = readU64GlobalInternal ''next_token_id'' d;
                              next_token_id = (if next_token_id = 0 then 1 else next_token_id);
                              next_nft_id = next_token_id;
                              shadow = shadow_token tx next_nft_id collection
                          in if \<not> TokenInfo_isValid shadow then (failure tx, d)
                             else
                               let d = putToken shadow d;
                                   d = putTokenSupply (tok_id shadow) 1 d;
                                   d = putTokenBalance (tx_from tx) (tok_id shadow) 1 d;
                                   nft = \<lparr>nft_id = next_nft_id, nft_owner = tx_from tx, nft_creator = tx_from tx,
                                     nft_shadow_token_id = tok_id shadow, nft_underlying_token_id = 0,
                                     nft_wrapped_amount = 0, nft_collection_id = collection_id,
                                     nft_metadata_hash = metadata_hash, nft_metadata_uri = uri, nft_frozen = False,
                                     nft_last_accrual_height = ctx_current_height ctx, nft_accrued_owed = 0,
                                     nft_created_at_height = ctx_current_height ctx\<rparr>
                               in if \<not> NftInfo_isValid nft then (failure tx, d)
                                  else
                                    let d = putNft nft d;
                                        d = count_mint collection d;
                                        d = writeU64GlobalInternal ''next_token_id'' (nft_id nft + 1) d
                                    in (success tx, d)))"

definition executeWrapNft :: "transaction \<Rightarrow> tx_context \<Rightarrow> db \<Rightarrow> receipt \<times> db" where
  "executeWrapNft tx ctx d =
     (let p = tx_payload tx
      in if length p < 4 + 8 + 8 + 32 + 1 + 2 then (failure tx, d)
         else
           let underlying = (ucast (readU32At p 0) :: id);
               wrapped_amount = readU64At p 4;
               collection_id = readU64At p 12;
               metadata_hash = take 32 (drop 20 p);
               has_hash = p ! 52
           in if has_hash > 1 then (failure tx, d)
              else if has_hash = 0 \<and> \<not> isNull metadata_hash then (failure tx, d)
              else
                let metadata_hash = (if has_hash = 0 then null32 else metadata_hash);
                    uri_len = unat (readU16At p 53)
                in if 55 + uri_len > length p then (failure tx, d)
                   else
                     let uri = take uri_len (drop 55 p)
                     in if underlying = 0 then (failure tx, d)
                        else if wrapped_amount = 0 then (failure tx, d)
                        else if length uri > NFT_URI_MAX then (failure tx, d)
                        else (case collection_of collection_id d of
                          None \<Rightarrow> (failure tx, d)
                        | Some collection \<Rightarrow>
                          let next_token_id = readU64GlobalInternal ''next_token_id'' d;
                              next_token_id = (if next_token_id = 0 then 1 else next_token_id);
                              next_nft_id = next_token_id
                          in if underlying = next_nft_id then (failure tx, d)
                             else
                               let shadow = shadow_token tx next_nft_id collection
                               in if \<not> TokenInfo_isValid shadow then (failure tx, d)
                                  else (case debitToken (tx_from tx) underlying wrapped_amount d of
                                    (paid, d) \<Rightarrow>
                                      if \<not> paid then (failure tx, d)
                                      else
                                        let custody = Keys_nftAddress (db_hash d) next_nft_id;
                                            d = creditToken custody underlying wrapped_amount d;
                                            d = putToken shadow d;
                                            d = putTokenSupply (tok_id shadow) 1 d;
                                            d = putTokenBalance (tx_from tx) (tok_id shadow) 1 d;
                                            nft = \<lparr>nft_id = next_nft_id, nft_owner = tx_from tx,
                                              nft_creator = tx_from tx, nft_shadow_token_id = tok_id shadow,
                                              nft_underlying_token_id = underlying,
                                              nft_wrapped_amount = wrapped_amount,
                                              nft_collection_id = collection_id,
                                              nft_metadata_hash = metadata_hash, nft_metadata_uri = uri,
                                              nft_frozen = False,
                                              nft_last_accrual_height = ctx_current_height ctx,
                                              nft_accrued_owed = 0,
                                              nft_created_at_height = ctx_current_height ctx\<rparr>
                                        in if \<not> NftInfo_isValid nft then (failure tx, d)
                                           else
                                             let d = putNft nft d;
                                                 d = count_mint collection d;
                                                 d = writeU64GlobalInternal ''next_token_id'' (nft_id nft + 1) d
                                             in (success tx, d))))"

section \<open>Transfer, burn and rewards\<close>

definition nft_accrued :: "tx_context \<Rightarrow> nft_info \<Rightarrow> nft_collection \<Rightarrow> u64" where
  "nft_accrued ctx nft collection =
     (ctx_current_height ctx - nft_last_accrual_height nft) div ROTATION_INTERVAL
       * col_reward_rate_per_epoch collection"

text \<open>The settlement that a transfer and a burn begin with.\<close>

definition settle_rewards :: "tx_context \<Rightarrow> nft_info \<Rightarrow> db \<Rightarrow> db" where
  "settle_rewards ctx nft d =
     (if nft_collection_id nft \<noteq> 0
      then (case getNftCollection (nft_collection_id nft) d of
              None \<Rightarrow> d
            | Some collection \<Rightarrow>
                if NftCollection_hasReward collection
                then let accrued = nft_accrued ctx nft collection
                     in if accrued > 0
                        then let acct = getAccount (nft_owner nft) d
                             in putAccount (nft_owner nft)
                                  (acct\<lparr>acct_pending_rewards := acct_pending_rewards acct + accrued\<rparr>) d
                        else d
                else d)
      else d)"

definition executeTransferNft :: "transaction \<Rightarrow> tx_context \<Rightarrow> db \<Rightarrow> receipt \<times> db" where
  "executeTransferNft tx ctx d =
     (if length (tx_payload tx) \<noteq> 8 + 32 then (failure tx, d)
      else
        let nid = readU64At (tx_payload tx) 0;
            new_owner = take 32 (drop 8 (tx_payload tx))
        in if isNull new_owner then (failure tx, d)
           else (case getNft nid d of
             None \<Rightarrow> (failure tx, d)
           | Some nft \<Rightarrow>
             if nft_owner nft \<noteq> tx_from tx then (failure tx, d)
             else if nft_owner nft = new_owner then (failure tx, d)
             else
               let d = settle_rewards ctx nft d;
                   shadow_balance = getTokenBalance (nft_owner nft) (nft_shadow_token_id nft) d
               in if shadow_balance < 1 then (failure tx, d)
                  else
                    let d = putTokenBalance (nft_owner nft) (nft_shadow_token_id nft) (shadow_balance - 1) d;
                        buyer_balance = getTokenBalance new_owner (nft_shadow_token_id nft) d;
                        d = putTokenBalance new_owner (nft_shadow_token_id nft) (buyer_balance + 1) d;
                        d = unindexNft nft d;
                        nft = nft\<lparr>nft_owner := new_owner, nft_last_accrual_height := ctx_current_height ctx,
                                  nft_accrued_owed := 0\<rparr>
                    in (success tx, putNft nft d)))"

definition executeBurnNft :: "transaction \<Rightarrow> tx_context \<Rightarrow> db \<Rightarrow> receipt \<times> db" where
  "executeBurnNft tx ctx d =
     (if length (tx_payload tx) \<noteq> 8 then (failure tx, d)
      else
        let nid = readU64At (tx_payload tx) 0
        in (case getNft nid d of
          None \<Rightarrow> (failure tx, d)
        | Some nft \<Rightarrow>
          if nft_owner nft \<noteq> tx_from tx then (failure tx, d)
          else
            let d = settle_rewards ctx nft d;
                shadow_balance = getTokenBalance (nft_owner nft) (nft_shadow_token_id nft) d
            in if shadow_balance < 1 then (failure tx, d)
               else
                 let d = putTokenBalance (nft_owner nft) (nft_shadow_token_id nft) (shadow_balance - 1) d;
                     d = putTokenSupply (nft_shadow_token_id nft) 0 d;
                     (released, d) =
                       (if NftInfo_isWrapped nft \<and> nft_wrapped_amount nft > 0
                        then (case debitToken (Keys_nftAddress (db_hash d) nid) (nft_underlying_token_id nft)
                                     (nft_wrapped_amount nft) d of
                                (paid, d) \<Rightarrow>
                                  if \<not> paid then (False, d)
                                  else (True, creditToken (nft_owner nft) (nft_underlying_token_id nft)
                                                (nft_wrapped_amount nft) d))
                        else (True, d))
                 in if \<not> released then (failure tx, d)
                    else
                      let d = deleteNft nid d
                      in if nft_collection_id nft \<noteq> 0
                         then (case getNftCollection (nft_collection_id nft) d of
                                 None \<Rightarrow> (success tx, d)
                               | Some collection \<Rightarrow>
                                   let collection = (if col_minted_count collection > 0
                                         then collection\<lparr>col_minted_count := col_minted_count collection - 1\<rparr>
                                         else collection)
                                   in (success tx, putNftCollection collection d))
                         else (success tx, d)))"

definition executeUpdateNftMetadata :: "transaction \<Rightarrow> tx_context \<Rightarrow> db \<Rightarrow> receipt \<times> db" where
  "executeUpdateNftMetadata tx ctx d =
     (let p = tx_payload tx
      in if length p < 8 + 32 + 1 + 2 then (failure tx, d)
         else
           let nid = readU64At p 0;
               new_hash = take 32 (drop 8 p);
               has_hash = p ! 40
           in if has_hash > 1 then (failure tx, d)
              else
                let new_hash = (if has_hash = 0 then null32 else new_hash);
                    uri_len = unat (readU16At p 41)
                in if 43 + uri_len + 1 > length p then (failure tx, d)
                   else
                     let new_uri = take uri_len (drop 43 p);
                         freeze = p ! (43 + uri_len)
                     in if freeze > 1 then (failure tx, d)
                        else if length new_uri > NFT_URI_MAX then (failure tx, d)
                        else (case getNft nid d of
                          None \<Rightarrow> (failure tx, d)
                        | Some nft \<Rightarrow>
                          if nft_owner nft \<noteq> tx_from tx then (failure tx, d)
                          else if nft_frozen nft then (failure tx, d)
                          else
                            let nft = nft\<lparr>nft_metadata_hash := new_hash, nft_metadata_uri := new_uri\<rparr>;
                                nft = (if freeze = 1 then nft\<lparr>nft_frozen := True\<rparr> else nft)
                            in if \<not> NftInfo_isValid nft then (failure tx, d)
                               else (success tx, putNft nft d)))"

definition executeTopUpNft :: "transaction \<Rightarrow> tx_context \<Rightarrow> db \<Rightarrow> receipt \<times> db" where
  "executeTopUpNft tx ctx d =
     (if length (tx_payload tx) \<noteq> 8 + 4 + 8 then (failure tx, d)
      else
        let nid = readU64At (tx_payload tx) 0;
            token_id = (ucast (readU32At (tx_payload tx) 8) :: id);
            amount = readU64At (tx_payload tx) 12
        in if amount = 0 then (failure tx, d)
           else (case getNft nid d of
             None \<Rightarrow> (failure tx, d)
           | Some nft \<Rightarrow>
             if NftInfo_isWrapped nft \<and> token_id \<noteq> nft_underlying_token_id nft then (failure tx, d)
             else (case debitToken (tx_from tx) token_id amount d of
               (paid, d) \<Rightarrow>
                 if \<not> paid then (failure tx, d)
                 else
                   let d = creditToken (Keys_nftAddress (db_hash d) nid) token_id amount d
                   in if NftInfo_isWrapped nft \<and> token_id = nft_underlying_token_id nft
                      then (success tx, putNft (nft\<lparr>nft_wrapped_amount := nft_wrapped_amount nft + amount\<rparr>) d)
                      else (success tx, d))))"

definition claim_visit :: "tx_context \<Rightarrow> nft_info \<Rightarrow> u64 \<times> db \<Rightarrow> u64 \<times> db" where
  "claim_visit ctx nft = (\<lambda>(total_claimed, d).
     if nft_collection_id nft = 0 then (total_claimed, d)
     else (case getNftCollection (nft_collection_id nft) d of
       None \<Rightarrow> (total_claimed, d)
     | Some collection \<Rightarrow>
       if \<not> NftCollection_hasReward collection then (total_claimed, d)
       else
         let accrued = nft_accrued ctx nft collection
         in if accrued = 0 then (total_claimed, d)
            else (total_claimed + accrued,
                  putNft (nft\<lparr>nft_last_accrual_height := ctx_current_height ctx, nft_accrued_owed := 0\<rparr>) d)))"

definition executeClaimNftReward :: "transaction \<Rightarrow> tx_context \<Rightarrow> db \<Rightarrow> receipt \<times> db" where
  "executeClaimNftReward tx ctx d =
     (if tx_payload tx \<noteq> [] then (failure tx, d)
      else
        let acct = getAccount (tx_from tx) d;
            (total_claimed, d) = forEachNftForOwner (tx_from tx) (claim_visit ctx) d (0, d)
        in if total_claimed > 0
           then (success tx, putAccount (tx_from tx)
                   (acct\<lparr>acct_pending_rewards := acct_pending_rewards acct + total_claimed\<rparr>) d)
           else (success tx, d))"

end
