(* ===== verification/Executor.thy ===== *)
theory Executor
  imports Exec_Accounts Exec_Dex Exec_Nft
begin

text \<open>
  \<^verbatim>\<open>TransactionExecutor::execute\<close>: the checks, the fee, the dispatch by type and the nonce. \<open>None\<close>
  is a trap of a handler (see \<^verbatim>\<open>Exec_Dex\<close>). The signature verifier is the parameter \<open>sig_ok\<close>.
\<close>

definition dispatch :: "transaction \<Rightarrow> tx_context \<Rightarrow> db \<Rightarrow> (receipt \<times> db) option" where
  "dispatch tx ctx d =
     (case tx_type tx of
        Tx_Transfer \<Rightarrow> Some (executeTransfer tx ctx d)
      | Tx_OptInStaking \<Rightarrow> Some (executeOptInStaking tx ctx d)
      | Tx_OptOutStaking \<Rightarrow> Some (executeOptOutStaking tx ctx d)
      | Tx_ClaimRewards \<Rightarrow> Some (executeClaimRewards tx ctx d)
      | Tx_RegisterValidator \<Rightarrow> Some (executeRegisterValidator tx ctx d)
      | Tx_UnregisterValidator \<Rightarrow> Some (executeUnregisterValidator tx ctx d)
      | Tx_UpdateRewardAddress \<Rightarrow> Some (executeUpdateRewardAddress tx ctx d)
      | Tx_RotateConsensusKey \<Rightarrow> Some (executeRotateConsensusKey tx ctx d)
      | Tx_CreateToken \<Rightarrow> Some (executeCreateToken tx ctx d)
      | Tx_MintToken \<Rightarrow> Some (executeMintToken tx ctx d)
      | Tx_BurnToken \<Rightarrow> Some (executeBurnToken tx ctx d)
      | Tx_UpdateTokenMeta \<Rightarrow> Some (executeUpdateTokenMeta tx ctx d)
      | Tx_CreatePool \<Rightarrow> Some (executeCreatePool tx ctx d)
      | Tx_AddLiquidity \<Rightarrow> Some (executeAddLiquidity tx ctx d)
      | Tx_RemoveLiquidity \<Rightarrow> executeRemoveLiquidity tx ctx d
      | Tx_Swap \<Rightarrow> executeSwap tx ctx d
      | Tx_CreateOrder \<Rightarrow> Some (executeCreateOrder tx ctx d)
      | Tx_CancelOrder \<Rightarrow> Some (executeCancelOrder tx ctx d)
      | Tx_CreateNftCollection \<Rightarrow> Some (executeCreateNftCollection tx ctx d)
      | Tx_MintNft \<Rightarrow> Some (executeMintNft tx ctx d)
      | Tx_WrapNft \<Rightarrow> Some (executeWrapNft tx ctx d)
      | Tx_TransferNft \<Rightarrow> Some (executeTransferNft tx ctx d)
      | Tx_BurnNft \<Rightarrow> Some (executeBurnNft tx ctx d)
      | Tx_UpdateNftMetadata \<Rightarrow> Some (executeUpdateNftMetadata tx ctx d)
      | Tx_TopUpNft \<Rightarrow> Some (executeTopUpNft tx ctx d)
      | Tx_ClaimNftReward \<Rightarrow> Some (executeClaimNftReward tx ctx d)
      | Tx_RefillCollectionReward \<Rightarrow> Some (executeRefillCollectionReward tx ctx d)
      | _ \<Rightarrow> Some (failure tx, d))"

definition execute ::
    "(hash \<Rightarrow> address \<Rightarrow> bytes \<Rightarrow> bool) \<Rightarrow> transaction \<Rightarrow> tx_context \<Rightarrow> db \<Rightarrow> (receipt \<times> db) option" where
  "execute sig_ok tx ctx d =
     (if \<not> Transaction_isWellFormed tx then Some (failure tx, d)
      else if tx_chain_id tx \<noteq> ctx_chain_id ctx then Some (failure tx, d)
      else if \<not> checkExpiry tx ctx then Some (failure tx, d)
      else if \<not> verifySignature sig_ok (db_hash d) tx then Some (failure tx, d)
      else if \<not> verifyNonce tx d then Some (failure tx, d)
      else (case chargeFee tx d of
        (charged, d) \<Rightarrow>
          if \<not> charged then Some (failure tx, d)
          else (case dispatch tx ctx d of
            None \<Rightarrow> None
          | Some (receipt, d) \<Rightarrow>
              if rcpt_status receipt = Success then Some (receipt, bumpNonce tx d)
              else Some (receipt, d))))"

end
