(* ===== verification/Funds.thy ===== *)
theory Funds
  imports Exec_Base Rewards
begin

text \<open>
  The funds of a token: spendable balances, locks of open orders and reserves of pools, and what each
  state operation of the handlers does to them. Every lemma is a consequence of the entries of the
  state tree the operation writes.
\<close>

section \<open>Entries written by the remaining operations\<close>

lemma putGlobal_fields [simp]:
  "db_hash (putGlobal n v d) = db_hash d" "db_version (putGlobal n v d) = db_version d"
  "db_ok d \<Longrightarrow> db_ok (putGlobal n v d)"
  by (simp_all add: putGlobal_def)

lemma object_fields [simp]:
  "db_hash (putToken t d) = db_hash d" "db_version (putToken t d) = db_version d"
  "db_ok d \<Longrightarrow> db_ok (putToken t d)"
  "db_hash (putTokenSupply i s d) = db_hash d" "db_version (putTokenSupply i s d) = db_version d"
  "db_ok d \<Longrightarrow> db_ok (putTokenSupply i s d)"
  "db_hash (putValidatorByAddress a i d) = db_hash d" "db_version (putValidatorByAddress a i d) = db_version d"
  "db_ok d \<Longrightarrow> db_ok (putValidatorByAddress a i d)"
  "db_hash (deleteValidatorByAddress a d) = db_hash d" "db_version (deleteValidatorByAddress a d) = db_version d"
  "db_ok d \<Longrightarrow> db_ok (deleteValidatorByAddress a d)"
  "db_hash (putValidatorKeyHistory i h d) = db_hash d" "db_version (putValidatorKeyHistory i h d) = db_version d"
  "db_ok d \<Longrightarrow> db_ok (putValidatorKeyHistory i h d)"
  "db_version (putValidator v d) = db_version d" "db_version (deleteValidator i d) = db_version d"
  "db_hash (putNft n d) = db_hash d" "db_version (putNft n d) = db_version d" "db_ok d \<Longrightarrow> db_ok (putNft n d)"
  "db_hash (unindexNft n d) = db_hash d" "db_version (unindexNft n d) = db_version d" "db_ok d \<Longrightarrow> db_ok (unindexNft n d)"
  "db_hash (deleteNft i d) = db_hash d" "db_version (deleteNft i d) = db_version d" "db_ok d \<Longrightarrow> db_ok (deleteNft i d)"
  "db_hash (putNftCollection c d) = db_hash d" "db_version (putNftCollection c d) = db_version d"
  "db_ok d \<Longrightarrow> db_ok (putNftCollection c d)"
  by (simp_all add: putToken_def indexTokenRow_def putTokenSupply_def putValidatorByAddress_def
      deleteValidatorByAddress_def putValidatorKeyHistory_def putValidator_def deleteValidator_def
      putNft_def unindexNft_def deleteNft_def putNftCollection_def Let_def split: option.split)

lemma object_keys_ok [simp]:
  assumes "keys_ok K d"
  shows "keys_ok K (putGlobal n b d)" "keys_ok K (putToken t d)" "keys_ok K (putTokenSupply i s d)"
    "keys_ok K (putValidator v d)" "keys_ok K (deleteValidator i d)"
    "keys_ok K (putValidatorByAddress a i d)" "keys_ok K (deleteValidatorByAddress a d)"
    "keys_ok K (putValidatorKeyHistory i h d)" "keys_ok K (putNft nf d)" "keys_ok K (unindexNft nf d)"
    "keys_ok K (deleteNft i d)" "keys_ok K (putNftCollection c d)"
  using assms keys_okD [OF assms] by (auto intro: keys_ok_cong)

lemma object_smt:
  "smt_get k (putGlobal n b d) = (if k = skey_of (db_hash d) (KGlobal n) then Some b else smt_get k d)"
  "smt_get k (putToken t d) =
     (if k = skey_of (db_hash d) (KToken (ucast (tok_id t))) then Some (TokenInfo_serializeState t) else smt_get k d)"
  "smt_get k (putTokenSupply i s d) = (if k = skey_of (db_hash d) (KTokenSupply (ucast i))
     then (if s = 0 then None else Some (writeU64 s)) else smt_get k d)"
  "smt_get k (putValidator v d) =
     (if k = skey_of (db_hash d) (KValidator (val_id v)) then Some (ValidatorInfo_serializeState v) else smt_get k d)"
  "smt_get k (deleteValidator j d) = (if k = skey_of (db_hash d) (KValidator j) then None else smt_get k d)"
  "smt_get k (putValidatorByAddress a j d) =
     (if k = skey_of (db_hash d) (KValidatorByAddress a) then Some (writeU64 j) else smt_get k d)"
  "smt_get k (deleteValidatorByAddress a d) =
     (if k = skey_of (db_hash d) (KValidatorByAddress a) then None else smt_get k d)"
  "smt_get k (putValidatorKeyHistory j h d) = (if k = skey_of (db_hash d) (KValidatorKeyHistory j)
     then (if h = [] then None else Some (encodeKeyHistory h)) else smt_get k d)"
  "smt_get k (putNft nf d) =
     (if k = skey_of (db_hash d) (KNft (nft_id nf)) then Some (NftInfo_serializeState nf) else smt_get k d)"
  "smt_get k (unindexNft nf d) = smt_get k d"
  "smt_get k (deleteNft j d) = (if k = skey_of (db_hash d) (KNft j) then None else smt_get k d)"
  "smt_get k (putNftCollection c d) = (if k = skey_of (db_hash d) (KNftCollection (col_id c))
     then Some (NftCollection_serializeState c) else smt_get k d)"
  by (simp_all add: putGlobal_def putToken_def indexTokenRow_def putTokenSupply_def putValidatorByAddress_def
      deleteValidatorByAddress_def putValidatorKeyHistory_def putValidator_def deleteValidator_def
      putNft_def unindexNft_def deleteNft_def putNftCollection_def Let_def Keys_skey split: option.split)

lemma leaf_objects:
  assumes "keys_ok K d" "k \<in> K"
  shows "KGlobal n \<in> K \<Longrightarrow> leaf k (putGlobal n b d) = (if k = KGlobal n then Some b else leaf k d)"
    "KToken (ucast (tok_id t)) \<in> K \<Longrightarrow> leaf k (putToken t d) =
      (if k = KToken (ucast (tok_id t)) then Some (TokenInfo_serializeState t) else leaf k d)"
    "KTokenSupply (ucast i) \<in> K \<Longrightarrow> leaf k (putTokenSupply i s d) =
      (if k = KTokenSupply (ucast i) then (if s = 0 then None else Some (writeU64 s)) else leaf k d)"
    "KValidator (val_id v) \<in> K \<Longrightarrow> leaf k (putValidator v d) =
      (if k = KValidator (val_id v) then Some (ValidatorInfo_serializeState v) else leaf k d)"
    "KValidator j \<in> K \<Longrightarrow> leaf k (deleteValidator j d) = (if k = KValidator j then None else leaf k d)"
    "KValidatorByAddress a \<in> K \<Longrightarrow> leaf k (putValidatorByAddress a j d) =
      (if k = KValidatorByAddress a then Some (writeU64 j) else leaf k d)"
    "KValidatorByAddress a \<in> K \<Longrightarrow> leaf k (deleteValidatorByAddress a d) =
      (if k = KValidatorByAddress a then None else leaf k d)"
    "KValidatorKeyHistory j \<in> K \<Longrightarrow> leaf k (putValidatorKeyHistory j h d) =
      (if k = KValidatorKeyHistory j then (if h = [] then None else Some (encodeKeyHistory h)) else leaf k d)"
    "KNft (nft_id nf) \<in> K \<Longrightarrow> leaf k (putNft nf d) =
      (if k = KNft (nft_id nf) then Some (NftInfo_serializeState nf) else leaf k d)"
    "leaf k (unindexNft nf d) = leaf k d"
    "KNft j \<in> K \<Longrightarrow> leaf k (deleteNft j d) = (if k = KNft j then None else leaf k d)"
    "KNftCollection (col_id c) \<in> K \<Longrightarrow> leaf k (putNftCollection c d) =
      (if k = KNftCollection (col_id c) then Some (NftCollection_serializeState c) else leaf k d)"
  using assms by (simp_all add: leaf_def object_smt keys_eq)

lemma ledger_keys_objects [simp]:
  "KToken t \<in> ledger_keys A I" "KTokenSupply t \<in> ledger_keys A I" "KValidator v \<in> ledger_keys A I"
  "KValidatorByAddress a \<in> ledger_keys A I \<longleftrightarrow> a \<in> A" "KAmmPosition n \<in> ledger_keys A I"
  "KAmmPositionIndex a n \<in> ledger_keys A I \<longleftrightarrow> a \<in> A" "KValidatorKeyHistory v \<in> ledger_keys A I"
  "KNft n \<in> ledger_keys A I" "KNftCollection n \<in> ledger_keys A I" "KReceipt h \<notin> ledger_keys A I"
  by (simp_all add: ledger_keys_def)

lemma global_names_more [simp]:
  "''pot'' \<in> global_names" "''epoch_number'' \<in> global_names" "''total_supply'' \<in> global_names"
  "''next_token_id'' \<in> global_names" "''next_order_id'' \<in> global_names" "''next_validator_id'' \<in> global_names"
  "''next_pool_id'' \<in> global_names" "''next_position_id'' \<in> global_names" "''next_collection_id'' \<in> global_names"
  "''active_set'' \<in> global_names" "''active_set_size'' \<in> global_names" "''last_rotation_height'' \<in> global_names"
  "''apy_activity_bps'' \<in> global_names" "''apy_pot_bps'' \<in> global_names"
  by (simp_all add: global_names_def)

section \<open>Reserves\<close>

definition pool_hold :: "u32 \<Rightarrow> amm_pool option \<Rightarrow> nat" where
  "pool_hold t x = (case x of None \<Rightarrow> 0
     | Some p \<Rightarrow> (if pool_token_a p = ucast t then unat (pool_reserve_a p) else 0)
                + (if pool_token_b p = ucast t then unat (pool_reserve_b p) else 0))"

definition total_pooled :: "id set \<Rightarrow> u32 \<Rightarrow> db \<Rightarrow> nat" where
  "total_pooled P t d = (\<Sum>i \<in> P. pool_hold t (getAmmPool i d))"

text \<open>Everything the ledger holds of a token: balances of \<open>A\<close>, locks of \<open>I\<close>, reserves of \<open>P\<close>.\<close>

definition funds :: "address set \<Rightarrow> id set \<Rightarrow> id set \<Rightarrow> u32 \<Rightarrow> db \<Rightarrow> nat" where
  "funds A I P t d = wealth A I t d + total_pooled P t d"

lemma pool_hold_le_total: "finite P \<Longrightarrow> i \<in> P \<Longrightarrow> pool_hold t (getAmmPool i d) \<le> total_pooled P t d"
  unfolding total_pooled_def by (rule member_le_sum [where f = "\<lambda>i. pool_hold t (getAmmPool i d)"]) simp_all

lemma total_pooled_put:
  assumes "keys_ok (ledger_keys A I) d" "finite P" "pool_id p \<in> P" "AmmPool_wf p"
  shows "total_pooled P t (putAmmPool p d) + pool_hold t (getAmmPool (pool_id p) d)
    = total_pooled P t d + pool_hold t (Some p)"
  using sum_update_one [OF assms(2,3), where g = "\<lambda>i. pool_hold t (getAmmPool i (putAmmPool p d))"
      and f = "\<lambda>i. pool_hold t (getAmmPool i d)"] assms(1,4)
  by (simp add: total_pooled_def getAmmPool_put)

lemma total_pooled_delete:
  assumes "keys_ok (ledger_keys A I) d" "finite P" "j \<in> P"
  shows "total_pooled P t (deleteAmmPool j d) + pool_hold t (getAmmPool j d) = total_pooled P t d"
  using sum_update_one [OF assms(2,3), where g = "\<lambda>i. pool_hold t (getAmmPool i (deleteAmmPool j d))"
      and f = "\<lambda>i. pool_hold t (getAmmPool i d)"] assms(1)
  by (simp add: total_pooled_def getAmmPool_delete pool_hold_def)

section \<open>Accounts and token balances\<close>

text \<open>The leaf of every kind of object but the account and the two aggregates survives \<^verbatim>\<open>putAccount\<close>.\<close>

lemma fits32_native: "fits32 t \<Longrightarrow> ucast (ucast t :: u32) = NATIVE_TOKEN_ID \<longleftrightarrow> t = NATIVE_TOKEN_ID"
  by (simp add: ucast_fits32)

lemma putAccount_bal:
  assumes "keys_ok (ledger_keys A I) d" "a \<in> A" "b \<in> A"
  shows "bal b t (putAccount a x d) =
    (if b = a \<and> ucast t = NATIVE_TOKEN_ID then unat (acct_balance x) else bal b t d)"
  using assms by (simp add: bal_leaf leaf_putAccount)

lemma putTokenBalance_bal:
  assumes "keys_ok (ledger_keys A I) d" "a \<in> A" "b \<in> A"
  shows "bal b t (putTokenBalance a t' v d) =
    (if b = a \<and> t = ucast t' \<and> ucast t \<noteq> NATIVE_TOKEN_ID then unat v else bal b t d)"
  using assms by (auto simp: bal_leaf leaf_putTokenBalance)

lemma putAccount_total:
  assumes "keys_ok (ledger_keys A I) d" "finite A" "a \<in> A"
  shows "total_bal A t (putAccount a x d) + (if ucast t = NATIVE_TOKEN_ID then bal a t d else 0)
    = total_bal A t d + (if ucast t = NATIVE_TOKEN_ID then unat (acct_balance x) else 0)"
  using sum_update_one [OF assms(2,3), where g = "\<lambda>b. bal b t (putAccount a x d)" and f = "\<lambda>b. bal b t d"] assms
  by (auto simp: total_bal_def putAccount_bal)

lemma putTokenBalance_total:
  assumes "keys_ok (ledger_keys A I) d" "finite A" "a \<in> A" "t' \<noteq> NATIVE_TOKEN_ID" "fits32 t'"
  shows "total_bal A t (putTokenBalance a t' v d) + (if t = ucast t' then bal a t d else 0)
    = total_bal A t d + (if t = ucast t' then unat v else 0)"
  using sum_update_one [OF assms(2,3), where g = "\<lambda>b. bal b t (putTokenBalance a t' v d)" and f = "\<lambda>b. bal b t d"]
    assms fits32_native [OF assms(5)]
  by (auto simp: total_bal_def putTokenBalance_bal)

text \<open>What reads of other objects see after a balance is written.\<close>

lemma balance_frames:
  assumes "keys_ok (ledger_keys A I) d" "a \<in> A"
  shows "i \<in> I \<Longrightarrow> getOrder i (putAccount a x d) = getOrder i d"
    "i \<in> I \<Longrightarrow> getOrder i (putTokenBalance a t v d) = getOrder i d"
    "getAmmPool j (putAccount a x d) = getAmmPool j d"
    "getAmmPool j (putTokenBalance a t v d) = getAmmPool j d"
  using assms by (simp_all add: getOrder_leaf getAmmPool_leaf leaf_putAccount leaf_putTokenBalance)

section \<open>Frames: operations that move no funds\<close>

text \<open>
  Operations outside the ledger leave every balance, lock and reserve as it is.
\<close>

definition same_funds :: "address set \<Rightarrow> id set \<Rightarrow> db \<Rightarrow> db \<Rightarrow> bool" where
  "same_funds A I d' d \<longleftrightarrow> (\<forall>a \<in> A. \<forall>t. bal a t d' = bal a t d) \<and> (\<forall>i \<in> I. getOrder i d' = getOrder i d)
     \<and> (\<forall>j. getAmmPool j d' = getAmmPool j d)"

lemma same_funds_leaf:
  assumes "\<And>k. k \<in> ledger_keys A I \<Longrightarrow> (\<exists>a. k = KAccount a) \<or> (\<exists>a t. k = KTokenBalance a t) \<or> (\<exists>i. k = KOrder i)
      \<or> (\<exists>j. k = KAmmPool j) \<Longrightarrow> leaf k d' = leaf k d"
  shows "same_funds A I d' d"
  using assms by (simp add: same_funds_def bal_leaf getOrder_leaf getAmmPool_leaf)

lemma same_funds_ops [simp]:
  assumes "keys_ok (ledger_keys A I) d"
  shows "n \<in> global_names \<Longrightarrow> same_funds A I (putGlobal n b d) d"
    "same_funds A I (putToken tk d) d" "same_funds A I (putTokenSupply i s d) d"
    "same_funds A I (putValidator v d) d" "same_funds A I (deleteValidator j d) d"
    "a \<in> A \<Longrightarrow> same_funds A I (putValidatorByAddress a j d) d"
    "a \<in> A \<Longrightarrow> same_funds A I (deleteValidatorByAddress a d) d"
    "same_funds A I (putValidatorKeyHistory j h d) d"
    "same_funds A I (putNft nf d) d" "same_funds A I (unindexNft nf d) d" "same_funds A I (deleteNft j d) d"
    "same_funds A I (putNftCollection c d) d" "same_funds A I (putAmmPosition q d) d"
    "a \<in> A \<Longrightarrow> same_funds A I (putPositionIndex a j n' d) d"
    "a \<in> A \<Longrightarrow> same_funds A I (deletePositionIndex a j d) d"
  by (rule same_funds_leaf, elim disjE exE; simp add: leaf_objects [OF assms] leaf_amm [OF assms])+

lemma same_funds_refl [simp]: "same_funds A I d d"
  by (simp add: same_funds_def)

lemma same_funds_trans: "same_funds A I d'' d' \<Longrightarrow> same_funds A I d' d \<Longrightarrow> same_funds A I d'' d"
  by (simp add: same_funds_def)

lemma same_funds_eq:
  assumes "same_funds A I d' d"
  shows "funds A I P t d' = funds A I P t d" "total_bal A t d' = total_bal A t d"
    "total_locked I t d' = total_locked I t d" "total_pooled P t d' = total_pooled P t d"
  using assms by (simp_all add: same_funds_def funds_def wealth_def total_bal_def total_locked_def total_pooled_def)

section \<open>Taking and giving\<close>

lemma bal_id:
  assumes "fits32 t"
  shows "bal a (ucast t) d = (if t = NATIVE_TOKEN_ID then unat (acct_balance (getAccount a d))
    else unat (getTokenBalance a t d))"
  using assms by (simp add: bal_def ucast_fits32)

lemma lacks_bal: "fits32 t \<Longrightarrow> lacks a t x d \<longleftrightarrow> bal a (ucast t) d < unat x"
  by (simp add: lacks_def bal_id word_less_nat_alt)

lemma funds_fields [simp]:
  "db_hash (take_funds a t x d) = db_hash d" "db_version (take_funds a t x d) = db_version d"
  "db_ok d \<Longrightarrow> db_ok (take_funds a t x d)"
  "db_hash (give_funds a t x d) = db_hash d" "db_version (give_funds a t x d) = db_version d"
  "db_ok d \<Longrightarrow> db_ok (give_funds a t x d)"
  by (simp_all add: take_funds_def give_funds_def Let_def)

lemma funds_keys_ok [simp]:
  assumes "keys_ok K d"
  shows "keys_ok K (take_funds a t x d)" "keys_ok K (give_funds a t x d)"
  using assms keys_okD [OF assms] by (auto intro: keys_ok_cong)

lemma native_token:
  "fits32 t' \<Longrightarrow> t' = NATIVE_TOKEN_ID \<Longrightarrow> ucast (t :: u32) = NATIVE_TOKEN_ID \<longleftrightarrow> t = ucast t'"
  by (metis ucast_ucast_u32 ucast_fits32)

lemma take_funds_total:
  assumes "keys_ok (ledger_keys A I) d" "finite A" "a \<in> A" "fits32 t'" "\<not> lacks a t' x d"
  shows "total_bal A t (take_funds a t' x d) + (if t = ucast t' then unat x else 0) = total_bal A t d"
proof (cases "t' = NATIVE_TOKEN_ID")
  case True
  let ?x = "(getAccount a d)\<lparr>acct_balance := acct_balance (getAccount a d) - x\<rparr>"
  have "ucast t = NATIVE_TOKEN_ID \<longleftrightarrow> t = ucast t'" by (rule native_token [OF assms(4) True])
  moreover have "unat (acct_balance ?x) = bal a (ucast t') d - unat x" "unat x \<le> bal a (ucast t') d"
    using assms(5) True unfolding bal_id [OF assms(4)] by (simp_all add: lacks_def unat_sub_le word_le_nat_alt not_less)
  ultimately show ?thesis using putAccount_total [OF assms(1-3), of t ?x] True
    by (auto simp: take_funds_def Let_def)
next
  case False
  have "unat (getTokenBalance a t' d - x) = bal a (ucast t') d - unat x" "unat x \<le> bal a (ucast t') d"
    using assms(5) False unfolding bal_id [OF assms(4)] by (simp_all add: lacks_def unat_sub_le word_le_nat_alt not_less)
  then show ?thesis using putTokenBalance_total [OF assms(1-3) False assms(4), of t "getTokenBalance a t' d - x"] False
    by (auto simp: take_funds_def Let_def)
qed

lemma take_funds_bal:
  assumes "keys_ok (ledger_keys A I) d" "a \<in> A" "b \<in> A" "fits32 t'" "\<not> lacks a t' x d"
  shows "bal b t (take_funds a t' x d) = bal b t d - (if b = a \<and> t = ucast t' then unat x else 0)"
proof (cases "t' = NATIVE_TOKEN_ID")
  case True
  have "bal a (ucast t') d = unat (acct_balance (getAccount a d))" unfolding bal_id [OF assms(4)] using True by simp
  moreover have "unat (acct_balance (getAccount a d) - x) = unat (acct_balance (getAccount a d)) - unat x"
    using assms(5) True by (intro unat_sub_le) (simp add: lacks_def not_less)
  ultimately show ?thesis
    using True native_token [OF assms(4) True, of t]
    by (simp add: take_funds_def Let_def putAccount_bal [OF assms(1-3)])
next
  case False
  have "bal a (ucast t') d = unat (getTokenBalance a t' d)" unfolding bal_id [OF assms(4)] using False by simp
  moreover have "unat (getTokenBalance a t' d - x) = unat (getTokenBalance a t' d) - unat x"
    using assms(5) False by (intro unat_sub_le) (simp add: lacks_def not_less)
  moreover have "ucast (ucast t' :: u32) \<noteq> NATIVE_TOKEN_ID" using False fits32_native [OF assms(4)] by simp
  ultimately show ?thesis
    using False by (auto simp: take_funds_def Let_def putTokenBalance_bal [OF assms(1-3)])
qed

lemma take_funds_frame:
  assumes "keys_ok (ledger_keys A I) d" "a \<in> A"
  shows "i \<in> I \<Longrightarrow> getOrder i (take_funds a t x d) = getOrder i d" "getAmmPool j (take_funds a t x d) = getAmmPool j d"
    "i \<in> I \<Longrightarrow> getOrder i (give_funds a t x d) = getOrder i d" "getAmmPool j (give_funds a t x d) = getAmmPool j d"
  using assms by (simp_all add: take_funds_def give_funds_def Let_def balance_frames)

lemma give_funds_add: "fits32 t \<Longrightarrow> give_funds a t x d = add_balance a (ucast t) x d"
  by (simp add: give_funds_def add_balance_def ucast_fits32 Let_def)

lemma give_funds_total:
  assumes "keys_ok (ledger_keys A I) d" "finite A" "a \<in> A" "fits32 t'" "bal a (ucast t') d + unat x < 2 ^ 64"
  shows "total_bal A t (give_funds a t' x d) = total_bal A t d + (if t = ucast t' then unat x else 0)"
  using add_balance_total(1) [OF assms(1-3,5)] by (simp add: give_funds_add [OF assms(4)])

lemma funds_parts:
  assumes "\<And>i. i \<in> I \<Longrightarrow> getOrder i d' = getOrder i d" "\<And>j. getAmmPool j d' = getAmmPool j d"
  shows "total_locked I t d' = total_locked I t d" "total_pooled P t d' = total_pooled P t d"
  using assms by (simp_all add: total_locked_def total_pooled_def)

lemma take_funds_funds:
  assumes "keys_ok (ledger_keys A I) d" "finite A" "a \<in> A" "fits32 t'" "\<not> lacks a t' x d"
  shows "funds A I P t (take_funds a t' x d) + (if t = ucast t' then unat x else 0) = funds A I P t d"
  using take_funds_total [OF assms, of t] take_funds_frame [OF assms(1,3)]
    funds_parts [where d' = "take_funds a t' x d" and d = d and I = I]
  by (simp add: funds_def wealth_def)

lemma give_funds_funds:
  assumes "keys_ok (ledger_keys A I) d" "finite A" "a \<in> A" "fits32 t'" "bal a (ucast t') d + unat x < 2 ^ 64"
  shows "funds A I P t (give_funds a t' x d) = funds A I P t d + (if t = ucast t' then unat x else 0)"
  using give_funds_total [OF assms, of t] take_funds_frame [OF assms(1,3)]
    funds_parts [where d' = "give_funds a t' x d" and d = d and I = I]
  by (simp add: funds_def wealth_def)

lemma bal_le_funds: "finite A \<Longrightarrow> a \<in> A \<Longrightarrow> bal a t d \<le> funds A I P t d"
  using bal_le_total [of A a t d] by (simp add: funds_def wealth_def)

lemma putAmmPool_frame:
  assumes "keys_ok (ledger_keys A I) d"
  shows "i \<in> I \<Longrightarrow> getOrder i (putAmmPool p d) = getOrder i d" "a \<in> A \<Longrightarrow> bal a t (putAmmPool p d) = bal a t d"
    "i \<in> I \<Longrightarrow> getOrder i (deleteAmmPool j d) = getOrder i d" "a \<in> A \<Longrightarrow> bal a t (deleteAmmPool j d) = bal a t d"
  using assms by (simp_all add: getOrder_leaf bal_leaf leaf_amm)

lemma putAmmPool_funds:
  assumes "keys_ok (ledger_keys A I) d" "finite P" "pool_id p \<in> P" "AmmPool_wf p"
  shows "funds A I P t (putAmmPool p d) + pool_hold t (getAmmPool (pool_id p) d) = funds A I P t d + pool_hold t (Some p)"
proof -
  have "wealth A I t (putAmmPool p d) = wealth A I t d"
    using putAmmPool_frame(1,2) [OF assms(1)] by (simp add: wealth_def total_bal_def total_locked_def)
  then show ?thesis using total_pooled_put [OF assms, of t] by (simp add: funds_def)
qed

lemma deleteAmmPool_funds:
  assumes "keys_ok (ledger_keys A I) d" "finite P" "j \<in> P"
  shows "funds A I P t (deleteAmmPool j d) + pool_hold t (getAmmPool j d) = funds A I P t d"
proof -
  have "wealth A I t (deleteAmmPool j d) = wealth A I t d"
    using putAmmPool_frame(3,4) [OF assms(1)] by (simp add: wealth_def total_bal_def total_locked_def)
  then show ?thesis using total_pooled_delete [OF assms, of t] by (simp add: funds_def)
qed

end
