(* ===== verification/Exec_Frame.thy ===== *)
theory Exec_Frame
  imports Executor Funds
begin

text \<open>
  What every transaction keeps. The locale names the state operations the handlers are built from and
  the laws a property of the state has to obey for each of them; inside it every handler, the matcher and
  the dispatch by type are shown to keep such a property. It is interpreted twice: for the nonces of
  all accounts and for the staking total.
\<close>

section \<open>Interface\<close>

lemma case_option_same [simp]: "(case x of None \<Rightarrow> c | Some y \<Rightarrow> c) = c"
  by (cases x) simp_all

text \<open>The global values the handlers write.\<close>

definition exec_globals :: "string set" where
  "exec_globals = {''next_token_id'', ''next_order_id'', ''next_validator_id'', ''next_pool_id'',
     ''next_position_id'', ''next_collection_id'', ''active_set'', ''order:next_sequence''}"

lemma exec_globals_mem [simp]:
  "''next_token_id'' \<in> exec_globals" "''next_order_id'' \<in> exec_globals" "''next_validator_id'' \<in> exec_globals"
  "''next_pool_id'' \<in> exec_globals" "''next_position_id'' \<in> exec_globals" "''next_collection_id'' \<in> exec_globals"
  "''active_set'' \<in> exec_globals" "''order:next_sequence'' \<in> exec_globals"
  by (simp_all add: exec_globals_def)

definition taker_ok :: "(db \<Rightarrow> bool) \<Rightarrow> (address \<Rightarrow> bool) \<Rightarrow> match_state \<Rightarrow> bool" where
  "taker_ok P addr st \<longleftrightarrow>
     P (fst st) \<and> addr (ord_owner (fst (snd st))) \<and> length (ord_owner (fst (snd st))) = 32"

locale handler_frame =
  fixes P :: "db \<Rightarrow> bool" and addr :: "address \<Rightarrow> bool"
  assumes P_putAccount: "P d \<Longrightarrow> addr a \<Longrightarrow> acct_nonce x = acct_nonce (getAccount a d) \<Longrightarrow> P (putAccount a x d)"
    and P_putTokenBalance: "P d \<Longrightarrow> P (putTokenBalance a t v d)"
    and P_putGlobal: "P d \<Longrightarrow> n \<in> exec_globals \<Longrightarrow> P (putGlobal n b d)"
    and P_putToken: "P d \<Longrightarrow> P (putToken tk d)"
    and P_putTokenSupply: "P d \<Longrightarrow> P (putTokenSupply i v d)"
    and P_putValidator: "P d \<Longrightarrow> P (putValidator va d)"
    and P_putValidatorByAddress: "P d \<Longrightarrow> P (putValidatorByAddress a i d)"
    and P_deleteValidatorByAddress: "P d \<Longrightarrow> P (deleteValidatorByAddress a d)"
    and P_putValidatorKeyHistory: "P d \<Longrightarrow> P (putValidatorKeyHistory i ks d)"
    and P_putNft: "P d \<Longrightarrow> P (putNft nf d)"
    and P_unindexNft: "P d \<Longrightarrow> P (unindexNft nf d)"
    and P_deleteNft: "P d \<Longrightarrow> P (deleteNft i d)"
    and P_putNftCollection: "P d \<Longrightarrow> P (putNftCollection c d)"
    and P_putAmmPool: "P d \<Longrightarrow> P (putAmmPool p d)"
    and P_deleteAmmPool: "P d \<Longrightarrow> P (deleteAmmPool i d)"
    and P_putAmmPosition: "P d \<Longrightarrow> P (putAmmPosition q d)"
    and P_putPositionIndex: "P d \<Longrightarrow> P (putPositionIndex a i j d)"
    and P_deletePositionIndex: "P d \<Longrightarrow> P (deletePositionIndex a i d)"
    and P_putOrder: "P d \<Longrightarrow> addr (ord_owner o') \<Longrightarrow> length (ord_owner o') = 32 \<Longrightarrow> P (putOrder o' d)"
    and P_deleteOrder: "P d \<Longrightarrow> P (deleteOrder i d)"
    and P_addToOrderBook: "P d \<Longrightarrow> P (addToOrderBook o' v d)"
    and P_removeFromOrderBook: "P d \<Longrightarrow> P (removeFromOrderBook o' d)"
    and P_addOrderExpiry: "P d \<Longrightarrow> P (addOrderExpiry h i d)"
    and P_removeOrderExpiry: "P d \<Longrightarrow> P (removeOrderExpiry h i d)"
    and P_indexFill: "P d \<Longrightarrow> P (indexFill f h n32 n16 d)"
    and P_owner: "P d \<Longrightarrow> getOrder i d = Some o' \<Longrightarrow> addr (ord_owner o')"
    and P_custody: "P d \<Longrightarrow> addr (Keys_nftAddress (db_hash d) i)" "P d \<Longrightarrow> addr (Keys_nftCollectionAddress (db_hash d) i)"
    and P_account_putNft: "P d \<Longrightarrow> getAccount a (putNft nf d) = getAccount a d"
begin

lemmas P_ops = P_putTokenBalance P_putGlobal P_putToken P_putTokenSupply P_putValidator P_putValidatorByAddress
  P_deleteValidatorByAddress P_putValidatorKeyHistory P_putNft P_unindexNft P_deleteNft P_putNftCollection
  P_putAmmPool P_deleteAmmPool P_putAmmPosition P_putPositionIndex P_deletePositionIndex P_putOrder P_deleteOrder
  P_addToOrderBook P_removeFromOrderBook P_addOrderExpiry P_removeOrderExpiry P_indexFill P_custody

lemma P_take: "P d \<Longrightarrow> addr a \<Longrightarrow> P (take_funds a t x d)"
  by (simp add: take_funds_def Let_def P_putAccount P_ops)

lemma P_give: "P d \<Longrightarrow> addr a \<Longrightarrow> P (give_funds a t x d)"
  by (simp add: give_funds_def Let_def P_putAccount P_ops)

lemma P_debit: "P d \<Longrightarrow> addr a \<Longrightarrow> P (snd (debitToken a t x d))"
  by (simp add: debitToken_def Let_def P_putAccount P_ops)

lemma P_creditToken: "P d \<Longrightarrow> addr a \<Longrightarrow> P (creditToken a t x d)"
  by (simp add: creditToken_def Let_def P_putAccount P_ops)

lemma P_putGlobalU64: "P d \<Longrightarrow> n \<in> exec_globals \<Longrightarrow> P (putGlobalU64 n v d)"
  by (simp add: putGlobalU64_def P_putGlobal)

lemma P_writeU64GlobalInternal: "P d \<Longrightarrow> n \<in> exec_globals \<Longrightarrow> P (writeU64GlobalInternal n v d)"
  by (simp add: writeU64GlobalInternal_def P_putGlobal)

lemma P_saveActiveSet: "P d \<Longrightarrow> P (saveActiveSet s d)"
  by (simp add: saveActiveSet_def P_putGlobal)

lemmas P_intros = P_ops P_take P_give P_debit P_creditToken P_putGlobalU64 P_writeU64GlobalInternal P_saveActiveSet

text \<open>Matching.\<close>

lemma P_credit: "P d \<Longrightarrow> addr a \<Longrightarrow> P (credit a t x d)"
  by (simp add: credit_def Let_def P_putAccount P_ops)

lemma P_refundOrder: "P d \<Longrightarrow> addr (ord_owner o') \<Longrightarrow> P (refundOrder o' fee d)"
  by (simp add: refundOrder_def Let_def P_putAccount P_ops)

lemma P_deleteRestingOrder: "P d \<Longrightarrow> P (deleteRestingOrder o' d)"
  by (simp add: deleteRestingOrder_def Let_def P_ops)

lemma P_owner_length: "getOrder i d = Some o' \<Longrightarrow> length (ord_owner o') = 32"
  using getOrder_wf by (auto simp: Order_wf_def)

lemma P_match_step:
  assumes "match_step lim side frame i st st'" "taker_ok P addr st"
  shows "taker_ok P addr st'"
  using assms(1)
proof cases
  case (fill t d m p q out' out h j k)
  then have "P d" "addr (ord_owner m)" "length (ord_owner m) = 32"
    using assms(2) P_owner [of d i m] P_owner_length [of i d m] by (simp_all add: taker_ok_def)
  then show ?thesis using fill assms(2) by (simp add: taker_ok_def settle_def Let_def P_intros P_credit)
next
  case (self_trade d m t out)
  then show ?thesis using assms(2) P_owner [of d i m] by (simp add: taker_ok_def P_refundOrder)
qed (use assms(2) in \<open>auto simp: taker_ok_def intro: P_intros\<close>)

lemma P_match:
  assumes "P d" "addr (ord_owner t)" "length (ord_owner t) = 32" "matchPassiveOrder t h j d = (d', t', outc)"
  shows "P d'"
  using assms(4)
proof (cases rule: matchPassiveOrder_cases)
  case (run lim d1 out1)
  have "\<exists>n \<le> length (candidates_of t d). taker_ok P addr
      (match_loop lim (taker_side_of t) (frameOf t) h j (candidates_of t d) (d, t, empty_outcome))"
    by (rule match_loop_inv [where P = "\<lambda>n. taker_ok P addr"]) (use assms P_match_step in \<open>auto simp: taker_ok_def\<close>)
  then show ?thesis unfolding run(3) run(4)
    by (auto simp: taker_ok_def rest_taker_def nextOrderSequence_def Let_def intro!: P_intros)
qed (use assms in simp)

text \<open>
  Branches of a handler, without a case split: a predicate of its result distributes over them.
\<close>

lemma P_if: "P (if c then x else y) = (if c then P x else P y)"
  by simp

lemma P_active:
  assumes "P d" "addr (ord_owner o')" "length (ord_owner o') = 32"
  shows "P (snd (snd (snd (executeActiveOrder o' h j fs d))))"
proof -
  define R where "R = (\<lambda>r :: ActiveRouteOutcome \<times> order \<times> fill list \<times> db. P (snd (snd (snd r))))"
  have tup: "R (a, b, c, e) = P e" for a b c e by (simp add: R_def)
  have "R (executeActiveOrder o' h j fs d)"
    unfolding executeActiveOrder_def Let_def
    using assms
    by (simp add: if_distrib [of R] option.case_distrib [of R] tup P_if P_intros
        cong: if_cong option.case_cong split del: if_split)
  then show ?thesis by (simp add: R_def)
qed

text \<open>The handlers.\<close>

lemma P_accounts:
  assumes "P d" "addr (tx_from tx)" "addr (tx_to tx)"
  shows "P (snd (executeTransfer tx ctx d))" "P (snd (executeOptInStaking tx ctx d))"
    "P (snd (executeOptOutStaking tx ctx d))" "P (snd (executeClaimRewards tx ctx d))"
  using assms
  by (simp_all add: executeTransfer_def executeOptInStaking_def executeOptOutStaking_def executeClaimRewards_def
      Let_def P_putAccount P_intros)

lemma P_validators:
  assumes "P d"
  shows "P (snd (executeRegisterValidator tx ctx d))" "P (snd (executeUnregisterValidator tx ctx d))"
    "P (snd (executeUpdateRewardAddress tx ctx d))" "P (snd (executeRotateConsensusKey tx ctx d))"
  using assms
  by (simp_all add: executeRegisterValidator_def executeUnregisterValidator_def executeUpdateRewardAddress_def
      executeRotateConsensusKey_def Let_def P_intros split: option.split)

lemma P_tokens:
  assumes "P d"
  shows "P (snd (executeCreateToken tx ctx d))" "P (snd (executeMintToken tx ctx d))"
    "P (snd (executeBurnToken tx ctx d))" "P (snd (executeUpdateTokenMeta tx ctx d))"
  using assms
  by (simp_all add: executeCreateToken_def executeMintToken_def executeBurnToken_def executeUpdateTokenMeta_def
      Let_def P_intros split: option.split)

lemma P_pools:
  assumes "P d" "addr (tx_from tx)" "addr (tx_to tx)"
  shows "P (snd (executeCreatePool tx ctx d))" "P (snd (executeAddLiquidity tx ctx d))"
    "executeRemoveLiquidity tx ctx d = Some (r, d') \<Longrightarrow> P d'" "executeSwap tx ctx d = Some (r, d') \<Longrightarrow> P d'"
proof -
  show "P (snd (executeCreatePool tx ctx d))"
    using assms by (simp add: executeCreatePool_def Let_def P_intros split: prod.split)
  show "P (snd (executeAddLiquidity tx ctx d))"
    using assms by (simp add: executeAddLiquidity_def Let_def P_intros split: option.split)
  show "executeRemoveLiquidity tx ctx d = Some (r, d') \<Longrightarrow> P d'"
    using assms by (auto simp: executeRemoveLiquidity_def Let_def P_intros split: option.splits if_splits)
  show "executeSwap tx ctx d = Some (r, d') \<Longrightarrow> P d'"
    using assms by (auto simp: executeSwap_def Let_def P_intros split: option.splits if_splits)
qed

lemma P_create_order:
  assumes "P d" "addr (tx_from tx)" "length (tx_from tx) = 32"
  shows "P (snd (executeCreateOrder tx ctx d))"
proof -
  let ?o = "order_of_payload tx ctx (order_counter d)"
  define d2 where "d2 = putOrder ?o (take_funds (tx_from tx) (tx_token_id tx) (tx_amount tx) d)"
  have own: "ord_owner ?o = tx_from tx" by (simp add: order_of_payload_def Let_def)
  have P2: "P d2" using assms by (simp add: d2_def P_intros own)
  obtain d3 t' outc where run: "matchPassiveOrder ?o (ctx_current_height ctx) (ucast (ctx_tx_index_in_block ctx)) d2
      = (d3, t', outc)" by (metis surj_pair)
  obtain oc r fs d4 where act: "executeActiveOrder ?o (ctx_current_height ctx) (ucast (ctx_tx_index_in_block ctx)) [] d2
      = (oc, r, fs, d4)" by (metis surj_pair)
  have "P d3" by (rule P_match [OF P2 _ _ run]) (simp_all add: own assms)
  moreover have "P d4" using P_active [OF P2, of ?o] act own assms by (metis snd_conv)
  ultimately show ?thesis
    unfolding executeCreateOrder_def Let_def d2_def [symmetric] run act prod.case
    using assms P2 by (simp add: P_intros)
qed

lemma P_cancel_order:
  assumes "P d" "addr (tx_from tx)"
  shows "P (snd (executeCancelOrder tx ctx d))"
  using assms by (simp add: executeCancelOrder_def Let_def P_intros P_deleteRestingOrder split: option.split)

lemma P_debit_case: "P d \<Longrightarrow> addr a \<Longrightarrow> debitToken a t x d = (b, d') \<Longrightarrow> P d'"
  using P_debit [of d a t x] by simp

lemma P_settle_rewards: "P d \<Longrightarrow> addr (nft_owner nft) \<Longrightarrow> P (settle_rewards ctx nft d)"
  by (simp add: settle_rewards_def Let_def P_putAccount split: option.split)

lemma P_collections:
  assumes "P d" "addr (tx_from tx)"
  shows "P (snd (executeCreateNftCollection tx ctx d))" "P (snd (executeRefillCollectionReward tx ctx d))"
  using assms
  by (auto simp: executeCreateNftCollection_def executeRefillCollectionReward_def Let_def P_intros
      dest: P_debit_case split: option.split prod.split)

lemma P_mint_nft:
  assumes "P d" "addr (tx_from tx)"
  shows "P (snd (executeMintNft tx ctx d))" "P (snd (executeWrapNft tx ctx d))"
  using assms
  by (auto simp: executeMintNft_def executeWrapNft_def count_mint_def Let_def P_intros
      dest: P_debit_case split: option.split prod.split)

lemma P_nfts:
  assumes "P d" "addr (tx_from tx)"
  shows "P (snd (executeTransferNft tx ctx d))" "P (snd (executeUpdateNftMetadata tx ctx d))"
    "P (snd (executeTopUpNft tx ctx d))"
  using assms
  by (auto simp: executeTransferNft_def executeUpdateNftMetadata_def executeTopUpNft_def
      Let_def P_intros P_settle_rewards dest: P_debit_case split: option.split prod.split)

lemma P_burn_nft:
  assumes "P d" "addr (tx_from tx)"
  shows "P (snd (executeBurnNft tx ctx d))"
  using assms
  by (auto simp: executeBurnNft_def Let_def P_intros P_settle_rewards case_prod_beta split: option.split)

lemma P_visit:
  assumes "Q s" "\<And>k v s. Q s \<Longrightarrow> Q (snd (f k v s))"
  shows "Q (visit f rs s)"
  using assms(1)
proof (induction rs arbitrary: s)
  case (Cons r rs)
  obtain k v where r: "r = (k, v)" by (cases r)
  show ?case using Cons.IH [OF assms(2) [OF Cons.prems, of k v]] assms(2) [OF Cons.prems, of k v]
    by (simp add: r Let_def case_prod_beta)
qed simp

lemma P_claim_nft:
  assumes "P d" "addr (tx_from tx)"
  shows "P (snd (executeClaimNftReward tx ctx d))"
proof -
  define Q where "Q = (\<lambda>s :: u64 \<times> db. P (snd s) \<and> getAccount (tx_from tx) (snd s) = getAccount (tx_from tx) d)"
  have visit: "Q (claim_visit ctx nft s)" if "Q s" for nft s
    using that P_account_putNft
    by (auto simp: Q_def claim_visit_def Let_def case_prod_beta P_intros split: option.split)
  have "Q (forEachNftForOwner (tx_from tx) (claim_visit ctx) d (0, d))"
    unfolding forEachNftForOwner_def Txn_forEachWithPrefix_def
    by (rule P_visit) (use assms visit in \<open>auto simp: Q_def split: option.split\<close>)
  then show ?thesis
    using assms by (auto simp: executeClaimNftReward_def Let_def Q_def case_prod_beta P_putAccount)
qed

text \<open>The dispatch by type.\<close>

lemmas P_handlers = P_accounts P_validators P_tokens P_pools(1,2) P_create_order P_cancel_order P_collections
  P_mint_nft P_nfts P_burn_nft P_claim_nft

lemma P_dispatch:
  assumes "P d" "addr (tx_from tx)" "addr (tx_to tx)" "length (tx_from tx) = 32" "dispatch tx ctx d = Some (r, d')"
  shows "P d'"
proof -
  have "P (snd res)" if "dispatch tx ctx d = Some res" for res
  proof (cases "tx_type tx \<in> {Tx_RemoveLiquidity, Tx_Swap}")
    case True
    then show ?thesis using that P_pools(3,4) [OF assms(1-3)] by (cases res) (auto simp: dispatch_def)
  next
    case False
    then show ?thesis
      using that assms(1-4) by (cases "tx_type tx") (auto simp: dispatch_def P_handlers)
  qed
  then show ?thesis using assms(5) by fastforce
qed

end

section \<open>Operations away from the accounts\<close>

abbreviation all_keys :: "skey set" where
  "all_keys \<equiv> ledger_keys UNIV UNIV"

definition same_accounts :: "db \<Rightarrow> db \<Rightarrow> bool" where
  "same_accounts d' d \<longleftrightarrow> keys_ok all_keys d' \<and> db_hash d' = db_hash d
     \<and> (\<forall>a. leaf (KAccount a) d' = leaf (KAccount a) d)
     \<and> leaf (KGlobal ''total_staked'') d' = leaf (KGlobal ''total_staked'') d
     \<and> tab TBL_INDEX_STAKERS d' = tab TBL_INDEX_STAKERS d"

definition same_orders :: "db \<Rightarrow> db \<Rightarrow> bool" where
  "same_orders d' d \<longleftrightarrow> (\<forall>i. leaf (KOrder i) d' = leaf (KOrder i) d)"

lemma stakers_tab_ops [simp]:
  "tab TBL_INDEX_STAKERS (putTokenBalance a t v d) = tab TBL_INDEX_STAKERS d" "tab TBL_INDEX_STAKERS (putGlobal n b d) = tab TBL_INDEX_STAKERS d"
  "tab TBL_INDEX_STAKERS (putToken tk d) = tab TBL_INDEX_STAKERS d" "tab TBL_INDEX_STAKERS (putTokenSupply i v d) = tab TBL_INDEX_STAKERS d" "tab TBL_INDEX_STAKERS (putValidator va d) = tab TBL_INDEX_STAKERS d"
  "tab TBL_INDEX_STAKERS (putValidatorByAddress a i d) = tab TBL_INDEX_STAKERS d" "tab TBL_INDEX_STAKERS (deleteValidatorByAddress a d) = tab TBL_INDEX_STAKERS d"
  "tab TBL_INDEX_STAKERS (putValidatorKeyHistory i ks d) = tab TBL_INDEX_STAKERS d" "tab TBL_INDEX_STAKERS (putNft nf d) = tab TBL_INDEX_STAKERS d"
  "tab TBL_INDEX_STAKERS (unindexNft nf d) = tab TBL_INDEX_STAKERS d" "tab TBL_INDEX_STAKERS (deleteNft i d) = tab TBL_INDEX_STAKERS d" "tab TBL_INDEX_STAKERS (putNftCollection c d) = tab TBL_INDEX_STAKERS d"
  "tab TBL_INDEX_STAKERS (putAmmPool p d) = tab TBL_INDEX_STAKERS d" "tab TBL_INDEX_STAKERS (deleteAmmPool i d) = tab TBL_INDEX_STAKERS d" "tab TBL_INDEX_STAKERS (putAmmPosition q d) = tab TBL_INDEX_STAKERS d"
  "tab TBL_INDEX_STAKERS (putPositionIndex a i j d) = tab TBL_INDEX_STAKERS d" "tab TBL_INDEX_STAKERS (deletePositionIndex a i d) = tab TBL_INDEX_STAKERS d"
  "tab TBL_INDEX_STAKERS (putOrder o' d) = tab TBL_INDEX_STAKERS d" "tab TBL_INDEX_STAKERS (deleteOrder i d) = tab TBL_INDEX_STAKERS d" "tab TBL_INDEX_STAKERS (addToOrderBook o' v d) = tab TBL_INDEX_STAKERS d"
  "tab TBL_INDEX_STAKERS (removeFromOrderBook o' d) = tab TBL_INDEX_STAKERS d" "tab TBL_INDEX_STAKERS (addOrderExpiry h i d) = tab TBL_INDEX_STAKERS d"
  "tab TBL_INDEX_STAKERS (removeOrderExpiry h i d) = tab TBL_INDEX_STAKERS d" "tab TBL_INDEX_STAKERS (indexFill f h n32 n16 d) = tab TBL_INDEX_STAKERS d"
  by (simp_all add: putTokenBalance_def putGlobal_def putToken_def putTokenSupply_def putValidator_def
      putValidatorByAddress_def deleteValidatorByAddress_def putValidatorKeyHistory_def putNft_def unindexNft_def
      deleteNft_def putNftCollection_def putAmmPool_def deleteAmmPool_def putAmmPosition_def putPositionIndex_def
      deletePositionIndex_def putOrder_def deleteOrder_def addToOrderBook_def removeFromOrderBook_def
      addOrderExpiry_def removeOrderExpiry_def indexFill_def Let_def indexTokenRow_def indexTokenBalanceRow_def
      unindexTokenBalanceRow_def indexAmmPoolRow_def unindexAmmPoolRow_def indexAmmPositionRow_def
      unindexAmmPositionRow_def indexOrderRow_def unindexOrderRow_def indexOrderPoolRows_def
      unindexOrderPoolRows_def split: option.split)

lemma same_accounts_ops [simp]:
  assumes "keys_ok all_keys d"
  shows "same_accounts (putTokenBalance a t v d) d" "n \<in> exec_globals \<Longrightarrow> same_accounts (putGlobal n b d) d"
    "same_accounts (putToken tk d) d" "same_accounts (putTokenSupply i v d) d" "same_accounts (putValidator va d) d"
    "same_accounts (putValidatorByAddress a i d) d" "same_accounts (deleteValidatorByAddress a d) d"
    "same_accounts (putValidatorKeyHistory i ks d) d" "same_accounts (putNft nf d) d"
    "same_accounts (unindexNft nf d) d" "same_accounts (deleteNft i d) d" "same_accounts (putNftCollection c d) d"
    "same_accounts (putAmmPool p d) d" "same_accounts (deleteAmmPool i d) d" "same_accounts (putAmmPosition q d) d"
    "same_accounts (putPositionIndex a i j d) d" "same_accounts (deletePositionIndex a i d) d"
    "same_accounts (putOrder o' d) d" "same_accounts (deleteOrder i d) d" "same_accounts (addToOrderBook o' v d) d"
    "same_accounts (removeFromOrderBook o' d) d" "same_accounts (addOrderExpiry h i d) d"
    "same_accounts (removeOrderExpiry h i d) d" "same_accounts (indexFill f h n32 n16 d) d"
proof -
  note rules = leaf_objects [OF assms] leaf_amm [OF assms] leaf_putTokenBalance [OF assms]
    leaf_putOrder [OF assms] leaf_deleteOrder [OF assms] leaf_addToOrderBook [OF assms] leaf_removeFromOrderBook [OF assms]
    leaf_addOrderExpiry [OF assms] leaf_removeOrderExpiry [OF assms]
  show "n \<in> exec_globals \<Longrightarrow> same_accounts (putGlobal n b d) d"
    using assms by (auto simp: same_accounts_def rules exec_globals_def)
qed (use assms in \<open>simp_all add: same_accounts_def leaf_objects leaf_amm leaf_putTokenBalance leaf_putOrder
    leaf_deleteOrder leaf_addToOrderBook leaf_removeFromOrderBook leaf_addOrderExpiry leaf_removeOrderExpiry\<close>)

lemma same_orders_ops [simp]:
  assumes "keys_ok all_keys d"
  shows "same_orders (putTokenBalance a t v d) d" "n \<in> exec_globals \<Longrightarrow> same_orders (putGlobal n b d) d"
    "same_orders (putToken tk d) d" "same_orders (putTokenSupply i v d) d" "same_orders (putValidator va d) d"
    "same_orders (putValidatorByAddress a i d) d" "same_orders (deleteValidatorByAddress a d) d"
    "same_orders (putValidatorKeyHistory i ks d) d" "same_orders (putNft nf d) d"
    "same_orders (unindexNft nf d) d" "same_orders (deleteNft i d) d" "same_orders (putNftCollection c d) d"
    "same_orders (putAmmPool p d) d" "same_orders (deleteAmmPool i d) d" "same_orders (putAmmPosition q d) d"
    "same_orders (putPositionIndex a i j d) d" "same_orders (deletePositionIndex a i d) d"
    "same_orders (addToOrderBook o' v d) d"
    "same_orders (removeFromOrderBook o' d) d" "same_orders (addOrderExpiry h i d) d"
    "same_orders (removeOrderExpiry h i d) d" "same_orders (indexFill f h n32 n16 d) d"
    "same_orders (putAccount a x d) d"
proof -
  show "n \<in> exec_globals \<Longrightarrow> same_orders (putGlobal n b d) d"
    using assms by (auto simp: same_orders_def leaf_objects exec_globals_def)
qed (use assms in \<open>simp_all add: same_orders_def leaf_objects leaf_amm leaf_putTokenBalance leaf_addToOrderBook
    leaf_removeFromOrderBook leaf_addOrderExpiry leaf_removeOrderExpiry leaf_putAccount\<close>)

lemma getAccount_leaf: "getAccount a d = decode_account (leaf (KAccount a) d)"
  by (simp add: getAccount_smt leaf_def)

lemma same_accounts_get: "same_accounts d' d \<Longrightarrow> getAccount a d' = getAccount a d"
  by (simp add: same_accounts_def getAccount_leaf)

section \<open>Nonces\<close>

text \<open>
  No handler changes the nonce of an account: the frame is the nonces of all accounts, with a hash
  without collisions on the keys of the state.
\<close>

definition nonces_are :: "(address \<Rightarrow> u64) \<Rightarrow> db \<Rightarrow> bool" where
  "nonces_are N d \<longleftrightarrow> keys_ok all_keys d \<and> (\<forall>a. acct_nonce (getAccount a d) = N a)"

lemma nonces_same: "nonces_are N d \<Longrightarrow> same_accounts d' d \<Longrightarrow> nonces_are N d'"
  using same_accounts_get [of d' d] by (simp add: nonces_are_def same_accounts_def)

lemma nonces_keys: "nonces_are N d \<Longrightarrow> keys_ok all_keys d"
  by (simp add: nonces_are_def)

lemma nonces_putAccount:
  assumes "nonces_are N d"
  shows "nonces_are (N(a := acct_nonce x)) (putAccount a x d)"
  using assms getAccount_putAccount [of all_keys d a] by (simp add: nonces_are_def stored_account_def Let_def)

interpretation nonce_frame: handler_frame "nonces_are N" "\<lambda>a. True" for N
proof (unfold_locales, goal_cases)
  case (1 d a x)
  have "N a = acct_nonce (getAccount a d)" using 1(1) by (simp add: nonces_are_def)
  then show ?case using nonces_putAccount [OF 1(1), of a x] 1(3) by (metis fun_upd_triv)
qed ((rule nonces_same, assumption, rule same_accounts_ops, erule nonces_keys, assumption?) |
    (rule same_accounts_get, rule same_accounts_ops, erule nonces_keys) | rule TrueI)+

section \<open>The staking total\<close>

text \<open>
  The accounts of \<open>A\<close> obey the auto-stake rule, the staker index holds exactly the stakers among them
  and \<^verbatim>\<open>total_staked\<close> is the sum of their stakes in 64-bit arithmetic. \<open>A\<close> holds the owners of the stored
  orders and the custody addresses of NFTs.
\<close>

definition stakes_ok :: "address set \<Rightarrow> db \<Rightarrow> bool" where
  "stakes_ok A d \<longleftrightarrow> keys_ok all_keys d \<and> finite A
     \<and> getGlobalU64 ''total_staked'' d = (\<Sum>a \<in> A. acct_staked (getAccount a d))
     \<and> (\<forall>a \<in> A. staking_rule (getAccount a d)
          \<and> (Txn_get TBL_INDEX_STAKERS a d \<noteq> None \<longleftrightarrow> acct_staked (getAccount a d) \<noteq> 0))
     \<and> (\<forall>i o'. getOrder i d = Some o' \<longrightarrow> ord_owner o' \<in> A)
     \<and> (\<forall>i. Keys_nftAddress (db_hash d) i \<in> A \<and> Keys_nftCollectionAddress (db_hash d) i \<in> A)"

lemma sum_word_update:
  fixes f g :: "'a \<Rightarrow> 'b::len word"
  assumes "finite A" "a \<in> A" "\<And>b. b \<in> A \<Longrightarrow> b \<noteq> a \<Longrightarrow> g b = f b"
  shows "sum g A = sum f A + g a - f a"
proof -
  have "sum g (A - {a}) = sum f (A - {a})" using assms(3) by (intro sum.cong) auto
  then show ?thesis using assms(1,2) by (simp add: sum.remove [of A a])
qed

lemma stakes_putAccount:
  assumes a: "a \<in> A" and inv: "stakes_ok A d"
  shows "stakes_ok A (putAccount a x d)"
proof -
  let ?d = "putAccount a x d"
  have fin: "finite A" using inv by (simp add: stakes_ok_def)
  have keys: "keys_ok all_keys d" using inv by (simp add: stakes_ok_def)
  have sub: "{KAccount a, KGlobal ''total_staked'', KGlobal ''staker_count''} \<subseteq> all_keys" by simp
  have get: "getAccount b ?d = (if b = a then stored_account a x d else getAccount b d)" for b
    by (rule getAccount_putAccount [OF keys]) simp
  have sum: "(\<Sum>a \<in> A. acct_staked (getAccount a ?d)) = (\<Sum>a \<in> A. acct_staked (getAccount a d))
      + acct_staked (getAccount a ?d) - acct_staked (getAccount a d)"
    by (rule sum_word_update [OF fin a]) (simp add: get)
  have "getGlobalU64 ''total_staked'' ?d = (\<Sum>a \<in> A. acct_staked (getAccount a ?d))"
    unfolding sum unfolding get total_staked_putAccount [OF keys sub] using inv by (simp add: stakes_ok_def)
  moreover have "getOrder i ?d = getOrder i d" for i
    using same_orders_ops(23) [OF keys] by (simp add: same_orders_def getOrder_leaf)
  moreover have "Txn_get TBL_INDEX_STAKERS b ?d \<noteq> None \<longleftrightarrow> acct_staked (getAccount b ?d) \<noteq> 0" if "b \<in> A" for b
    using inv that a unfolding staker_row_putAccount [OF keys_okD [OF keys]] get by (auto simp: stakes_ok_def)
  ultimately show ?thesis
    using inv keys get stored_account_rule [of a x d] by (simp add: stakes_ok_def)
qed

lemma stakes_orders:
  assumes "stakes_ok A d" "same_accounts d' d" "\<And>i o'. getOrder i d' = Some o' \<Longrightarrow> ord_owner o' \<in> A"
  shows "stakes_ok A d'"
proof -
  have "leaf (KGlobal ''total_staked'') d' = leaf (KGlobal ''total_staked'') d"
    using assms(2) by (simp add: same_accounts_def)
  then have "getGlobalU64 ''total_staked'' d' = getGlobalU64 ''total_staked'' d"
    by (simp add: getGlobalU64_smt leaf_def)
  moreover have "Txn_get TBL_INDEX_STAKERS a d' = Txn_get TBL_INDEX_STAKERS a d" for a
    using assms(2) by (simp add: same_accounts_def Txn_get_def tab_def)
  ultimately show ?thesis
    using assms(1-3) same_accounts_get [OF assms(2)] by (simp add: stakes_ok_def same_accounts_def)
qed

lemma stakes_same:
  assumes "stakes_ok A d" "same_accounts d' d" "same_orders d' d"
  shows "stakes_ok A d'"
  by (rule stakes_orders [OF assms(1,2)]) (use assms(1,3) in \<open>simp add: stakes_ok_def same_orders_def getOrder_leaf\<close>)

lemma stakes_keys: "stakes_ok A d \<Longrightarrow> keys_ok all_keys d"
  by (simp add: stakes_ok_def)

text \<open>Whatever is read back from a stored order, its owner is the one that was written.\<close>

lemma Order_serialize_head: "\<exists>q. Order_serializeState o' = Order_head o' @ q"
proof -
  have "\<exists>q. foldl (\<lambda>out w. w out) b (map (\<lambda>i. OrderCondition_serializeState (cs ! i)) is) = b @ q" for b cs "is"
  proof (induction "is" arbitrary: b)
    case (Cons i "is")
    show ?case
      using Cons [of "OrderCondition_serializeState (cs ! i) b"]
      by (auto simp: OrderCondition_serializeState_def simp del: map_append upt_rec_numeral)
  qed simp
  from this [of "Order_head o'" "ord_conditions o'"] show ?thesis
    by (simp add: Order_serializeState_def run_writer_Cons Order_head_def)
qed

lemma Order_owner_field:
  "Order_deserializeState v = Some q \<Longrightarrow> ord_owner q = fst (rd_bytes null32 32 (snd (rd_u64 (Reader v))))"
  by (auto simp: Order_deserializeState_def Let_def split: if_splits prod.splits option.splits)

lemma Order_owner_read:
  assumes "Order_deserializeState (Order_serializeState o') = Some q" "length (ord_owner o') = 32"
  shows "ord_owner q = ord_owner o'"
proof -
  obtain r where "Order_serializeState o' = Order_head o' @ r" using Order_serialize_head by blast
  then show ?thesis
    using Order_owner_field [OF assms(1)] assms(2) by (simp add: Order_head_def codec_simps)
qed

lemma stakes_addresses:
  "stakes_ok A d \<Longrightarrow> getOrder i d = Some o' \<Longrightarrow> ord_owner o' \<in> A"
  "stakes_ok A d \<Longrightarrow> Keys_nftAddress (db_hash d) j \<in> A" "stakes_ok A d \<Longrightarrow> Keys_nftCollectionAddress (db_hash d) j \<in> A"
  by (simp_all add: stakes_ok_def)

lemma stakes_putOrder:
  assumes inv: "stakes_ok A d" and own: "ord_owner o' \<in> A" and len: "length (ord_owner o') = 32"
  shows "stakes_ok A (putOrder o' d)"
proof (rule stakes_orders [OF inv same_accounts_ops(18) [OF stakes_keys [OF inv]]])
  fix i q
  assume get: "getOrder i (putOrder o' d) = Some q"
  have "getOrder i (putOrder o' d) = (if i = ord_id o' then Order_deserializeState (Order_serializeState o') else getOrder i d)"
    by (simp add: getOrder_leaf leaf_putOrder [OF stakes_keys [OF inv]])
  then show "ord_owner q \<in> A"
    using get Order_owner_read [OF _ len, of q] own stakes_addresses(1) [OF inv, of i q] by (simp split: if_splits)
qed

lemma stakes_deleteOrder:
  assumes inv: "stakes_ok A d"
  shows "stakes_ok A (deleteOrder i d)"
proof (rule stakes_orders [OF inv same_accounts_ops(19) [OF stakes_keys [OF inv]]])
  fix j q
  assume get: "getOrder j (deleteOrder i d) = Some q"
  have "getOrder j (deleteOrder i d) = (if j = i then None else getOrder j d)"
    by (simp add: getOrder_leaf leaf_deleteOrder [OF stakes_keys [OF inv]])
  then show "ord_owner q \<in> A" using get stakes_addresses(1) [OF inv, of j q] by (simp split: if_splits)
qed

interpretation stake_frame: handler_frame "stakes_ok A" "\<lambda>a. a \<in> A" for A
proof (unfold_locales, goal_cases)
  case (1 d a x)
  then show ?case by (intro stakes_putAccount)
next
  case (19 d o')
  then show ?case by (rule stakes_putOrder)
next
  case (20 d i)
  then show ?case by (rule stakes_deleteOrder)
next
  case (26 d i o')
  then show ?case by (rule stakes_addresses)
next
  case (27 d i)
  then show ?case by (rule stakes_addresses)
next
  case (28 d i)
  then show ?case by (rule stakes_addresses)
next
  case (29 d a nf)
  show ?case by (rule same_accounts_get [OF same_accounts_ops(9) [OF stakes_keys [OF 29]]])
qed (rule stakes_same, assumption, rule same_accounts_ops, erule stakes_keys, assumption?,
    rule same_orders_ops, erule stakes_keys, assumption?)+

section \<open>A whole transaction\<close>

lemma execute_success:
  assumes "execute sig_ok tx ctx d = Some (r, d')" "rcpt_status r = Success"
  obtains d2 where "verifyNonce tx d" "acct_balance (getAccount (tx_from tx) d) \<ge> tx_fee tx"
    "dispatch tx ctx (snd (chargeFee tx d)) = Some (r, d2)" "d' = bumpNonce tx d2"
  using assms that
  by (auto simp: execute_def failure_def chargeFee_def Let_def not_less split: if_splits option.splits prod.splits)

lemma nonces_chargeFee: "nonces_are N d \<Longrightarrow> nonces_are N (snd (chargeFee tx d))"
  by (auto simp: chargeFee_def Let_def intro!: nonce_frame.P_putAccount)

lemma execute_nonces:
  assumes "nonces_are N d" "length (tx_from tx) = 32" "execute sig_ok tx ctx d = Some (r, d')" "rcpt_status r = Success"
  shows "nonces_are (N(tx_from tx := N (tx_from tx) + 1)) d'" "N (tx_from tx) = tx_nonce tx"
proof -
  obtain d2 where step: "verifyNonce tx d" "dispatch tx ctx (snd (chargeFee tx d)) = Some (r, d2)" "d' = bumpNonce tx d2"
    using assms(3,4) by (rule execute_success)
  have n2: "nonces_are N d2"
    by (rule nonce_frame.P_dispatch [OF nonces_chargeFee [OF assms(1)] _ _ assms(2) step(2)]) simp_all
  then have "acct_nonce (getAccount (tx_from tx) d2) = N (tx_from tx)" by (simp add: nonces_are_def)
  then show "nonces_are (N(tx_from tx := N (tx_from tx) + 1)) d'"
    using nonces_putAccount [OF n2, of "tx_from tx"
        "(getAccount (tx_from tx) d2)\<lparr>acct_nonce := acct_nonce (getAccount (tx_from tx) d2) + 1\<rparr>"]
    by (simp add: step(3) bumpNonce_def Let_def)
  show "N (tx_from tx) = tx_nonce tx" using step(1) assms(1) by (simp add: verifyNonce_def nonces_are_def)
qed

lemma execute_stakes:
  assumes inv: "stakes_ok A d" and mem: "tx_from tx \<in> A" "tx_to tx \<in> A" "length (tx_from tx) = 32"
    and run: "execute sig_ok tx ctx d = Some (r, d')"
  shows "stakes_ok A d'"
proof -
  let ?d1 = "snd (chargeFee tx d)"
  have inv1: "stakes_ok A ?d1" using inv mem by (simp add: chargeFee_def Let_def stakes_putAccount)
  have bump: "stakes_ok A (bumpNonce tx d2)" if "stakes_ok A d2" for d2
    using that mem by (simp add: bumpNonce_def Let_def stakes_putAccount)
  have disp: "stakes_ok A d2" if "dispatch tx ctx ?d1 = Some (r2, d2)" for r2 d2
    by (rule stake_frame.P_dispatch [OF inv1 mem that])
  have "d' \<in> {d, ?d1} \<or> (\<exists>r2 d2. dispatch tx ctx ?d1 = Some (r2, d2) \<and> d' \<in> {d2, bumpNonce tx d2})"
    using run by (auto simp: execute_def split: if_splits option.splits prod.splits)
  then show ?thesis using inv inv1 bump disp by blast
qed

end
