(* ===== verification/Exec_Effects.thy ===== *)
theory Exec_Effects
  imports Executor Funds
begin

text \<open>
  What the successful handlers do to the funds of the ledger, and the arithmetic of pool shares.
\<close>

section \<open>Transfers\<close>

lemma transfer_success:
  assumes "rcpt_status (fst (executeTransfer tx ctx d)) = Success"
  shows "tx_amount tx \<noteq> 0" "\<not> isNull (tx_to tx)" "\<not> lacks (tx_from tx) (tx_token_id tx) (tx_amount tx) d"
  using assms by (auto simp: executeTransfer_def Let_def lacks_def failure_def success_def split: if_splits)

lemma transfer_step:
  assumes "rcpt_status (fst (executeTransfer tx ctx d)) = Success"
  defines "d1 \<equiv> take_funds (tx_from tx) (tx_token_id tx) (tx_amount tx) d"
  shows "snd (executeTransfer tx ctx d) =
    (if tx_token_id tx = NATIVE_TOKEN_ID
     then putAccount (tx_to tx) ((getAccount (tx_to tx) d1)\<lparr>
        acct_balance := acct_balance (getAccount (tx_to tx) d1) + tx_amount tx,
        acct_created_at_height := (if acct_created_at_height (getAccount (tx_to tx) d1) = 0
          then ctx_current_height ctx else acct_created_at_height (getAccount (tx_to tx) d1))\<rparr>) d1
     else give_funds (tx_to tx) (tx_token_id tx) (tx_amount tx) d1)"
  using assms(1) unfolding d1_def
  by (auto simp: executeTransfer_def Let_def take_funds_def give_funds_def failure_def split: if_splits)

lemma transfer_effect:
  fixes A :: "address set" and I :: "id set" and tx :: transaction and ctx :: tx_context and d :: db
  assumes keys: "keys_ok (ledger_keys A I) d" and mem: "tx_from tx \<in> A" "tx_to tx \<in> A"
    and t: "fits32 (tx_token_id tx)" and ok: "rcpt_status (fst (executeTransfer tx ctx d)) = Success"
    and room: "bal (tx_to tx) (ucast (tx_token_id tx)) d + unat (tx_amount tx) < 2 ^ 64"
  defines "d1 \<equiv> take_funds (tx_from tx) (tx_token_id tx) (tx_amount tx) d"
    and "d2 \<equiv> snd (executeTransfer tx ctx d)"
  shows "b \<in> A \<Longrightarrow> bal b tk d1 = bal b tk d -
      (if b = tx_from tx \<and> tk = ucast (tx_token_id tx) then unat (tx_amount tx) else 0)"
    and "b \<in> A \<Longrightarrow> bal b tk d2 = bal b tk d1 +
      (if b = tx_to tx \<and> tk = ucast (tx_token_id tx) then unat (tx_amount tx) else 0)"
    and "i \<in> I \<Longrightarrow> getOrder i d2 = getOrder i d" and "getAmmPool j d2 = getAmmPool j d"
proof -
  let ?t = "tx_token_id tx" and ?x = "tx_amount tx"
  have k1: "keys_ok (ledger_keys A I) d1" using keys by (simp add: d1_def)
  have b1: "bal b tk d1 = bal b tk d - (if b = tx_from tx \<and> tk = ucast ?t then unat ?x else 0)" if "b \<in> A" for b tk
    unfolding d1_def by (rule take_funds_bal [OF keys mem(1) that t transfer_success(3) [OF ok]])
  then show "b \<in> A \<Longrightarrow> bal b tk d1 = bal b tk d - (if b = tx_from tx \<and> tk = ucast ?t then unat ?x else 0)" .
  have fits: "bal (tx_to tx) (ucast ?t) d1 + unat ?x < 2 ^ 64"
    using b1 [OF mem(2), of "ucast ?t"] room by (simp split: if_splits)
  note step = transfer_step [OF ok, folded d1_def d2_def]
  show "bal b tk d2 = bal b tk d1 + (if b = tx_to tx \<and> tk = ucast ?t then unat ?x else 0)" if "b \<in> A"
  proof (cases "?t = NATIVE_TOKEN_ID")
    case True
    have "bal (tx_to tx) (ucast ?t) d1 = unat (acct_balance (getAccount (tx_to tx) d1))"
      unfolding bal_id [OF t] using True by simp
    then have "unat (acct_balance (getAccount (tx_to tx) d1) + ?x) = bal (tx_to tx) (ucast ?t) d1 + unat ?x"
      using fits by (simp add: unat_add_no_overflow)
    then show ?thesis
      unfolding step using True native_token [OF t True, of tk] by (simp add: putAccount_bal [OF k1 mem(2) that])
  next
    case False
    then show ?thesis
      unfolding step give_funds_add [OF t] using add_balance_bal [OF k1 mem(2) that fits, of tk] by simp
  qed
  have o1: "i \<in> I \<Longrightarrow> getOrder i d1 = getOrder i d" and p1: "getAmmPool j d1 = getAmmPool j d"
    using take_funds_frame [OF keys mem(1)] by (simp_all add: d1_def)
  show "getOrder i d2 = getOrder i d" if "i \<in> I"
    unfolding step using that
    by (simp add: o1 take_funds_frame(3) [OF k1 mem(2)] balance_frames(1) [OF k1 mem(2)])
  show "getAmmPool j d2 = getAmmPool j d"
    unfolding step by (simp add: p1 take_funds_frame(4) [OF k1 mem(2)] balance_frames(3) [OF k1 mem(2)])
qed

lemma transfer_funds:
  assumes "keys_ok (ledger_keys A I) d" "tx_from tx \<in> A" "tx_to tx \<in> A" "fits32 (tx_token_id tx)"
    and "rcpt_status (fst (executeTransfer tx ctx d)) = Success" "finite A"
    and "bal (tx_to tx) (ucast (tx_token_id tx)) d + unat (tx_amount tx) < 2 ^ 64"
  shows "funds A I P tk (snd (executeTransfer tx ctx d)) = funds A I P tk d"
proof -
  let ?d2 = "snd (executeTransfer tx ctx d)"
  define d1 where "d1 = take_funds (tx_from tx) (tx_token_id tx) (tx_amount tx) d"
  note eff = transfer_effect [OF assms(1-5,7), folded d1_def]
  have "total_bal A tk d1 + (if tk = ucast (tx_token_id tx) then unat (tx_amount tx) else 0) = total_bal A tk d"
    unfolding d1_def by (rule take_funds_total [OF assms(1,6,2,4) transfer_success(3) [OF assms(5)]])
  moreover have "total_bal A tk ?d2 = total_bal A tk d1
      + (if tk = ucast (tx_token_id tx) then unat (tx_amount tx) else 0)"
    unfolding total_bal_def using eff(2) by (intro sum_add_one [OF assms(6,3)]) simp
  ultimately show ?thesis
    using funds_parts [where d' = ?d2 and d = d and I = I] eff(3,4) by (simp add: funds_def wealth_def)
qed

section \<open>Swaps\<close>

lemma unat_le_10000: "fee \<le> AMM_MAX_FEE_BPS \<Longrightarrow> unat fee \<le> 10000"
  by (simp add: AMM_MAX_FEE_BPS_def word_le_nat_alt)

text \<open>
  Without wrap-around the output of the handler is the output of the router's \<^verbatim>\<open>computeOutput\<close>.
\<close>

lemma swap_output_router:
  assumes "fee \<le> AMM_MAX_FEE_BPS" "unat reserve_in + unat amount_in < 2 ^ 64" "reserve_in \<noteq> 0" "reserve_out \<noteq> 0"
  defines "w \<equiv> (ucast ((ucast amount_in :: u128) * fee_factor fee div 10000) :: u64)"
  shows "reserve_in + w \<noteq> 0"
    "(ucast ((ucast reserve_out :: u128) * ucast w div ucast (reserve_in + w)) :: u64)
      = computeOutput reserve_in reserve_out fee amount_in"
proof -
  have fee: "unat fee \<le> 10000" using assms(1) by (rule unat_le_10000)
  let ?n = "net_input fee amount_in"
  have le: "?n \<le> unat amount_in" by (rule net_input_le)
  have w: "unat w = ?n"
    unfolding w_def unat_ucast_u64 net_input_word [OF fee]
    by (rule mod_less) (rule order.strict_trans1 [OF le unat_u64_less])
  have den: "unat (reserve_in + w) = unat reserve_in + ?n"
    using assms(2) le by (simp add: unat_add_no_overflow w)
  have pos: "0 < unat reserve_in" using assms(3) by (simp add: unat_gt_0)
  show "reserve_in + w \<noteq> 0" using den pos by (metis add_gr_0 less_not_refl unat_0)
  have "unat reserve_out * ?n div (unat reserve_in + ?n) < 18446744073709551616"
    by (rule order.strict_trans [OF cp_output_less unat_u64_less]) (use pos assms(4) in \<open>simp_all add: unat_gt_0\<close>)
  then have "unat (ucast ((ucast reserve_out :: u128) * ucast w div ucast (reserve_in + w)) :: u64)
      = unat (computeOutput reserve_in reserve_out fee amount_in)"
    using assms(3,4) by (simp add: computeOutput_unat [OF fee] w den)
  then show "(ucast ((ucast reserve_out :: u128) * ucast w div ucast (reserve_in + w)) :: u64)
      = computeOutput reserve_in reserve_out fee amount_in" by (simp only: word_unat_eq_iff)
qed

text \<open>The amounts of a swap as the handler computes them, and the pool it writes.\<close>

definition swap_token_out :: "transaction \<Rightarrow> amm_pool \<Rightarrow> id" where
  "swap_token_out tx pool = (if tx_token_id tx = pool_token_a pool then pool_token_b pool else pool_token_a pool)"

definition swap_reserve_in :: "transaction \<Rightarrow> amm_pool \<Rightarrow> u64" where
  "swap_reserve_in tx pool = (if tx_token_id tx = pool_token_a pool then pool_reserve_a pool else pool_reserve_b pool)"

definition swap_reserve_out :: "transaction \<Rightarrow> amm_pool \<Rightarrow> u64" where
  "swap_reserve_out tx pool = (if tx_token_id tx = pool_token_a pool then pool_reserve_b pool else pool_reserve_a pool)"

definition swap_out :: "transaction \<Rightarrow> amm_pool \<Rightarrow> u64" where
  "swap_out tx pool =
     computeOutput (swap_reserve_in tx pool) (swap_reserve_out tx pool) (pool_fee_bps pool) (tx_amount tx)"

definition swapped_pool :: "transaction \<Rightarrow> u64 \<Rightarrow> amm_pool \<Rightarrow> amm_pool" where
  "swapped_pool tx height pool =
     (let rolled = roll_volume height (clrty_volume (tx_token_id tx) (tx_amount tx) pool) pool
      in if tx_token_id tx = pool_token_a pool
         then rolled\<lparr>pool_reserve_a := pool_reserve_a pool + tx_amount tx,
                     pool_reserve_b := pool_reserve_b pool - swap_out tx pool\<rparr>
         else rolled\<lparr>pool_reserve_b := pool_reserve_b pool + tx_amount tx,
                     pool_reserve_a := pool_reserve_a pool - swap_out tx pool\<rparr>)"

lemma roll_volume_frame [simp]:
  "pool_id (roll_volume h v p) = pool_id p" "pool_token_a (roll_volume h v p) = pool_token_a p"
  "pool_token_b (roll_volume h v p) = pool_token_b p" "pool_reserve_a (roll_volume h v p) = pool_reserve_a p"
  "pool_reserve_b (roll_volume h v p) = pool_reserve_b p" "pool_fee_bps (roll_volume h v p) = pool_fee_bps p"
  "pool_total_liquidity (roll_volume h v p) = pool_total_liquidity p" "pool_creator (roll_volume h v p) = pool_creator p"
  by (simp_all add: roll_volume_def)

lemma pool_wf_facts:
  assumes "AmmPool_wf p"
  shows "pool_fee_bps p \<le> AMM_MAX_FEE_BPS" "pool_token_a p \<noteq> pool_token_b p" "fits32 (pool_token_a p)"
    "fits32 (pool_token_b p)" "pool_reserve_a p = 0 \<longleftrightarrow> pool_reserve_b p = 0" "pool_id p \<noteq> 0"
  using assms by (auto simp: AmmPool_wf_def AmmPool_isValid_def INVALID_ID_def split: if_splits)

lemma swap_step:
  fixes tx :: transaction and ctx :: tx_context and d :: db
  assumes pool: "getAmmPool (readU64At (tx_payload tx) 0) d = Some pool" and nz: "pool_reserve_a pool \<noteq> 0"
    and room: "unat (swap_reserve_in tx pool) + unat (tx_amount tx) < 2 ^ 64"
  shows "executeSwap tx ctx d \<noteq> None"
    "executeSwap tx ctx d = Some (r, d') \<Longrightarrow> rcpt_status r = Success \<Longrightarrow>
      (tx_token_id tx = pool_token_a pool \<or> tx_token_id tx = pool_token_b pool)
      \<and> \<not> lacks (tx_from tx) (tx_token_id tx) (tx_amount tx) d
      \<and> readU64At (tx_payload tx) 8 \<le> swap_out tx pool
      \<and> d' = putAmmPool (swapped_pool tx (ctx_current_height ctx) pool)
           (give_funds (tx_to tx) (swap_token_out tx pool) (swap_out tx pool)
             (take_funds (tx_from tx) (tx_token_id tx) (tx_amount tx) d))"
proof -
  have wf: "AmmPool_wf pool" using pool by (rule getAmmPool_wf)
  have rin: "swap_reserve_in tx pool \<noteq> 0" "swap_reserve_out tx pool \<noteq> 0"
    using nz pool_wf_facts(5) [OF wf] by (simp_all add: swap_reserve_in_def swap_reserve_out_def)
  note out = swap_output_router [OF pool_wf_facts(1) [OF wf] room rin, folded swap_out_def]
  have eq: "executeSwap tx ctx d =
      (if length (tx_payload tx) < 16 \<or> \<not> pool_active pool
          \<or> tx_token_id tx \<noteq> pool_token_a pool \<and> tx_token_id tx \<noteq> pool_token_b pool
          \<or> lacks (tx_from tx) (tx_token_id tx) (tx_amount tx) d
          \<or> swap_out tx pool < readU64At (tx_payload tx) 8
       then Some (failure tx, d)
       else Some (success tx, putAmmPool (swapped_pool tx (ctx_current_height ctx) pool)
         (give_funds (tx_to tx) (swap_token_out tx pool) (swap_out tx pool)
           (take_funds (tx_from tx) (tx_token_id tx) (tx_amount tx) d))))"
    unfolding executeSwap_def Let_def pool option.case swap_reserve_in_def [symmetric]
      swap_reserve_out_def [symmetric] swap_token_out_def [symmetric] out(2) swapped_pool_def roll_volume_frame
    using out(1) by simp
  show "executeSwap tx ctx d \<noteq> None" unfolding eq by simp
  show "(tx_token_id tx = pool_token_a pool \<or> tx_token_id tx = pool_token_b pool)
      \<and> \<not> lacks (tx_from tx) (tx_token_id tx) (tx_amount tx) d
      \<and> readU64At (tx_payload tx) 8 \<le> swap_out tx pool
      \<and> d' = putAmmPool (swapped_pool tx (ctx_current_height ctx) pool)
           (give_funds (tx_to tx) (swap_token_out tx pool) (swap_out tx pool)
             (take_funds (tx_from tx) (tx_token_id tx) (tx_amount tx) d))"
    if "executeSwap tx ctx d = Some (r, d')" "rcpt_status r = Success"
    using that unfolding eq by (auto simp: failure_def not_less split: if_splits)
qed

lemma swap_needs_funds:
  assumes "executeSwap tx ctx d = Some (r, d')" "rcpt_status r = Success"
    and "getAmmPool (readU64At (tx_payload tx) 0) d = Some pool"
  shows "\<not> lacks (tx_from tx) (tx_token_id tx) (tx_amount tx) d"
    "tx_token_id tx = pool_token_a pool \<or> tx_token_id tx = pool_token_b pool"
  using assms by (auto simp: executeSwap_def Let_def failure_def split: if_splits)

lemma fits32_inj: "fits32 a \<Longrightarrow> fits32 b \<Longrightarrow> (ucast a :: u32) = ucast b \<longleftrightarrow> a = b"
  by (metis ucast_fits32)

lemma fits32_eq: "fits32 a \<Longrightarrow> a = ucast (t :: u32) \<longleftrightarrow> t = ucast a"
  by (metis ucast_fits32 ucast_ucast_u32)

lemma pool_hold_wf:
  assumes "AmmPool_wf p"
  shows "pool_hold t (Some p) = (if t = ucast (pool_token_a p) then unat (pool_reserve_a p)
    else if t = ucast (pool_token_b p) then unat (pool_reserve_b p) else 0)"
  using pool_wf_facts [OF assms] fits32_eq [of "pool_token_a p" t] fits32_eq [of "pool_token_b p" t]
    fits32_inj [of "pool_token_a p" "pool_token_b p"]
  by (auto simp: pool_hold_def)

lemma held_le_funds:
  assumes "finite A" "finite P" "a \<in> A" "i \<in> P" "getAmmPool i d = Some p"
  shows "bal a t d + pool_hold t (Some p) \<le> funds A I P t d"
  using bal_le_total [OF assms(1,3), of t d] pool_hold_le_total [OF assms(2,4), of t d] assms(5)
  by (simp add: funds_def wealth_def)

lemma swap_room:
  assumes "AmmPool_wf pool" "tx_token_id tx = pool_token_a pool \<or> tx_token_id tx = pool_token_b pool"
  shows "fits32 (tx_token_id tx)" "fits32 (swap_token_out tx pool)" "tx_token_id tx \<noteq> swap_token_out tx pool"
    "unat (swap_reserve_in tx pool) = pool_hold (ucast (tx_token_id tx)) (Some pool)"
    "unat (swap_reserve_out tx pool) = pool_hold (ucast (swap_token_out tx pool)) (Some pool)"
  using pool_wf_facts [OF assms(1)] assms(2) fits32_inj [of "pool_token_a pool" "pool_token_b pool"]
    fits32_inj [of "pool_token_b pool" "pool_token_a pool"]
  by (auto simp: pool_hold_wf [OF assms(1)] swap_token_out_def swap_reserve_in_def swap_reserve_out_def)

lemma swapped_pool_facts:
  assumes "AmmPool_wf pool" "pool_reserve_a pool \<noteq> 0"
    and side: "tx_token_id tx = pool_token_a pool \<or> tx_token_id tx = pool_token_b pool"
    and room: "unat (swap_reserve_in tx pool) + unat (tx_amount tx) < 2 ^ 64"
  shows "AmmPool_wf (swapped_pool tx h pool)" "pool_id (swapped_pool tx h pool) = pool_id pool"
    "pool_hold t (Some (swapped_pool tx h pool)) + (if t = ucast (swap_token_out tx pool) then unat (swap_out tx pool) else 0)
      = pool_hold t (Some pool) + (if t = ucast (tx_token_id tx) then unat (tx_amount tx) else 0)"
    "unat (pool_reserve_a pool) * unat (pool_reserve_b pool)
      \<le> unat (pool_reserve_a (swapped_pool tx h pool)) * unat (pool_reserve_b (swapped_pool tx h pool))"
proof -
  note facts = pool_wf_facts [OF assms(1)]
  have fee: "unat (pool_fee_bps pool) \<le> 10000" using facts(1) by (rule unat_le_10000)
  have out: "swap_out tx pool < swap_reserve_out tx pool"
    unfolding swap_out_def using assms(2) facts(5)
    by (intro swap_output_less [OF fee]) (simp add: swap_reserve_out_def)
  have sub: "unat (swap_reserve_out tx pool - swap_out tx pool) = unat (swap_reserve_out tx pool) - unat (swap_out tx pool)"
    using out by (intro unat_sub_le) simp
  have add: "unat (swap_reserve_in tx pool + tx_amount tx) = unat (swap_reserve_in tx pool) + unat (tx_amount tx)"
    using room by (simp add: unat_add_no_overflow)
  have outn: "unat (swap_out tx pool) < unat (swap_reserve_out tx pool)" using out by (simp add: word_less_nat_alt)
  let ?p = "swapped_pool tx h pool"
  show id: "pool_id ?p = pool_id pool" by (simp add: swapped_pool_def Let_def)
  have toks: "pool_token_a ?p = pool_token_a pool" "pool_token_b ?p = pool_token_b pool"
    "pool_fee_bps ?p = pool_fee_bps pool" "pool_creator ?p = pool_creator pool"
    by (simp_all add: swapped_pool_def Let_def)
  have res: "if tx_token_id tx = pool_token_a pool
      then pool_reserve_a ?p = swap_reserve_in tx pool + tx_amount tx
        \<and> pool_reserve_b ?p = swap_reserve_out tx pool - swap_out tx pool
      else pool_reserve_b ?p = swap_reserve_in tx pool + tx_amount tx
        \<and> pool_reserve_a ?p = swap_reserve_out tx pool - swap_out tx pool"
    by (simp add: swapped_pool_def Let_def swap_reserve_in_def swap_reserve_out_def)
  have nz: "pool_reserve_a ?p \<noteq> 0" "pool_reserve_b ?p \<noteq> 0"
    using res add sub outn assms(2) facts(5)
    by (auto simp: word_unat_eq_iff swap_reserve_in_def split: if_splits)
  then show wf: "AmmPool_wf ?p"
    using assms(1) by (simp add: AmmPool_wf_def AmmPool_isValid_def id toks split: if_splits)
  note inj = fits32_inj [OF facts(3,4)] fits32_inj [OF facts(4,3)]
  show "pool_hold t (Some ?p) + (if t = ucast (swap_token_out tx pool) then unat (swap_out tx pool) else 0)
      = pool_hold t (Some pool) + (if t = ucast (tx_token_id tx) then unat (tx_amount tx) else 0)"
    using res add sub outn side facts(2) inj
    by (auto simp: pool_hold_wf [OF wf] pool_hold_wf [OF assms(1)] toks swap_token_out_def
        swap_reserve_in_def swap_reserve_out_def split: if_splits)
  have "unat (swap_reserve_in tx pool) * unat (swap_reserve_out tx pool)
      \<le> (unat (swap_reserve_in tx pool) + unat (tx_amount tx)) * (unat (swap_reserve_out tx pool) - unat (swap_out tx pool))"
    unfolding swap_out_def by (rule swap_product [OF fee])
  then show "unat (pool_reserve_a pool) * unat (pool_reserve_b pool) \<le> unat (pool_reserve_a ?p) * unat (pool_reserve_b ?p)"
    using res add sub by (auto simp: swap_reserve_in_def swap_reserve_out_def mult.commute split: if_splits)
qed

lemma swap_effect:
  assumes keys: "keys_ok (ledger_keys A I) d" and fin: "finite A" "finite P"
    and mem: "tx_from tx \<in> A" "tx_to tx \<in> A" "readU64At (tx_payload tx) 0 \<in> P"
    and pool: "getAmmPool (readU64At (tx_payload tx) 0) d = Some pool" "pool_id pool = readU64At (tx_payload tx) 0"
    and nz: "pool_reserve_a pool \<noteq> 0" and small: "\<And>tk. funds A I P tk d < 2 ^ 64"
    and ok: "executeSwap tx ctx d = Some (r, d')" "rcpt_status r = Success"
  shows "funds A I P tk d' = funds A I P tk d"
    "getAmmPool (readU64At (tx_payload tx) 0) d' = Some (swapped_pool tx (ctx_current_height ctx) pool)"
    "unat (swap_reserve_in tx pool) + unat (tx_amount tx) < 2 ^ 64"
    "readU64At (tx_payload tx) 8 \<le> swap_out tx pool"
proof -
  let ?tin = "tx_token_id tx" and ?tout = "swap_token_out tx pool"
  have wf: "AmmPool_wf pool" using pool(1) by (rule getAmmPool_wf)
  note need = swap_needs_funds [OF ok pool(1)]
  note side = swap_room [OF wf need(2)]
  have "unat (tx_amount tx) \<le> bal (tx_from tx) (ucast ?tin) d" using need(1) unfolding lacks_bal [OF side(1)] by simp
  then show room: "unat (swap_reserve_in tx pool) + unat (tx_amount tx) < 2 ^ 64"
    using held_le_funds [OF fin mem(1,3) pool(1), of "ucast ?tin" I] small [of "ucast ?tin"] side(4) by linarith
  note step = swap_step(2) [OF pool(1) nz room ok]
  then show "readU64At (tx_payload tx) 8 \<le> swap_out tx pool" by blast
  define d1 where "d1 = take_funds (tx_from tx) ?tin (tx_amount tx) d"
  define d2 where "d2 = give_funds (tx_to tx) ?tout (swap_out tx pool) d1"
  let ?p = "swapped_pool tx (ctx_current_height ctx) pool"
  have d': "d' = putAmmPool ?p d2" using step by (simp add: d1_def d2_def)
  have k1: "keys_ok (ledger_keys A I) d1" and k2: "keys_ok (ledger_keys A I) d2" using keys by (simp_all add: d1_def d2_def)
  note sp = swapped_pool_facts [OF wf nz need(2) room]
  have f1: "funds A I P tk d1 + (if tk = ucast ?tin then unat (tx_amount tx) else 0) = funds A I P tk d"
    unfolding d1_def by (rule take_funds_funds [OF keys fin(1) mem(1) side(1) need(1)])
  have "(ucast ?tin :: u32) \<noteq> ucast ?tout" using side(1-3) fits32_inj by metis
  then have b1: "bal (tx_to tx) (ucast ?tout) d1 = bal (tx_to tx) (ucast ?tout) d"
    unfolding d1_def take_funds_bal [OF keys mem(1,2) side(1) need(1)] by simp
  have "unat (swap_out tx pool) \<le> unat (swap_reserve_out tx pool)"
    using sp(3) [where t = "ucast ?tout" and h = 0] side(5) \<open>(ucast ?tin :: u32) \<noteq> ucast ?tout\<close> by simp
  then have fits: "bal (tx_to tx) (ucast ?tout) d1 + unat (swap_out tx pool) < 2 ^ 64"
    using held_le_funds [OF fin mem(2,3) pool(1), of "ucast ?tout" I] small [of "ucast ?tout"] side(5) b1 by linarith
  have f2: "funds A I P tk d2 = funds A I P tk d1 + (if tk = ucast ?tout then unat (swap_out tx pool) else 0)"
    unfolding d2_def by (rule give_funds_funds [OF k1 fin(1) mem(2) side(2) fits])
  have p2: "getAmmPool j d2 = getAmmPool j d" for j
    unfolding d2_def d1_def using take_funds_frame(2) [OF keys mem(1)] take_funds_frame(4) [OF k1 mem(2)]
    by (simp add: d1_def)
  have idP: "pool_id ?p \<in> P" using mem(3) pool(2) sp(2) by simp
  have "funds A I P tk d' + pool_hold tk (Some pool) = funds A I P tk d2 + pool_hold tk (Some ?p)"
    using putAmmPool_funds [OF k2 fin(2) idP sp(1), of tk] pool p2 sp(2) by (simp add: d')
  then show "funds A I P tk d' = funds A I P tk d" using f1 f2 sp(3) [where t = tk and h = "ctx_current_height ctx"] by linarith
  show "getAmmPool (readU64At (tx_payload tx) 0) d' = Some ?p"
    using getAmmPool_put [OF k2 _ sp(1)] sp(2) pool(2) by (simp add: d')
qed

end
