(* ===== verification/Exec_Orders.thy ===== *)
theory Exec_Orders
  imports Exec_Effects
begin

text \<open>
  What placing and cancelling an order does to the funds of the ledger.
\<close>

section \<open>Cancelling\<close>

lemma deleteResting_effect:
  fixes A :: "address set" and I :: "id set" and d :: db and o' :: order
  assumes keys: "keys_ok (ledger_keys A I) d" and fin: "finite I" and mem: "ord_id o' \<in> I"
    and stored: "getOrder (ord_id o') d = Some o'" and nz: "ord_id o' \<noteq> INVALID_ID"
  shows "total_bal A tk (deleteRestingOrder o' d) = total_bal A tk d"
    "total_locked I tk (deleteRestingOrder o' d) + lock_of tk (Some o') = total_locked I tk d"
    "i \<in> I \<Longrightarrow> getOrder i (deleteRestingOrder o' d) = (if i = ord_id o' then None else getOrder i d)"
    "getAmmPool j (deleteRestingOrder o' d) = getAmmPool j d"
    "a \<in> A \<Longrightarrow> bal a tk (deleteRestingOrder o' d) = bal a tk d"
proof -
  define d1 where "d1 = removeFromOrderBook o' d"
  define d2 where "d2 = (if ord_expires_at_height o' \<noteq> 0
      then removeOrderExpiry (ord_expires_at_height o') (ord_id o') d1 else d1)"
  have eq: "deleteRestingOrder o' d = deleteOrder (ord_id o') d2"
    using nz by (simp add: deleteRestingOrder_def Let_def d1_def d2_def)
  have k1: "keys_ok (ledger_keys A I) d1" and k2: "keys_ok (ledger_keys A I) d2"
    using keys by (simp_all add: d1_def d2_def)
  have o2: "getOrder i d2 = getOrder i d" if "i \<in> I" for i
    using that mem book_ops_order [OF keys that] book_ops_order [OF k1 that] by (simp add: d1_def d2_def)
  have b2: "total_bal A tk d2 = total_bal A tk d"
    using mem order_ops_totals [OF keys subset_refl] order_ops_totals [OF k1 subset_refl] by (simp add: d1_def d2_def)
  show "bal a tk (deleteRestingOrder o' d) = bal a tk d" if "a \<in> A"
    unfolding eq using mem order_ops_bal [OF keys that] order_ops_bal [OF k1 that] order_ops_bal [OF k2 that]
    by (simp add: d1_def d2_def)
  show "total_bal A tk (deleteRestingOrder o' d) = total_bal A tk d"
    unfolding eq using b2 order_ops_totals(2) [OF k2 subset_refl mem] by simp
  have l2: "total_locked I tk d2 = total_locked I tk d" using o2 by (intro wealth_cong(2)) auto
  show "total_locked I tk (deleteRestingOrder o' d) + lock_of tk (Some o') = total_locked I tk d"
    unfolding eq using order_record_totals(2) [OF k2 fin subset_refl mem, of tk] o2 [OF mem] stored l2 by simp
  show "i \<in> I \<Longrightarrow> getOrder i (deleteRestingOrder o' d) = (if i = ord_id o' then None else getOrder i d)"
    unfolding eq using order_record_ops(2) [OF k2 _ mem, of i] o2 by simp
  have "leaf (KAmmPool j) d2 = leaf (KAmmPool j) d1"
    using leaf_removeOrderExpiry [OF k1] by (simp add: d2_def)
  also have "\<dots> = leaf (KAmmPool j) d" using leaf_removeFromOrderBook [OF keys] mem by (simp add: d1_def)
  finally have "leaf (KAmmPool j) (deleteRestingOrder o' d) = leaf (KAmmPool j) d"
    unfolding eq using leaf_deleteOrder [OF k2] mem by simp
  then show "getAmmPool j (deleteRestingOrder o' d) = getAmmPool j d" by (simp add: getAmmPool_leaf)
qed

lemma cancel_step:
  assumes "rcpt_status (fst (executeCancelOrder tx ctx d)) = Success"
  obtains o' where "getOrder (readU64At (tx_payload tx) 0) d = Some o'" "ord_owner o' = tx_from tx"
    "snd (executeCancelOrder tx ctx d) = deleteRestingOrder o'
       (if remainingAmount o' > 0 then give_funds (tx_from tx) (ucast (ord_sell_token o')) (remainingAmount o') d else d)"
  using assms that
  by (cases "getOrder (readU64At (tx_payload tx) 0) d")
    (auto simp: executeCancelOrder_def Let_def failure_def split: if_splits)

lemma fits32_ucast [simp]: "fits32 (ucast (t :: u32))"
  using unsigned_less [where 'a = nat, of t]
  by (simp add: fits32_def word_less_nat_alt unsigned_ucast_eq take_bit_eq_mod order.strict_trans1 [OF mod_less_eq_dividend])

lemma cancel_effect:
  fixes A :: "address set" and I P :: "id set" and tx :: transaction and ctx :: tx_context and d :: db
  assumes keys: "keys_ok (ledger_keys A I) d" and fin: "finite A" "finite I"
    and mem: "tx_from tx \<in> A" "readU64At (tx_payload tx) 0 \<in> I"
    and stored: "getOrder (readU64At (tx_payload tx) 0) d = Some o'" "ord_id o' = readU64At (tx_payload tx) 0"
    and small: "\<And>tk. funds A I P tk d < 2 ^ 64"
    and ok: "rcpt_status (fst (executeCancelOrder tx ctx d)) = Success"
  defines "d' \<equiv> snd (executeCancelOrder tx ctx d)"
  shows "funds A I P tk d' = funds A I P tk d" "ord_owner o' = tx_from tx"
    "getOrder (readU64At (tx_payload tx) 0) d' = None"
    "bal (tx_from tx) (ord_sell_token o') d' = bal (tx_from tx) (ord_sell_token o') d + unat (remainingAmount o')"
proof -
  let ?t = "ord_sell_token o'" and ?x = "remainingAmount o'"
  obtain own: "ord_owner o' = tx_from tx" and
    step: "d' = deleteRestingOrder o' (if ?x > 0 then give_funds (tx_from tx) (ucast ?t) ?x d else d)"
    using cancel_step [OF ok] stored(1) by (metis d'_def option.inject)
  show "ord_owner o' = tx_from tx" by (rule own)
  have "lock_of ?t (Some o') \<le> total_locked I ?t d" using lock_le_total [OF fin(2) mem(2), of ?t d] stored by simp
  then have room: "bal (tx_from tx) (ucast (ucast ?t :: u64)) d + unat ?x < 2 ^ 64"
    using bal_le_total [OF fin(1) mem(1), of ?t d] small [of ?t] by (simp add: funds_def wealth_def lock_of_def)
  define d1 where "d1 = (if ?x > 0 then give_funds (tx_from tx) (ucast ?t) ?x d else d)"
  have d': "d' = deleteRestingOrder o' d1" using step by (simp only: d1_def)
  have k1: "keys_ok (ledger_keys A I) d1" using keys by (simp add: d1_def)
  have f1: "funds A I P tk d1 = funds A I P tk d + (if tk = ?t then unat ?x else 0)"
    using give_funds_funds [OF keys fin(1) mem(1) fits32_ucast room, of P tk] by (auto simp: d1_def unat_gt_0)
  have o1: "i \<in> I \<Longrightarrow> getOrder i d1 = getOrder i d" for i using take_funds_frame(3) [OF keys mem(1)] by (simp add: d1_def)
  have nz: "ord_id o' \<noteq> INVALID_ID" using Order_wf_facts(2) getOrder_wf [OF stored(1)] by blast
  have st1: "getOrder (ord_id o') d1 = Some o'" using o1 mem(2) stored by simp
  note del = deleteResting_effect [OF k1 fin(2) _ st1 nz]
  have "ord_id o' \<in> I" using mem(2) stored(2) by simp
  note del' = del [OF this]
  have pools: "total_pooled P tk d' = total_pooled P tk d1"
    using del'(4) by (simp add: total_pooled_def d')
  show "funds A I P tk d' = funds A I P tk d"
    using del'(1,2) [of tk] f1 pools by (cases "tk = ?t") (simp_all add: funds_def wealth_def d' lock_of_def)
  show "getOrder (readU64At (tx_payload tx) 0) d' = None"
    using del'(3) mem(2) stored(2) by (simp add: d')
  have "bal (tx_from tx) ?t d1 = bal (tx_from tx) ?t d + unat ?x"
    using add_balance_bal [OF keys mem(1,1), of ?t ?x ?t] room by (auto simp: d1_def give_funds_add unat_gt_0)
  moreover have "bal (tx_from tx) ?t (deleteRestingOrder o' d1) = bal (tx_from tx) ?t d1"
    by (rule del'(5) [OF mem(1)])
  ultimately show "bal (tx_from tx) ?t d' = bal (tx_from tx) ?t d + unat ?x" by (simp add: d')
qed

section \<open>Placing\<close>

lemma tab_putGlobalU64 [simp]: "tab t (putGlobalU64 n v d) = tab t d"
  by (simp add: putGlobalU64_def putGlobal_def)

lemma account_book_frame [simp]:
  "tab TBL_INDEX_ORDER_BOOK (putAccount a x d) = tab TBL_INDEX_ORDER_BOOK d"
  "tab TBL_INDEX_ORDER_BOOK (putTokenBalance a t v d) = tab TBL_INDEX_ORDER_BOOK d"
  unfolding putAccount_def putTokenBalance_def Let_def indexStaker_def unindexStaker_def
    indexTokenBalanceRow_def unindexTokenBalanceRow_def if_distrib [of "tab TBL_INDEX_ORDER_BOOK"]
  by (simp_all add: if_distrib [of "tab TBL_INDEX_ORDER_BOOK"] cong: if_cong split del: if_split)

lemma funds_book_frame [simp]:
  "tab TBL_INDEX_ORDER_BOOK (take_funds a t x d) = tab TBL_INDEX_ORDER_BOOK d"
  by (simp add: take_funds_def Let_def)

lemma candidates_cong:
  assumes "db_ok d" "db_ok d'" "tab TBL_INDEX_ORDER_BOOK d' = tab TBL_INDEX_ORDER_BOOK d" "db_hash d' = db_hash d"
  shows "candidates_of t d' = candidates_of t d"
  using assms by (simp add: candidates_take book_entries_rows book_rows_def)

text \<open>The record built from a payload that passed the structural check is well formed once it is valid.\<close>

lemma order_of_payload_wf:
  assumes "validateCreateOrderStructure tx" "Order_isValid (order_of_payload tx ctx n)" "length (tx_from tx) = 32"
  shows "Order_wf (order_of_payload tx ctx n)"
proof -
  let ?n = "unat (tx_payload tx ! 25)"
  obtain cs off where cs: "read_conditions (tx_payload tx) 26 ?n = Some (cs, off)" and le: "?n \<le> ORDER_MAX_CONDITIONS"
    using assms(1) by (auto simp: validateCreateOrderStructure_def Let_def split: if_splits)
  then show ?thesis
    using read_conditions_ok [OF cs] assms(2,3)
    by (auto simp: Order_wf_def order_of_payload_def Let_def list_all_iff)
qed

lemma create_passive_step:
  assumes ok: "rcpt_status (fst (executeCreateOrder tx ctx d)) = Success"
    and mode: "ord_mode (order_of_payload tx ctx (order_counter d)) = Passive"
  defines "o1 \<equiv> order_of_payload tx ctx (order_counter d)"
  defines "d2 \<equiv> putOrder o1 (take_funds (tx_from tx) (tx_token_id tx) (tx_amount tx) d)"
  obtains d3 t' outc where "validateCreateOrderStructure tx" "Order_isValid o1" "\<not> lacks (tx_from tx) (tx_token_id tx) (tx_amount tx) d"
    "matchPassiveOrder o1 (ctx_current_height ctx) (ucast (ctx_tx_index_in_block ctx)) d2 = (d3, t', outc)"
    "snd (executeCreateOrder tx ctx d) = putGlobal ''next_order_id'' (writeU64 (order_counter d + 1))
       (if getOrder (ord_id o1) d3 \<noteq> None \<and> ord_expires_at_height o1 \<noteq> 0
        then addOrderExpiry (ord_expires_at_height o1) (ord_id o1) d3 else d3)"
    "rcpt_fills (fst (executeCreateOrder tx ctx d)) = out_fills outc"
proof -
  obtain d3 t' outc where run: "matchPassiveOrder o1 (ctx_current_height ctx) (ucast (ctx_tx_index_in_block ctx)) d2
      = (d3, t', outc)" by (metis surj_pair)
  have eq: "executeCreateOrder tx ctx d =
      (if \<not> validateCreateOrderStructure tx \<or> \<not> Order_isValid o1 \<or> lacks (tx_from tx) (tx_token_id tx) (tx_amount tx) d
       then (failure tx, d)
       else ((success tx)\<lparr>rcpt_fills := out_fills outc\<rparr>,
         putGlobal ''next_order_id'' (writeU64 (order_counter d + 1))
           (if getOrder (ord_id o1) d3 \<noteq> None \<and> ord_expires_at_height o1 \<noteq> 0
            then addOrderExpiry (ord_expires_at_height o1) (ord_id o1) d3 else d3)))"
    unfolding executeCreateOrder_def Let_def o1_def [symmetric] d2_def [symmetric] run prod.case
    using mode by (simp add: o1_def [symmetric])
  show thesis
    by (rule that [OF _ _ _ run]) (use ok in \<open>auto simp: eq failure_def split: if_splits\<close>)
qed

lemma create_passive_effect:
  fixes A :: "address set" and I :: "id set" and tx :: transaction and ctx :: tx_context and d :: db
  assumes fin: "finite A" "finite I" and keys: "keys_ok (ledger_keys A I) d"
    and mode: "ord_mode (order_of_payload tx ctx (order_counter d)) = Passive"
    and ok: "rcpt_status (fst (executeCreateOrder tx ctx d)) = Success"
    and mem: "tx_from tx \<in> A" "length (tx_from tx) = 32" "order_counter d \<in> I" "fits32 (tx_token_id tx)"
    and fresh: "getOrder (order_counter d) d = None"
  defines "o1 \<equiv> order_of_payload tx ctx (order_counter d)"
  assumes cands: "fst ` set (candidates_of o1 d) \<subseteq> I - {order_counter d}"
    and makers: "makers_ok A (I - {order_counter d}) (fst ` set (candidates_of o1 d)) o1 d"
    and fits: "\<And>tk. wealth A I tk d < 2 ^ 64"
  shows "wealth A I tk (snd (executeCreateOrder tx ctx d)) \<le> wealth A I tk d"
    "wealth A I tk d \<le> wealth A I tk (snd (executeCreateOrder tx ctx d)) + MAX_BOOK_LEVELS_PER_TAKER"
proof -
  obtain d3 t' outc where step: "validateCreateOrderStructure tx" "Order_isValid o1" "\<not> lacks (tx_from tx) (tx_token_id tx) (tx_amount tx) d"
    "matchPassiveOrder o1 (ctx_current_height ctx) (ucast (ctx_tx_index_in_block ctx))
       (putOrder o1 (take_funds (tx_from tx) (tx_token_id tx) (tx_amount tx) d)) = (d3, t', outc)"
    "snd (executeCreateOrder tx ctx d) = putGlobal ''next_order_id'' (writeU64 (order_counter d + 1))
       (if getOrder (ord_id o1) d3 \<noteq> None \<and> ord_expires_at_height o1 \<noteq> 0
        then addOrderExpiry (ord_expires_at_height o1) (ord_id o1) d3 else d3)"
    by (rule create_passive_step [OF ok mode, folded o1_def]) (rule that)
  have o1: "ord_id o1 = order_counter d" "ord_owner o1 = tx_from tx" "ord_sell_token o1 = ucast (tx_token_id tx)"
    "ord_sell_amount o1 = tx_amount tx" "ord_filled_amount o1 = 0"
    by (simp_all add: o1_def order_of_payload_def Let_def)
  define d1 where "d1 = take_funds (tx_from tx) (tx_token_id tx) (tx_amount tx) d"
  define d2 where "d2 = putOrder o1 d1"
  have k1: "keys_ok (ledger_keys A I) d1" and k2: "keys_ok (ledger_keys A I) d2" using keys by (simp_all add: d1_def d2_def)
  have own: "Order_wf o1"
    using order_of_payload_wf [OF step(1), of ctx "order_counter d"] step(2) mem(2) by (simp add: o1_def)
  have rem: "remainingAmount o1 = tx_amount tx" by (simp add: remainingAmount_def o1)
  have "getOrder (ord_id o1) d1 = None" using take_funds_frame(1) [OF keys mem(1,3)] fresh by (simp add: d1_def o1)
  then have l2: "total_locked I tk d2 = total_locked I tk d1 + lock_of tk (Some o1)" for tk
    using order_record_totals(1) [OF k1 fin(2) subset_refl own, of tk] mem(3) by (simp add: d2_def o1 lock_of_def)
  have b2: "total_bal A tk d2 = total_bal A tk d1" for tk
    using order_ops_totals(1) [OF k1 subset_refl] mem(3) by (simp add: d2_def o1)
  have l1: "total_locked I tk d1 = total_locked I tk d" for tk
    using take_funds_frame(1) [OF keys mem(1)] by (simp add: total_locked_def d1_def)
  have w2: "wealth A I tk d2 = wealth A I tk d" for tk
    using take_funds_total [OF keys fin(1) mem(1,4) step(3), folded d1_def, of tk]
    by (auto simp: wealth_def l2 b2 l1 lock_of_def rem o1)
  have c2: "candidates_of o1 d2 = candidates_of o1 d"
    using keys_okD(1) [OF keys] keys_okD(1) [OF k2] by (intro candidates_cong) (simp_all add: d2_def d1_def)
  have g2: "getOrder i d2 = getOrder i d" if "i \<in> I - {order_counter d}" for i
    using that order_record_ops(1) [OF k1 _ own, of i] take_funds_frame(1) [OF keys mem(1), of i] mem(3)
    by (simp add: d2_def d1_def o1)
  have st: "getOrder (ord_id o1) d2 = Some o1"
    using order_record_ops(1) [OF k1 _ own, of "ord_id o1"] mem(3) by (simp add: d2_def o1)
  have run: "keys_ok (ledger_keys A I) d3 \<and> wealth A I tk d3 \<le> wealth A I tk d \<and> wealth A I tk d \<le> wealth A I tk d3 + MAX_BOOK_LEVELS_PER_TAKER"
    unfolding w2 [symmetric]
  proof (rule matchPassiveOrder_wealth [OF fin k2 own _ _ st])
    show "makers_ok A (I - {ord_id o1}) (fst ` set (candidates_of o1 d2)) o1 d2"
      using makers g2 unfolding makers_ok_def c2 o1 by simp
  qed (use step(4) [folded d1_def, folded d2_def] cands fits in \<open>simp_all add: c2 o1 w2 mem\<close>)
  then have k3: "keys_ok (ledger_keys A I) d3" by blast
  define d4 where "d4 = (if getOrder (ord_id o1) d3 \<noteq> None \<and> ord_expires_at_height o1 \<noteq> 0
      then addOrderExpiry (ord_expires_at_height o1) (ord_id o1) d3 else d3)"
  have w4: "wealth A I tk d4 = wealth A I tk d3"
    using order_ops_totals(6,12) [OF k3 subset_refl] by (simp add: wealth_def d4_def)
  have "keys_ok (ledger_keys A I) d4" using k3 by (simp add: d4_def)
  then have same: "same_funds A I (snd (executeCreateOrder tx ctx d)) d4"
    unfolding step(5) d4_def [symmetric] by (rule same_funds_ops(1)) (simp add: global_names_more)
  have "wealth A I tk (snd (executeCreateOrder tx ctx d)) = wealth A I tk d3"
    using same_funds_eq(2,3) [OF same, of tk] w4 by (simp add: wealth_def)
  then show "wealth A I tk (snd (executeCreateOrder tx ctx d)) \<le> wealth A I tk d"
    "wealth A I tk d \<le> wealth A I tk (snd (executeCreateOrder tx ctx d)) + MAX_BOOK_LEVELS_PER_TAKER"
    using run by simp_all
qed

end
