(* ===== verification/Exec_Liquidity.thy ===== *)
theory Exec_Liquidity
  imports Exec_Effects
begin

text \<open>
  Adding and removing liquidity: the funds of the ledger and the value behind a share. The product
  of the reserves over the square of the liquidity is the square of the value of a share; no operation
  lowers it.
\<close>

section \<open>Share arithmetic\<close>

lemma lp_add_same:
  fixes a b x y l m :: nat
  assumes "m * a \<le> x * l" "m * b \<le> y * l"
  shows "a * b * (l + m)\<^sup>2 \<le> (a + x) * (b + y) * l\<^sup>2"
proof -
  have "((l + m) * a) * ((l + m) * b) \<le> (l * (a + x)) * (l * (b + y))"
    using assms by (intro mult_le_mono [of "(l + m) * a" _ "(l + m) * b"]) (simp_all add: algebra_simps)
  then show ?thesis by (simp add: power2_eq_square algebra_simps)
qed

lemma lp_add_cross:
  fixes a b x y l m :: nat
  assumes "m * a \<le> x * l" "m * b \<le> y * l"
  shows "a * b * (l + m)\<^sup>2 \<le> (a + y) * (b + x) * l\<^sup>2"
proof -
  have sq: "2 * (a * b) \<le> a * a + b * b"
  proof -
    have "0 \<le> (int a - int b)\<^sup>2" by simp
    then have "2 * (int a * int b) \<le> int a * int a + int b * int b" by (simp add: power2_eq_square algebra_simps)
    then show ?thesis by (metis (no_types, lifting) of_nat_add of_nat_le_iff of_nat_mult of_nat_numeral)
  qed
  have "a * b * (l + m)\<^sup>2 = l * l * (a * b) + l * m * (2 * (a * b)) + m * m * (a * b)"
    by (simp add: power2_eq_square algebra_simps)
  also have "\<dots> \<le> l * l * (a * b) + l * m * (a * a + b * b) + m * m * (a * b)"
    using mult_le_mono2 [OF sq, of "l * m"] by simp
  also have "\<dots> = (l * a + m * b) * (l * b + m * a)" by (simp add: algebra_simps)
  also have "\<dots> \<le> (l * (a + y)) * (l * (b + x))"
    using assms by (intro mult_le_mono [of "l * a + m * b" _ "l * b + m * a"]) (simp_all add: algebra_simps)
  finally show ?thesis by (simp add: power2_eq_square algebra_simps)
qed

lemma lp_remove:
  fixes a b l k :: nat
  assumes "k \<le> l"
  shows "a * b * (l - k)\<^sup>2 \<le> (a - k * a div l) * (b - k * b div l) * l\<^sup>2"
proof (cases "l = 0")
  case False
  have one: "(l - k) * z \<le> l * (z - k * z div l)" for z
  proof -
    have "k * z div l * l \<le> k * z" by (rule div_times_less_eq_dividend)
    then show ?thesis by (simp add: diff_mult_distrib diff_mult_distrib2 mult.commute [of l] diff_le_mono2)
  qed
  have "((l - k) * a) * ((l - k) * b) \<le> (l * (a - k * a div l)) * (l * (b - k * b div l))"
    by (rule mult_le_mono [OF one one])
  then show ?thesis by (simp add: power2_eq_square algebra_simps)
qed (use assms in simp)

text \<open>The 64-bit product of the handler may wrap; the minted share is then smaller, never larger.\<close>

lemma share_word:
  fixes x l r :: u64
  assumes "r \<noteq> 0"
  shows "unat (x * l div r) * unat r \<le> unat x * unat l"
proof -
  have "unat (x * l div r) * unat r \<le> unat (x * l)" by (simp add: unat_div)
  also have "\<dots> \<le> unat x * unat l" by (simp add: unat_word_ariths)
  finally show ?thesis .
qed

section \<open>Adding\<close>

definition add_minted :: "transaction \<Rightarrow> amm_pool \<Rightarrow> u64" where
  "add_minted tx pool =
     min (tx_amount tx * pool_total_liquidity pool div pool_reserve_a pool)
         (readU64At (tx_payload tx) 8 * pool_total_liquidity pool div pool_reserve_b pool)"

definition added_pool :: "transaction \<Rightarrow> amm_pool \<Rightarrow> amm_pool" where
  "added_pool tx pool =
     (let p = (if tx_token_id tx = pool_token_a pool
               then pool\<lparr>pool_reserve_a := pool_reserve_a pool + tx_amount tx,
                         pool_reserve_b := pool_reserve_b pool + readU64At (tx_payload tx) 8\<rparr>
               else pool\<lparr>pool_reserve_b := pool_reserve_b pool + tx_amount tx,
                         pool_reserve_a := pool_reserve_a pool + readU64At (tx_payload tx) 8\<rparr>)
      in p\<lparr>pool_total_liquidity := pool_total_liquidity pool + add_minted tx pool\<rparr>)"

lemma add_step:
  fixes A :: "address set" and I :: "id set" and tx :: transaction and ctx :: tx_context and d :: db
  assumes keys: "keys_ok (ledger_keys A I) d" and mem: "tx_from tx \<in> A"
    and pool: "getAmmPool (readU64At (tx_payload tx) 0) d = Some pool"
    and ok: "rcpt_status (fst (executeAddLiquidity tx ctx d)) = Success"
  defines "d2 \<equiv> take_funds (tx_from tx) (swap_token_out tx pool) (readU64At (tx_payload tx) 8)
      (take_funds (tx_from tx) (tx_token_id tx) (tx_amount tx) d)"
  shows "tx_token_id tx = pool_token_a pool \<or> tx_token_id tx = pool_token_b pool"
    "pool_reserve_a pool \<noteq> 0" "pool_reserve_b pool \<noteq> 0"
    "\<not> lacks (tx_from tx) (tx_token_id tx) (tx_amount tx) d"
    "\<not> lacks (tx_from tx) (swap_token_out tx pool) (readU64At (tx_payload tx) 8) d"
    "same_funds A I (snd (executeAddLiquidity tx ctx d)) (putAmmPool (added_pool tx pool) d2)"
proof -
  define d3 where "d3 = putAmmPool (added_pool tx pool) d2"
  have k3: "keys_ok (ledger_keys A I) d3" using keys by (simp add: d2_def d3_def)
  have guards: "\<not> length (tx_payload tx) < 16 \<and> pool_active pool
      \<and> (tx_token_id tx = pool_token_a pool \<or> tx_token_id tx = pool_token_b pool)
      \<and> pool_reserve_a pool \<noteq> 0 \<and> pool_reserve_b pool \<noteq> 0
      \<and> \<not> lacks (tx_from tx) (tx_token_id tx) (tx_amount tx) d
      \<and> \<not> lacks (tx_from tx) (swap_token_out tx pool) (readU64At (tx_payload tx) 8) d"
    using ok pool by (auto simp: executeAddLiquidity_def Let_def swap_token_out_def failure_def split: if_splits)
  then show "tx_token_id tx = pool_token_a pool \<or> tx_token_id tx = pool_token_b pool"
    "pool_reserve_a pool \<noteq> 0" "pool_reserve_b pool \<noteq> 0"
    "\<not> lacks (tx_from tx) (tx_token_id tx) (tx_amount tx) d"
    "\<not> lacks (tx_from tx) (swap_token_out tx pool) (readU64At (tx_payload tx) 8) d" by blast+
  have "snd (executeAddLiquidity tx ctx d) =
      (case (case getPositionIndex (tx_from tx) (readU64At (tx_payload tx) 0) d3 of
               None \<Rightarrow> None | Some e \<Rightarrow> getAmmPosition e d3) of
         Some pos \<Rightarrow> putAmmPosition (pos\<lparr>pos_liquidity := pos_liquidity pos + add_minted tx pool\<rparr>) d3
       | None \<Rightarrow>
           putGlobal ''next_position_id'' (writeU64 (counter_from_one ''next_position_id'' d3 + 1))
             (putPositionIndex (tx_from tx) (readU64At (tx_payload tx) 0) (counter_from_one ''next_position_id'' d3)
               (putAmmPosition \<lparr>pos_id = counter_from_one ''next_position_id'' d3, pos_owner = tx_from tx,
                  pos_pool_id = readU64At (tx_payload tx) 0, pos_liquidity = add_minted tx pool,
                  pos_created_at_height = ctx_current_height ctx\<rparr> d3)))"
    using guards unfolding executeAddLiquidity_def Let_def pool option.case swap_token_out_def [symmetric]
      add_minted_def [symmetric] d3_def d2_def added_pool_def
    by (auto split: option.split)
  then show "same_funds A I (snd (executeAddLiquidity tx ctx d)) (putAmmPool (added_pool tx pool) d2)"
    unfolding d3_def [symmetric]
    by (auto simp: k3 mem intro: same_funds_trans [OF same_funds_ops(1) same_funds_trans [OF same_funds_ops(14) same_funds_ops(13)]]
        split: option.split)
qed

text \<open>Both sides of a deposit leave the wallet of the sender.\<close>

lemma take_two_funds:
  fixes A :: "address set" and I :: "id set" and d :: db
  assumes keys: "keys_ok (ledger_keys A I) d" and fin: "finite A" and mem: "a \<in> A"
    and t: "fits32 s" "fits32 t" "s \<noteq> t" and has: "\<not> lacks a s x d" "\<not> lacks a t y d"
  defines "d2 \<equiv> take_funds a t y (take_funds a s x d)"
  shows "keys_ok (ledger_keys A I) d2"
    "funds A I P tk d2 + (if tk = ucast s then unat x else 0) + (if tk = ucast t then unat y else 0) = funds A I P tk d"
    "getAmmPool j d2 = getAmmPool j d" "i \<in> I \<Longrightarrow> getOrder i d2 = getOrder i d"
proof -
  define d1 where "d1 = take_funds a s x d"
  have d2: "d2 = take_funds a t y d1" by (simp add: d2_def d1_def)
  have k1: "keys_ok (ledger_keys A I) d1" using keys by (simp add: d1_def)
  have ne: "(ucast s :: u32) \<noteq> ucast t" using fits32_inj [OF t(1,2)] t(3) by simp
  have "bal a (ucast t) d1 = bal a (ucast t) d"
    unfolding d1_def take_funds_bal [OF keys mem mem t(1) has(1)] using ne by simp
  then have has1: "\<not> lacks a t y d1" using has(2) by (simp add: lacks_bal [OF t(2)])
  show "keys_ok (ledger_keys A I) d2" using k1 by (simp add: d2)
  have "funds A I P tk d1 + (if tk = ucast s then unat x else 0) = funds A I P tk d"
    unfolding d1_def by (rule take_funds_funds [OF keys fin mem t(1) has(1)])
  moreover have "funds A I P tk d2 + (if tk = ucast t then unat y else 0) = funds A I P tk d1"
    unfolding d2 by (rule take_funds_funds [OF k1 fin mem t(2) has1])
  ultimately show "funds A I P tk d2 + (if tk = ucast s then unat x else 0) + (if tk = ucast t then unat y else 0)
      = funds A I P tk d" by linarith
  show "getAmmPool j d2 = getAmmPool j d" "i \<in> I \<Longrightarrow> getOrder i d2 = getOrder i d"
    using take_funds_frame(1,2) [OF keys mem] take_funds_frame(1,2) [OF k1 mem] by (simp_all add: d2 d1_def)
qed

text \<open>A pool is backed when its liquidity is at most the square root of the product of the reserves.\<close>

definition pool_backed :: "amm_pool \<Rightarrow> bool" where
  "pool_backed p \<longleftrightarrow> (unat (pool_total_liquidity p))\<^sup>2 \<le> unat (pool_reserve_a p) * unat (pool_reserve_b p)"

definition share_grows :: "amm_pool \<Rightarrow> amm_pool \<Rightarrow> bool" where
  "share_grows p p' \<longleftrightarrow>
     unat (pool_reserve_a p) * unat (pool_reserve_b p) * (unat (pool_total_liquidity p'))\<^sup>2
     \<le> unat (pool_reserve_a p') * unat (pool_reserve_b p') * (unat (pool_total_liquidity p))\<^sup>2"

lemma backed_grows:
  fixes r r' l l' :: nat
  assumes "l\<^sup>2 \<le> r" "r * l'\<^sup>2 \<le> r' * l\<^sup>2" "0 < r"
  shows "l'\<^sup>2 \<le> r'"
proof -
  have "r * l'\<^sup>2 \<le> r' * r" using assms(1,2) by (meson le_trans mult_le_mono2)
  then show ?thesis using assms(3) by (simp add: mult.commute)
qed

lemma added_pool_facts:
  fixes tx :: transaction and pool :: amm_pool
  assumes wfp: "AmmPool_wf pool" and nz: "pool_reserve_a pool \<noteq> 0" and backed: "pool_backed pool"
    and side: "tx_token_id tx = pool_token_a pool \<or> tx_token_id tx = pool_token_b pool"
    and room: "unat (swap_reserve_in tx pool) + unat (tx_amount tx) < 2 ^ 64"
      "unat (swap_reserve_out tx pool) + unat (readU64At (tx_payload tx) 8) < 2 ^ 64"
  defines "p \<equiv> added_pool tx pool"
  shows "AmmPool_wf p" "pool_id p = pool_id pool"
    "unat (pool_total_liquidity p) = unat (pool_total_liquidity pool) + unat (add_minted tx pool)"
    "pool_hold t (Some p) = pool_hold t (Some pool) + (if t = ucast (tx_token_id tx) then unat (tx_amount tx) else 0)
      + (if t = ucast (swap_token_out tx pool) then unat (readU64At (tx_payload tx) 8) else 0)"
    "share_grows pool p" "pool_backed p"
proof -
  note facts = pool_wf_facts [OF wfp]
  let ?x = "tx_amount tx" and ?y = "readU64At (tx_payload tx) 8" and ?L = "pool_total_liquidity pool"
  let ?a = "pool_reserve_a pool" and ?b = "pool_reserve_b pool" and ?m = "add_minted tx pool"
  have in_a: "tx_token_id tx = pool_token_a pool \<Longrightarrow>
      unat (pool_reserve_a p) = unat ?a + unat ?x \<and> unat (pool_reserve_b p) = unat ?b + unat ?y"
    and in_b: "tx_token_id tx \<noteq> pool_token_a pool \<Longrightarrow>
      unat (pool_reserve_a p) = unat ?a + unat ?y \<and> unat (pool_reserve_b p) = unat ?b + unat ?x"
    using room by (auto simp: p_def added_pool_def Let_def swap_reserve_in_def swap_reserve_out_def unat_add_no_overflow)
  show id: "pool_id p = pool_id pool" by (simp add: p_def added_pool_def Let_def)
  have toks: "pool_token_a p = pool_token_a pool" "pool_token_b p = pool_token_b pool"
    "pool_fee_bps p = pool_fee_bps pool" "pool_creator p = pool_creator pool"
    by (simp_all add: p_def added_pool_def Let_def)
  have nzb: "?b \<noteq> 0" using nz facts(5) by simp
  have pos: "0 < unat ?a" "0 < unat ?b" using nz nzb by (simp_all add: unat_gt_0)
  have nzp: "pool_reserve_a p \<noteq> 0" "pool_reserve_b p \<noteq> 0"
    using in_a in_b pos by (metis add_gr_0 less_not_refl unat_0)+
  show wf': "AmmPool_wf p"
    using wfp nzp by (simp add: AmmPool_wf_def AmmPool_isValid_def id toks split: if_splits)
  note inj = fits32_inj [OF facts(3,4)] fits32_inj [OF facts(4,3)]
  show "pool_hold t (Some p) = pool_hold t (Some pool) + (if t = ucast (tx_token_id tx) then unat ?x else 0)
      + (if t = ucast (swap_token_out tx pool) then unat ?y else 0)"
    using in_a in_b side facts(2) inj
    by (auto simp: pool_hold_wf [OF wf'] pool_hold_wf [OF wfp] toks swap_token_out_def)
  have "unat ?m \<le> unat (?x * ?L div ?a)" "unat ?m \<le> unat (?y * ?L div ?b)"
    by (simp_all add: add_minted_def word_le_nat_alt [symmetric])
  then have ma: "unat ?m * unat ?a \<le> unat ?x * unat ?L" and mb: "unat ?m * unat ?b \<le> unat ?y * unat ?L"
    using share_word [OF nz, of ?x ?L] share_word [OF nzb, of ?y ?L] by (meson le_trans mult_le_mono1)+
  have grow: "unat ?a * unat ?b * (unat ?L + unat ?m)\<^sup>2
      \<le> unat (pool_reserve_a p) * unat (pool_reserve_b p) * (unat ?L)\<^sup>2"
    using lp_add_same [OF ma mb] lp_add_cross [OF ma mb] in_a in_b
    by (cases "tx_token_id tx = pool_token_a pool") simp_all
  have bk: "(unat ?L + unat ?m)\<^sup>2 \<le> unat (pool_reserve_a p) * unat (pool_reserve_b p)"
    by (rule backed_grows [OF backed [unfolded pool_backed_def] grow]) (use pos in simp)
  also have "\<dots> < (2 ^ 64)\<^sup>2"
    using mult_strict_mono [of "unat (pool_reserve_a p)" "2 ^ 64" "unat (pool_reserve_b p)" "2 ^ 64"]
      unat_u64_less [of "pool_reserve_a p"] unat_u64_less [of "pool_reserve_b p"] by (simp add: power2_eq_square)
  finally have "unat ?L + unat ?m < 2 ^ 64" by (rule power_less_imp_less_base) simp
  then show liq: "unat (pool_total_liquidity p) = unat ?L + unat ?m"
    by (simp add: p_def added_pool_def Let_def unat_add_no_overflow)
  show "share_grows pool p" "pool_backed p"
    using grow bk by (simp_all add: share_grows_def pool_backed_def liq)
qed

lemma add_effect:
  assumes keys: "keys_ok (ledger_keys A I) d" and fin: "finite A" "finite P"
    and mem: "tx_from tx \<in> A" "readU64At (tx_payload tx) 0 \<in> P"
    and pool: "getAmmPool (readU64At (tx_payload tx) 0) d = Some pool" "pool_id pool = readU64At (tx_payload tx) 0"
    and backed: "pool_backed pool" and small: "\<And>tk. funds A I P tk d < 2 ^ 64"
    and ok: "rcpt_status (fst (executeAddLiquidity tx ctx d)) = Success"
  defines "d' \<equiv> snd (executeAddLiquidity tx ctx d)" and "p \<equiv> added_pool tx pool"
  shows "funds A I P tk d' = funds A I P tk d" "getAmmPool (readU64At (tx_payload tx) 0) d' = Some p"
    "share_grows pool p" "pool_backed p"
    "unat (pool_total_liquidity p) = unat (pool_total_liquidity pool) + unat (add_minted tx pool)"
proof -
  let ?s = "tx_token_id tx" and ?t = "swap_token_out tx pool" and ?x = "tx_amount tx" and ?y = "readU64At (tx_payload tx) 8"
  have wfp: "AmmPool_wf pool" using pool(1) by (rule getAmmPool_wf)
  note step = add_step [OF keys mem(1) pool(1) ok, folded d'_def p_def]
  note side = swap_room [OF wfp step(1)]
  note two = take_two_funds [OF keys fin(1) mem(1) side(1-3) step(4,5)]
  have "unat ?x \<le> bal (tx_from tx) (ucast ?s) d" "unat ?y \<le> bal (tx_from tx) (ucast ?t) d"
    using step(4,5) by (simp_all add: lacks_bal [OF side(1)] lacks_bal [OF side(2)])
  then have room: "unat (swap_reserve_in tx pool) + unat ?x < 2 ^ 64" "unat (swap_reserve_out tx pool) + unat ?y < 2 ^ 64"
    using held_le_funds [OF fin mem pool(1), of "ucast ?s" I] held_le_funds [OF fin mem pool(1), of "ucast ?t" I]
      small [of "ucast ?s"] small [of "ucast ?t"] side(4,5) by linarith+
  note ap = added_pool_facts [OF wfp step(2) backed step(1) room, folded p_def]
  show "share_grows pool p" "pool_backed p"
    "unat (pool_total_liquidity p) = unat (pool_total_liquidity pool) + unat (add_minted tx pool)"
    using ap by blast+
  define d2 where "d2 = take_funds (tx_from tx) ?t ?y (take_funds (tx_from tx) ?s ?x d)"
  have same: "same_funds A I d' (putAmmPool p d2)" using step(6) by (simp add: d2_def)
  have idP: "pool_id p \<in> P" using mem(2) pool(2) ap(2) by simp
  have "funds A I P tk (putAmmPool p d2) + pool_hold tk (Some pool) = funds A I P tk d2 + pool_hold tk (Some p)"
    using putAmmPool_funds [OF two(1) fin(2) idP ap(1), of tk] pool ap(2) two(3) by (simp add: d2_def)
  moreover note two(2) [where tk = tk and P = P, folded d2_def] ap(4) [where t = tk]
  ultimately have "funds A I P tk (putAmmPool p d2) = funds A I P tk d" by linarith
  then show "funds A I P tk d' = funds A I P tk d" using same_funds_eq [OF same] by simp
  have "getAmmPool (pool_id p) (putAmmPool p d2) = Some p"
    using getAmmPool_put [OF two(1) _ ap(1)] by (simp add: d2_def)
  then show "getAmmPool (readU64At (tx_payload tx) 0) d' = Some p"
    using same ap(2) pool(2) by (simp add: same_funds_def)
qed

section \<open>Removing\<close>

definition remove_amount :: "transaction \<Rightarrow> amm_position \<Rightarrow> u64" where
  "remove_amount tx pos = (if readU64At (tx_payload tx) 8 = 0 then pos_liquidity pos else readU64At (tx_payload tx) 8)"

definition remove_share :: "u64 \<Rightarrow> u64 \<Rightarrow> u64 \<Rightarrow> u64" where
  "remove_share amount whole reserve =
     (if amount = whole then reserve else ucast ((ucast amount :: u128) * ucast reserve div ucast whole))"

definition removed_pool :: "u64 \<Rightarrow> amm_pool \<Rightarrow> amm_pool" where
  "removed_pool amount pool =
     pool\<lparr>pool_reserve_a := pool_reserve_a pool - remove_share amount (pool_total_liquidity pool) (pool_reserve_a pool),
          pool_reserve_b := pool_reserve_b pool - remove_share amount (pool_total_liquidity pool) (pool_reserve_b pool),
          pool_total_liquidity := pool_total_liquidity pool - amount\<rparr>"

lemma remove_share_exact:
  assumes "amount \<le> whole"
  shows "unat (remove_share amount whole r) = (if amount = whole then unat r else unat amount * unat r div unat whole)"
    "unat (remove_share amount whole r) \<le> unat r"
    "amount \<noteq> whole \<Longrightarrow> r \<noteq> 0 \<Longrightarrow> unat (remove_share amount whole r) < unat r"
proof -
  have less: "amount \<noteq> whole \<Longrightarrow> unat amount < unat whole" using assms by (simp add: word_le_nat_alt word_unat_eq_iff)
  have le: "amount \<noteq> whole \<Longrightarrow> unat amount * unat r div unat whole \<le> unat r"
    using less div_le_mono [of "unat amount * unat r" "unat whole * unat r" "unat whole"]
    by (simp add: mult_le_mono1)
  have lt: "unat amount * unat r div unat whole < unat r" if "amount \<noteq> whole" "r \<noteq> 0"
    using less [OF that(1)] that(2) by (intro less_mult_imp_div_less) (simp add: unat_gt_0)
  show eq: "unat (remove_share amount whole r) = (if amount = whole then unat r else unat amount * unat r div unat whole)"
    using order.strict_trans1 [OF le unat_u64_less [of r]] by (auto simp: remove_share_def unat_ucast_u64)
  show "unat (remove_share amount whole r) \<le> unat r" using le eq by simp
  show "amount \<noteq> whole \<Longrightarrow> r \<noteq> 0 \<Longrightarrow> unat (remove_share amount whole r) < unat r" using lt eq by simp
qed

lemma removed_pool_facts:
  fixes amount :: u64 and pool :: amm_pool
  assumes wfp: "AmmPool_wf pool" and le: "amount \<le> pool_total_liquidity pool"
  defines "p \<equiv> removed_pool amount pool" and "L \<equiv> pool_total_liquidity pool"
  shows "AmmPool_wf p" "pool_id p = pool_id pool"
    "unat (pool_total_liquidity p) = unat L - unat amount"
    "pool_hold t (Some p) + (if t = ucast (pool_token_a pool) then unat (remove_share amount L (pool_reserve_a pool)) else 0)
      + (if t = ucast (pool_token_b pool) then unat (remove_share amount L (pool_reserve_b pool)) else 0)
      = pool_hold t (Some pool)"
    "share_grows pool p" "amount = L \<Longrightarrow> AmmPool_isClosed p"
    "amount \<noteq> L \<Longrightarrow> \<not> AmmPool_isClosed p" "amount = L \<Longrightarrow> pool_hold t (Some p) = 0"
proof -
  note facts = pool_wf_facts [OF wfp]
  let ?a = "pool_reserve_a pool" and ?b = "pool_reserve_b pool"
  have le': "amount \<le> L" using le by (simp add: L_def)
  note sh = remove_share_exact [OF le']
  have res: "unat (pool_reserve_a p) = unat ?a - unat (remove_share amount L ?a)"
    "unat (pool_reserve_b p) = unat ?b - unat (remove_share amount L ?b)"
    using sh(2) by (simp_all add: p_def removed_pool_def L_def unat_sub_le word_le_nat_alt)
  show id: "pool_id p = pool_id pool" by (simp add: p_def removed_pool_def)
  show liq: "unat (pool_total_liquidity p) = unat L - unat amount"
    using le' by (simp add: p_def removed_pool_def L_def unat_sub_le)
  have toks: "pool_token_a p = pool_token_a pool" "pool_token_b p = pool_token_b pool"
    "pool_fee_bps p = pool_fee_bps pool" "pool_creator p = pool_creator pool"
    by (simp_all add: p_def removed_pool_def)
  have zero: "amount = L \<Longrightarrow> pool_reserve_a p = 0 \<and> pool_reserve_b p = 0 \<and> pool_total_liquidity p = 0"
    by (simp add: p_def removed_pool_def L_def remove_share_def)
  have keep: "amount \<noteq> L \<Longrightarrow> ?a \<noteq> 0 \<Longrightarrow> pool_reserve_a p \<noteq> 0 \<and> pool_reserve_b p \<noteq> 0"
    using sh(3) [of ?a] sh(3) [of ?b] facts(5) res by (metis unat_0 zero_less_diff less_not_refl)
  have keep0: "?a = 0 \<Longrightarrow> pool_reserve_a p = 0 \<and> pool_reserve_b p = 0"
    using res facts(5) by (simp add: unat_eq_zero)
  have valid: "pool_reserve_a p = 0 \<longleftrightarrow> pool_reserve_b p = 0"
    using zero keep keep0 by metis
  then show wf': "AmmPool_wf p"
    using wfp by (auto simp: AmmPool_wf_def AmmPool_isValid_def id toks word_gt_0 split: if_splits)
  note inj = fits32_inj [OF facts(3,4)] fits32_inj [OF facts(4,3)]
  show "pool_hold t (Some p) + (if t = ucast (pool_token_a pool) then unat (remove_share amount L ?a) else 0)
      + (if t = ucast (pool_token_b pool) then unat (remove_share amount L ?b) else 0) = pool_hold t (Some pool)"
    using res sh(2) [of ?a] sh(2) [of ?b] facts(2) inj
    by (auto simp: pool_hold_wf [OF wf'] pool_hold_wf [OF wfp] toks)
  show "share_grows pool p"
  proof (cases "amount = L")
    case True
    then show ?thesis using liq by (simp add: share_grows_def)
  next
    case False
    have "unat amount \<le> unat L" using le' by (simp add: word_le_nat_alt)
    from lp_remove [OF this, of "unat ?a" "unat ?b"] show ?thesis
      using False liq by (simp add: share_grows_def res sh(1) L_def [symmetric])
  qed
  show "amount = L \<Longrightarrow> AmmPool_isClosed p" using zero by (simp add: AmmPool_isClosed_def)
  show "amount \<noteq> L \<Longrightarrow> \<not> AmmPool_isClosed p"
    by (simp add: AmmPool_isClosed_def p_def removed_pool_def L_def)
  show "amount = L \<Longrightarrow> pool_hold t (Some p) = 0" using zero by (simp add: pool_hold_wf [OF wf'])
qed

lemma remove_step:
  fixes A :: "address set" and I :: "id set" and tx :: transaction and ctx :: tx_context and d :: db
  assumes keys: "keys_ok (ledger_keys A I) d" and mem: "tx_from tx \<in> A"
    and pos: "getAmmPosition (readU64At (tx_payload tx) 0) d = Some pos"
    and pool: "getAmmPool (pos_pool_id pos) d = Some pool"
    and le: "pos_liquidity pos \<le> pool_total_liquidity pool"
  defines "n \<equiv> remove_amount tx pos" and "L \<equiv> pool_total_liquidity pool"
  defines "d3 \<equiv> give_funds (tx_from tx) (pool_token_b pool) (remove_share n L (pool_reserve_b pool))
      (give_funds (tx_from tx) (pool_token_a pool) (remove_share n L (pool_reserve_a pool))
        (putAmmPool (removed_pool n pool) d))"
  shows "executeRemoveLiquidity tx ctx d \<noteq> None"
    "executeRemoveLiquidity tx ctx d = Some (r, d') \<Longrightarrow> rcpt_status r = Success \<Longrightarrow>
      pos_owner pos = tx_from tx \<and> n \<noteq> 0 \<and> n \<le> pos_liquidity pos
      \<and> (\<exists>d4. keys_ok (ledger_keys A I) d4 \<and> same_funds A I d4 d3
          \<and> d' = (if AmmPool_isClosed (removed_pool n pool) then deleteAmmPool (pool_id pool) d4 else d4))"
proof -
  define d4 where "d4 = (if n = L then deletePositionIndex (pos_owner pos) (pos_pool_id pos)
      (putAmmPosition (pos\<lparr>pos_liquidity := 0\<rparr>) d3)
      else putAmmPosition (pos\<lparr>pos_liquidity := pos_liquidity pos - n\<rparr>) d3)"
  have k3: "keys_ok (ledger_keys A I) d3" using keys by (simp add: d3_def)
  have L0: "L \<noteq> 0" if "pos_liquidity pos \<noteq> 0" using that le by (auto simp: L_def)
  have frame: "pool_id (removed_pool n pool) = pool_id pool" "pool_token_a (removed_pool n pool) = pool_token_a pool"
    "pool_token_b (removed_pool n pool) = pool_token_b pool"
    by (simp_all add: removed_pool_def)
  have eq: "executeRemoveLiquidity tx ctx d =
      (if length (tx_payload tx) \<noteq> 16 \<or> pos_owner pos \<noteq> tx_from tx \<or> pos_liquidity pos = 0 \<or> pos_liquidity pos < n
       then Some (failure tx, d)
       else Some (success tx, if AmmPool_isClosed (removed_pool n pool) then deleteAmmPool (pool_id pool) d4 else d4))"
    unfolding executeRemoveLiquidity_def Let_def pos pool option.case remove_amount_def [symmetric]
      n_def [symmetric] L_def [symmetric] remove_share_def [symmetric] d4_def d3_def
    unfolding removed_pool_def [symmetric, of pool, folded L_def]
    using L0 by (simp add: frame [unfolded removed_pool_def L_def [symmetric]] removed_pool_def L_def [symmetric])
  show "executeRemoveLiquidity tx ctx d \<noteq> None" unfolding eq by simp
  have nz: "n \<noteq> 0" if "pos_liquidity pos \<noteq> 0" using that by (simp add: n_def remove_amount_def)
  have same: "same_funds A I d4 d3" if "pos_owner pos = tx_from tx"
    using that mem k3 by (auto simp: d4_def intro: same_funds_trans [OF same_funds_ops(15) same_funds_ops(13)])
  have k4: "keys_ok (ledger_keys A I) d4" using k3 by (simp add: d4_def)
  show "executeRemoveLiquidity tx ctx d = Some (r, d') \<Longrightarrow> rcpt_status r = Success \<Longrightarrow>
      pos_owner pos = tx_from tx \<and> n \<noteq> 0 \<and> n \<le> pos_liquidity pos
      \<and> (\<exists>d4. keys_ok (ledger_keys A I) d4 \<and> same_funds A I d4 d3
          \<and> d' = (if AmmPool_isClosed (removed_pool n pool) then deleteAmmPool (pool_id pool) d4 else d4))"
    unfolding eq using same nz k4 by (auto simp: failure_def not_less split: if_splits)
qed

lemma give_two_funds:
  fixes A :: "address set" and I :: "id set" and d :: db
  assumes keys: "keys_ok (ledger_keys A I) d" and fin: "finite A" and mem: "a \<in> A"
    and t: "fits32 s" "fits32 t" "s \<noteq> t"
    and room: "bal a (ucast s) d + unat x < 2 ^ 64" "bal a (ucast t) d + unat y < 2 ^ 64"
  defines "d2 \<equiv> give_funds a t y (give_funds a s x d)"
  shows "keys_ok (ledger_keys A I) d2"
    "funds A I P tk d2 = funds A I P tk d + (if tk = ucast s then unat x else 0) + (if tk = ucast t then unat y else 0)"
    "getAmmPool j d2 = getAmmPool j d"
proof -
  define d1 where "d1 = give_funds a s x d"
  have d2: "d2 = give_funds a t y d1" by (simp add: d2_def d1_def)
  have k1: "keys_ok (ledger_keys A I) d1" using keys by (simp add: d1_def)
  have ne: "(ucast t :: u32) \<noteq> ucast s" using fits32_inj [OF t(1,2)] t(3) by simp
  have "bal a (ucast t) d1 = bal a (ucast t) d"
    unfolding d1_def give_funds_add [OF t(1)] using add_balance_bal [OF keys mem mem room(1), of "ucast t"] ne by simp
  then have room1: "bal a (ucast t) d1 + unat y < 2 ^ 64" using room(2) by simp
  show "keys_ok (ledger_keys A I) d2" using k1 by (simp add: d2)
  have "funds A I P tk d1 = funds A I P tk d + (if tk = ucast s then unat x else 0)"
    unfolding d1_def by (rule give_funds_funds [OF keys fin mem t(1) room(1)])
  moreover have "funds A I P tk d2 = funds A I P tk d1 + (if tk = ucast t then unat y else 0)"
    unfolding d2 by (rule give_funds_funds [OF k1 fin mem t(2) room1])
  ultimately show "funds A I P tk d2 = funds A I P tk d + (if tk = ucast s then unat x else 0)
      + (if tk = ucast t then unat y else 0)" by linarith
  show "getAmmPool j d2 = getAmmPool j d"
    using take_funds_frame(4) [OF keys mem] take_funds_frame(4) [OF k1 mem] by (simp add: d2 d1_def)
qed

lemma remove_effect:
  fixes A :: "address set" and I P :: "id set" and tx :: transaction and ctx :: tx_context and d :: db
  assumes keys: "keys_ok (ledger_keys A I) d" and fin: "finite A" "finite P"
    and mem: "tx_from tx \<in> A" "pos_pool_id pos \<in> P"
    and pos: "getAmmPosition (readU64At (tx_payload tx) 0) d = Some pos"
    and pool: "getAmmPool (pos_pool_id pos) d = Some pool" "pool_id pool = pos_pool_id pos"
    and le: "pos_liquidity pos \<le> pool_total_liquidity pool" and small: "\<And>tk. funds A I P tk d < 2 ^ 64"
    and ok: "executeRemoveLiquidity tx ctx d = Some (r, d')" "rcpt_status r = Success"
  defines "n \<equiv> remove_amount tx pos"
  shows "funds A I P tk d' = funds A I P tk d"
    "getAmmPool (pos_pool_id pos) d' = (if n = pool_total_liquidity pool then None else Some (removed_pool n pool))"
    "share_grows pool (removed_pool n pool)"
proof -
  have wfp: "AmmPool_wf pool" using pool(1) by (rule getAmmPool_wf)
  note facts = pool_wf_facts [OF wfp]
  let ?L = "pool_total_liquidity pool" and ?p = "removed_pool n pool"
  let ?sa = "remove_share n ?L (pool_reserve_a pool)" and ?sb = "remove_share n ?L (pool_reserve_b pool)"
  define d1 where "d1 = putAmmPool ?p d"
  define d3 where "d3 = give_funds (tx_from tx) (pool_token_b pool) ?sb (give_funds (tx_from tx) (pool_token_a pool) ?sa d1)"
  note step = remove_step(2) [OF keys mem(1) pos pool(1) le ok, folded n_def, folded d1_def, folded d3_def]
  obtain d4 where k4: "keys_ok (ledger_keys A I) d4" and d4: "same_funds A I d4 d3" "d' = (if AmmPool_isClosed ?p then deleteAmmPool (pool_id pool) d4 else d4)"
    using step by blast
  have nL: "n \<le> ?L" using step le by (meson order_trans)
  note rp = removed_pool_facts [OF wfp nL]
  then show "share_grows pool ?p" by blast
  have k1: "keys_ok (ledger_keys A I) d1" using keys by (simp add: d1_def)
  have "bal (tx_from tx) tk d1 = bal (tx_from tx) tk d" for tk
    unfolding d1_def by (rule putAmmPool_frame(2) [OF keys mem(1)])
  then have room: "bal (tx_from tx) (ucast (pool_token_a pool)) d1 + unat ?sa < 2 ^ 64"
    "bal (tx_from tx) (ucast (pool_token_b pool)) d1 + unat ?sb < 2 ^ 64"
    using held_le_funds [OF fin mem pool(1), of "ucast (pool_token_a pool)" I] small [of "ucast (pool_token_a pool)"]
      held_le_funds [OF fin mem pool(1), of "ucast (pool_token_b pool)" I] small [of "ucast (pool_token_b pool)"]
      rp(4) [of "ucast (pool_token_a pool)"] rp(4) [of "ucast (pool_token_b pool)"]
    by simp_all
  note two = give_two_funds [OF k1 fin(1) mem(1) facts(3,4,2) room, folded d3_def]
  have idP: "pool_id ?p \<in> P" using mem(2) pool(2) rp(2) by simp
  have "funds A I P tk d1 + pool_hold tk (Some pool) = funds A I P tk d + pool_hold tk (Some ?p)"
    using putAmmPool_funds [OF keys fin(2) idP rp(1), of tk] pool rp(2) by (simp add: d1_def)
  then have f3: "funds A I P tk d3 = funds A I P tk d" using two(2) [of P tk] rp(4) [of tk] by linarith
  have g1: "getAmmPool (pool_id ?p) d1 = Some ?p" using getAmmPool_put [OF keys _ rp(1)] by (simp add: d1_def)
  have p4: "getAmmPool j d4 = getAmmPool j d1" for j using d4(1) two(3) by (simp add: same_funds_def)
  have f4: "funds A I P tk d4 = funds A I P tk d" using same_funds_eq [OF d4(1)] f3 by simp
  show "funds A I P tk d' = funds A I P tk d"
  proof (cases "n = ?L")
    case True
    have "pool_hold tk (getAmmPool (pool_id pool) d4) = 0" using p4 g1 rp(2) rp(8) [OF True] by simp
    then show ?thesis
      using deleteAmmPool_funds [OF k4 fin(2), of "pool_id pool" tk] mem(2) pool(2) f4 d4(2) rp(6) [OF True] by simp
  qed (use d4(2) rp(7) f4 in simp)
  show "getAmmPool (pos_pool_id pos) d' = (if n = ?L then None else Some ?p)"
    using d4(2) rp(6,7) p4 g1 rp(2) pool(2) getAmmPool_delete [OF k4, of "pool_id pool" "pool_id pool"] by simp
qed

end
