(* ===== verification/Exec_Atomic.thy ===== *)
theory Exec_Atomic
  imports Executor
begin

text \<open>
  The contract in the header of \<^verbatim>\<open>src/Core/TransactionExecutor.h\<close>: a failed transaction leaves the
  state unchanged except for the fee. Which handlers keep it, and what the others leave behind.
\<close>

lemma failure_status [simp]: "rcpt_status (failure tx) = Failure" "rcpt_status (success tx) = Success"
  by (simp_all add: failure_def success_def)

lemma debitToken_fail: "debitToken a t x d = (paid, d') \<Longrightarrow> \<not> paid \<Longrightarrow> d' = d"
  by (auto simp: debitToken_def Let_def split: if_splits)

definition atomic :: "(receipt \<times> db) \<Rightarrow> db \<Rightarrow> bool" where
  "atomic res d \<longleftrightarrow> rcpt_status (fst res) = Success \<or> snd res = d"

lemma atomic_simps [simp]:
  "atomic (failure tx, d) d" "atomic (success tx, d') d" "atomic ((success tx)\<lparr>rcpt_fills := fs\<rparr>, d') d"
  by (simp_all add: atomic_def)

lemma atomic_accounts:
  "atomic (executeTransfer tx ctx d) d" "atomic (executeOptInStaking tx ctx d) d"
  "atomic (executeOptOutStaking tx ctx d) d" "atomic (executeClaimRewards tx ctx d) d"
  by (simp_all add: executeTransfer_def executeOptInStaking_def executeOptOutStaking_def
      executeClaimRewards_def Let_def)

lemma atomic_validators:
  "atomic (executeRegisterValidator tx ctx d) d" "atomic (executeUpdateRewardAddress tx ctx d) d"
  "atomic (executeRotateConsensusKey tx ctx d) d"
  by (simp_all add: executeRegisterValidator_def executeUpdateRewardAddress_def
      executeRotateConsensusKey_def Let_def split: option.split)

lemma atomic_tokens:
  "atomic (executeCreateToken tx ctx d) d" "atomic (executeMintToken tx ctx d) d"
  "atomic (executeBurnToken tx ctx d) d" "atomic (executeUpdateTokenMeta tx ctx d) d"
  by (simp_all add: executeCreateToken_def executeMintToken_def executeBurnToken_def
      executeUpdateTokenMeta_def Let_def split: option.split)

lemma atomic_pools:
  "atomic (executeCreatePool tx ctx d) d" "atomic (executeAddLiquidity tx ctx d) d"
  "executeRemoveLiquidity tx ctx d = Some r \<Longrightarrow> atomic r d" "executeSwap tx ctx d = Some r \<Longrightarrow> atomic r d"
  "atomic (executeCancelOrder tx ctx d) d"
  by (auto simp: executeCreatePool_def executeAddLiquidity_def executeRemoveLiquidity_def
      executeSwap_def executeCancelOrder_def Let_def split: option.splits prod.splits if_splits)

lemma atomic_debit:
  "(\<And>d'. debitToken a t x d = (True, d') \<Longrightarrow> atomic (f d') d) \<Longrightarrow>
    atomic (case debitToken a t x d of (paid, d') \<Rightarrow> if \<not> paid then (failure tx, d') else f d') d"
  using debitToken_fail [of a t x d] by (auto split: prod.split)

lemma atomic_if: "(c \<Longrightarrow> atomic x d) \<Longrightarrow> (\<not> c \<Longrightarrow> atomic y d) \<Longrightarrow> atomic (if c then x else y) d"
  by simp

lemma atomic_option:
  "(\<And>v. x = Some v \<Longrightarrow> atomic (f v) d) \<Longrightarrow> atomic (case x of None \<Rightarrow> (failure tx, d) | Some v \<Rightarrow> f v) d"
  by (cases x) simp_all

lemmas atomic_intros = atomic_if atomic_option atomic_debit atomic_simps

lemma atomic_collections:
  "atomic (executeCreateNftCollection tx ctx d) d" "atomic (executeRefillCollectionReward tx ctx d) d"
  unfolding executeCreateNftCollection_def executeRefillCollectionReward_def Let_def
  by (intro atomic_intros)+

lemma atomic_nfts:
  "atomic (executeTopUpNft tx ctx d) d" "atomic (executeUpdateNftMetadata tx ctx d) d"
  "atomic (executeClaimNftReward tx ctx d) d"
  unfolding executeTopUpNft_def executeUpdateNftMetadata_def executeClaimNftReward_def Let_def
  by (intro atomic_intros | simp split: prod.split)+

text \<open>
  A minted NFT is always valid: its identifier comes from the counter, never zero, and its owner is
  the signer. So the check after the shadow token was written cannot fail.
\<close>

lemma atomic_mint: "\<not> isNull (tx_from tx) \<Longrightarrow> atomic (executeMintNft tx ctx d) d"
  unfolding executeMintNft_def Let_def
  by (intro atomic_intros) (simp add: NftInfo_isValid_def shadow_token_def INVALID_ID_def split: if_splits)+

lemma atomic_wrap: "\<not> isNull (tx_from tx) \<Longrightarrow> atomic (executeWrapNft tx ctx d) d"
  unfolding executeWrapNft_def Let_def
  by (intro atomic_intros) (simp add: NftInfo_isValid_def shadow_token_def INVALID_ID_def split: if_splits)+

text \<open>A passive order is matched after every check, and matching does not fail.\<close>

lemma atomic_createOrder:
  "ord_mode (order_of_payload tx ctx (order_counter d)) = Passive \<Longrightarrow> atomic (executeCreateOrder tx ctx d) d"
  by (simp add: executeCreateOrder_def Let_def split: prod.split)

end
