(* ===== verification/Exec_Samples.thy ===== *)
theory Exec_Samples
  imports Samples Exec_Frame Exec_Orders Exec_Liquidity Exec_Atomic
begin

text \<open>
  A small ledger and transactions on it, for the witnesses of the properties of the executor.
\<close>

definition sample_tx :: "TxType \<Rightarrow> u8 \<Rightarrow> u8 \<Rightarrow> id \<Rightarrow> u64 \<Rightarrow> bytes \<Rightarrow> transaction" where
  "sample_tx ty a b token amount payload =
     \<lparr>tx_version = 1, tx_chain_id = 1, tx_type = ty, tx_nonce = 0, tx_valid_until_height = 0,
      tx_from = sample_addr a, tx_to = sample_addr b, tx_token_id = token, tx_amount = amount, tx_fee = 1,
      tx_payload = payload, tx_signature = replicate 64 0\<rparr>"

definition sample_ctx :: tx_context where
  "sample_ctx = \<lparr>ctx_current_height = 5, ctx_chain_id = 1, ctx_tx_index_in_block = 0\<rparr>"

lemma sample_tx_fields [simp]:
  "tx_type (sample_tx ty a b token amount payload) = ty" "tx_from (sample_tx ty a b token amount payload) = sample_addr a"
  "tx_to (sample_tx ty a b token amount payload) = sample_addr b" "tx_token_id (sample_tx ty a b token amount payload) = token"
  "tx_amount (sample_tx ty a b token amount payload) = amount" "tx_fee (sample_tx ty a b token amount payload) = 1"
  "tx_payload (sample_tx ty a b token amount payload) = payload" "tx_nonce (sample_tx ty a b token amount payload) = 0"
  "tx_chain_id (sample_tx ty a b token amount payload) = 1" "tx_version (sample_tx ty a b token amount payload) = 1"
  "tx_valid_until_height (sample_tx ty a b token amount payload) = 0"
  "ctx_current_height sample_ctx = 5" "ctx_chain_id sample_ctx = 1" "ctx_tx_index_in_block sample_ctx = 0"
  by (simp_all add: sample_tx_def sample_ctx_def)

text \<open>One account with 500 000 native units and 5 000 of token 7, and a pool of the two.\<close>

definition sample_pool :: amm_pool where
  "sample_pool = \<lparr>pool_id = 1, pool_creator = sample_addr 2, pool_token_a = 0, pool_token_b = 7,
     pool_reserve_a = 100000, pool_reserve_b = 4000, pool_total_liquidity = 20000, pool_fee_bps = 30,
     pool_created_at_height = 1, pool_active = True, pool_volume_window_height = 0, pool_volume_current = 0,
     pool_volume_last = 0\<rparr>"

definition sample_wallets :: "(bytes \<Rightarrow> bytes) \<Rightarrow> db" where
  "sample_wallets H = putTokenBalance (sample_addr 1) 7 5000
     (putAccount (sample_addr 1) (sample_account 500000) (db_init H 0))"

definition sample_exchange :: db where
  "sample_exchange = putAmmPool sample_pool (sample_wallets sampleH)"

lemma sample_pool_wf: "AmmPool_wf sample_pool"
  by (simp add: sample_pool_def AmmPool_wf_def AmmPool_isValid_def fits32_def INVALID_ID_def AMM_MAX_FEE_BPS_def)

lemma all_keys_init: "keys_ok all_keys (db_init (\<lambda>b. b) 0)"
  by (rule keys_ok_init) (simp_all add: ledger_keys_wf)

lemma wallets_all_keys: "keys_ok all_keys (sample_wallets (\<lambda>b. b))"
  by (simp add: sample_wallets_def all_keys_init)

lemma wallets_keys: "keys_ok (ledger_keys sample_addrs I) (sample_wallets sampleH)"
  by (simp add: sample_wallets_def keys_ok_sample)

lemma exchange_keys: "keys_ok (ledger_keys sample_addrs I) sample_exchange"
  by (simp add: sample_exchange_def wallets_keys)

text \<open>What the accounts hold.\<close>

lemma getAccount_init [simp]: "getAccount a (db_init H v) = Account_default"
  by (simp add: getAccount_def smt_get_def db_init_def)

lemma wallets_account:
  assumes "keys_ok (ledger_keys A I) (db_init H 0)" "sample_addr 1 \<in> A" "a \<in> A"
  shows "acct_balance (getAccount a (sample_wallets H)) = (if a = sample_addr 1 then 500000 else 0)"
    "acct_nonce (getAccount a (sample_wallets H)) = 0"
proof -
  let ?d = "putAccount (sample_addr 1) (sample_account 500000) (db_init H 0)"
  have keys: "keys_ok (ledger_keys A I) ?d" using assms(1) by simp
  have "getAccount a (sample_wallets H) = getAccount a ?d"
    using assms by (simp add: sample_wallets_def getAccount_leaf leaf_putTokenBalance [OF keys])
  also have "\<dots> = (if a = sample_addr 1 then stored_account (sample_addr 1) (sample_account 500000) (db_init H 0)
      else Account_default)"
    using getAccount_putAccount [OF assms(1), of "sample_addr 1" a] assms(2,3) by simp
  finally show "acct_balance (getAccount a (sample_wallets H)) = (if a = sample_addr 1 then 500000 else 0)"
    "acct_nonce (getAccount a (sample_wallets H)) = 0"
    by (simp_all add: stored_account_def sample_account_def Let_def Account_default_def)
qed

lemma readU64At_writes [simp]:
  "readU64At (writeU64 x @ q) 0 = x" "readU64At (writeU64 x) 0 = x"
  "readU64At (writeU64 y @ writeU64 x @ q) 8 = x" "readU64At (writeU64 y @ writeU64 x) 8 = x"
  by (simp_all add: readU64At_drop codec_simps)

lemma wallets_bal:
  assumes "a \<in> sample_addrs"
  shows "bal a t (sample_wallets sampleH) = (if a = sample_addr 1 then (if t = 0 then 500000 else if t = 7 then 5000 else 0) else 0)"
proof -
  let ?i = "db_init sampleH 0"
  have k: "keys_ok (ledger_keys sample_addrs {}) ?i" by (rule keys_ok_sample)
  have k1: "keys_ok (ledger_keys sample_addrs {}) (putAccount (sample_addr 1) (sample_account 500000) ?i)" using k by simp
  show ?thesis
    unfolding sample_wallets_def putTokenBalance_bal [OF k1 sample_addr_mem assms] putAccount_bal [OF k sample_addr_mem assms]
    by (simp add: bal_init sample_account_def NATIVE_TOKEN_ID_def)
qed

lemma getAmmPool_init [simp]: "getAmmPool i (db_init H v) = None"
  by (simp add: getAmmPool_def smt_typed_def typed_get_def db_init_def)

lemma wallets_total: "total_bal sample_addrs t (sample_wallets sampleH) = (if t = 0 then 500000 else if t = 7 then 5000 else 0)"
proof -
  have "total_bal sample_addrs t (sample_wallets sampleH) = (\<Sum>a \<in> sample_addrs. if a = sample_addr 1
      then (if t = 0 then 500000 else if t = 7 then 5000 else 0) else 0)"
    unfolding total_bal_def by (rule sum.cong) (simp_all add: wallets_bal)
  then show ?thesis by simp
qed

lemma wallets_order: "getOrder i (sample_wallets sampleH) = None"
proof -
  have k: "keys_ok (ledger_keys sample_addrs {i}) (db_init sampleH 0)" by (rule keys_ok_sample)
  have k1: "keys_ok (ledger_keys sample_addrs {i}) (putAccount (sample_addr 1) (sample_account 500000) (db_init sampleH 0))"
    using k by simp
  show ?thesis
    unfolding sample_wallets_def balance_frames(2) [OF k1 sample_addr_mem singletonI]
      balance_frames(1) [OF k sample_addr_mem singletonI] by (rule getOrder_init)
qed

lemma wallets_global:
  assumes "n \<in> global_names" "n \<noteq> ''total_staked''" "n \<noteq> ''staker_count''"
  shows "getGlobal n (sample_wallets sampleH) = None"
proof -
  have k: "keys_ok (ledger_keys sample_addrs {}) (db_init sampleH 0)" by (rule keys_ok_sample)
  have k1: "keys_ok (ledger_keys sample_addrs {}) (putAccount (sample_addr 1) (sample_account 500000) (db_init sampleH 0))"
    using k by simp
  have "leaf (KGlobal n) (sample_wallets sampleH) = None"
    using assms by (simp add: sample_wallets_def leaf_putTokenBalance [OF k1] leaf_putAccount [OF k])
      (simp add: leaf_def smt_get_def db_init_def)
  then show ?thesis by (simp add: getGlobal_def leaf_def Keys_skey)
qed

lemma wallets_pool: "getAmmPool i (sample_wallets sampleH) = None"
proof -
  have k: "keys_ok (ledger_keys sample_addrs {}) (db_init sampleH 0)" by (rule keys_ok_sample)
  have k1: "keys_ok (ledger_keys sample_addrs {}) (putAccount (sample_addr 1) (sample_account 500000) (db_init sampleH 0))"
    using k by simp
  show ?thesis
    unfolding sample_wallets_def balance_frames(4) [OF k1 sample_addr_mem] balance_frames(3) [OF k sample_addr_mem] by simp
qed

lemma exchange_bal:
  "a \<in> sample_addrs \<Longrightarrow> bal a t sample_exchange =
    (if a = sample_addr 1 then (if t = 0 then 500000 else if t = 7 then 5000 else 0) else 0)"
  unfolding sample_exchange_def by (simp add: putAmmPool_frame(2) [OF wallets_keys] wallets_bal)

lemma exchange_pool: "getAmmPool i sample_exchange = (if i = 1 then Some sample_pool else None)"
  unfolding sample_exchange_def
  using getAmmPool_put [OF wallets_keys [of "{}"] _ sample_pool_wf, of i] wallets_pool [of i]
  by (simp add: sample_pool_def)

lemma exchange_funds: "funds sample_addrs {} {1} t sample_exchange = (if t = 0 then 600000 else if t = 7 then 9000 else 0)"
proof -
  have "total_bal sample_addrs t sample_exchange = total_bal sample_addrs t (sample_wallets sampleH)"
    unfolding total_bal_def by (rule sum.cong) (simp_all add: exchange_bal wallets_bal)
  then show ?thesis
    by (simp add: wallets_total funds_def wealth_def total_locked_def total_pooled_def exchange_pool pool_hold_wf [OF sample_pool_wf])
      (simp add: sample_pool_def)
qed

end
