(* ===== verification/Exec_Properties.thy ===== *)
theory Exec_Properties
  imports Exec_Samples Dex_Properties
begin

text \<open>
  The properties of the transaction executor.
\<close>

section \<open>Every transaction\<close>










section \<open>Transfers\<close>

text \<open>
  C13. A transfer moves exactly its amount: the sender has it less, the receiver has it more, every other
  balance of every token is as before, and no token is created or lost.
\<close>

theorem transfer_exact:
  assumes "keys_ok (ledger_keys A I) d" "finite A" "tx_from tx \<in> A" "tx_to tx \<in> A" "b \<in> A" "fits32 (tx_token_id tx)"
    and "rcpt_status (fst (executeTransfer tx ctx d)) = Success"
    and "bal (tx_to tx) (ucast (tx_token_id tx)) d + unat (tx_amount tx) < 2 ^ 64"
  shows "bal b tk (snd (executeTransfer tx ctx d)) + (if b = tx_from tx \<and> tk = ucast (tx_token_id tx) then unat (tx_amount tx) else 0)
      = bal b tk d + (if b = tx_to tx \<and> tk = ucast (tx_token_id tx) then unat (tx_amount tx) else 0) \<and>
    funds A I P tk (snd (executeTransfer tx ctx d)) = funds A I P tk d"
proof -
  note eff = transfer_effect(1,2) [OF assms(1,3,4,6-8) assms(5), of tk]
  have "\<not> lacks (tx_from tx) (tx_token_id tx) (tx_amount tx) d" by (rule transfer_success(3) [OF assms(7)])
  then have "unat (tx_amount tx) \<le> bal (tx_from tx) (ucast (tx_token_id tx)) d"
    by (simp add: lacks_bal [OF assms(6)])
  then show ?thesis using eff transfer_funds [OF assms(1,3,4,6,7,2,8)] by auto
qed

theorem transfer_exact_witness:
  "bal (sample_addr 2) 7 (snd (executeTransfer (sample_tx Tx_Transfer 1 2 7 40 []) sample_ctx sample_exchange)) = 40"
proof -
  let ?tx = "sample_tx Tx_Transfer 1 2 7 40 []"
  have fits: "fits32 (tx_token_id ?tx)" by (simp add: fits32_def)
  have "\<not> lacks (sample_addr 1) 7 40 sample_exchange" by (simp add: lacks_bal fits32_def exchange_bal)
  then have ok: "rcpt_status (fst (executeTransfer ?tx sample_ctx sample_exchange)) = Success"
    by (simp add: executeTransfer_def Let_def lacks_def NATIVE_TOKEN_ID_def)
  show ?thesis
    using transfer_exact [OF exchange_keys [of "{}"] finite_sample_addrs _ _ _ fits ok, of "sample_addr 2" 7 "{}"]
    by (simp add: exchange_bal)
qed

section \<open>Pools\<close>

text \<open>
  C7. A swap on a pool with reserves never traps, and one that succeeds conserves every token across
  balances, open orders and pools, pays at least the minimum the sender asked for, pays what the router's
  constant-product formula gives, and does not lower the product of the reserves.
\<close>

theorem swap_conserves:
  assumes "keys_ok (ledger_keys A I) d" "finite A" "finite P"
    and "tx_from tx \<in> A" "tx_to tx \<in> A" "readU64At (tx_payload tx) 0 \<in> P"
    and "getAmmPool (readU64At (tx_payload tx) 0) d = Some pool" "pool_id pool = readU64At (tx_payload tx) 0"
    and "pool_reserve_a pool \<noteq> 0" "\<And>tk. funds A I P tk d < 2 ^ 64"
  shows "\<exists>r d'. executeSwap tx ctx d = Some (r, d') \<and> (rcpt_status r = Success \<longrightarrow>
    (\<forall>tk. funds A I P tk d' = funds A I P tk d) \<and> readU64At (tx_payload tx) 8 \<le> swap_out tx pool \<and>
    (\<exists>p. getAmmPool (readU64At (tx_payload tx) 0) d' = Some p \<and>
      unat (pool_reserve_a pool) * unat (pool_reserve_b pool) \<le> unat (pool_reserve_a p) * unat (pool_reserve_b p)))"
proof -
  have wfp: "AmmPool_wf pool" using assms(7) by (rule getAmmPool_wf)
  have "executeSwap tx ctx d \<noteq> None"
  proof (cases "lacks (tx_from tx) (tx_token_id tx) (tx_amount tx) d
      \<or> tx_token_id tx \<noteq> pool_token_a pool \<and> tx_token_id tx \<noteq> pool_token_b pool")
    case True
    then show ?thesis by (auto simp: executeSwap_def Let_def assms(7))
  next
    case False
    then have side: "tx_token_id tx = pool_token_a pool \<or> tx_token_id tx = pool_token_b pool" by blast
    note sr = swap_room [OF wfp side]
    have "unat (tx_amount tx) \<le> bal (tx_from tx) (ucast (tx_token_id tx)) d"
      using False by (simp add: lacks_bal [OF sr(1)])
    then have "unat (swap_reserve_in tx pool) + unat (tx_amount tx) < 2 ^ 64"
      using held_le_funds [OF assms(2,3,4,6,7), of "ucast (tx_token_id tx)" I] assms(10) [of "ucast (tx_token_id tx)"] sr(4)
      by linarith
    then show ?thesis by (rule swap_step(1) [OF assms(7,9)])
  qed
  then obtain r d' where run: "executeSwap tx ctx d = Some (r, d')" by (cases "executeSwap tx ctx d") auto
  show ?thesis
  proof (cases "rcpt_status r = Success")
    case True
    note eff = swap_effect [OF assms(1-10) run True]
    have side: "tx_token_id tx = pool_token_a pool \<or> tx_token_id tx = pool_token_b pool"
      by (rule swap_needs_funds(2) [OF run True assms(7)])
    show ?thesis
      using run eff(1,2,4) swapped_pool_facts(4) [OF wfp assms(9) side eff(3)] by blast
  qed (use run in simp)
qed

lemma exchange_small: "funds sample_addrs {} {1} tk sample_exchange < 2 ^ 64"
  by (simp add: exchange_funds)

lemma exchange_has: "\<not> lacks (sample_addr 1) 0 1000 sample_exchange" "\<not> lacks (sample_addr 1) 7 40 sample_exchange"
  by (simp_all add: lacks_bal fits32_def exchange_bal)

theorem swap_conserves_witness:
  "\<exists>d'. executeSwap (sample_tx Tx_Swap 1 2 0 1000 (writeU64 1 @ writeU64 30)) sample_ctx sample_exchange
      = Some (success (sample_tx Tx_Swap 1 2 0 1000 (writeU64 1 @ writeU64 30)), d') \<and>
     funds sample_addrs {} {1} 7 d' = 9000"
proof -
  let ?tx = "sample_tx Tx_Swap 1 2 0 1000 (writeU64 1 @ writeU64 30)"
  obtain d' where run: "executeSwap ?tx sample_ctx sample_exchange = Some (success ?tx, d')"
    using exchange_has by (simp add: executeSwap_def Let_def exchange_pool) (simp add: sample_pool_def fee_factor_def)
  have "funds sample_addrs {} {1} 7 d' = funds sample_addrs {} {1} 7 sample_exchange"
    using swap_conserves [OF exchange_keys [of "{}"] finite_sample_addrs _ _ _ _ _ _ _ exchange_small,
        where pool = sample_pool and tx = ?tx and ctx = sample_ctx]
    by (simp add: run exchange_pool) (simp add: sample_pool_def)
  then show ?thesis using run by (simp add: exchange_funds)
qed



text \<open>
  C11. Removing liquidity is fair. The holder of a position whose liquidity is at most that of its pool always gets
  an answer, a successful withdrawal conserves every token, pays out at most the holder's part rounded down, so
  that the value of the remaining shares does not fall, and the withdrawal of the last share empties the pool and
  deletes it.
\<close>

theorem remove_liquidity_fair:
  assumes "keys_ok (ledger_keys A I) d" "finite A" "finite P" "tx_from tx \<in> A" "pos_pool_id pos \<in> P"
    and "getAmmPosition (readU64At (tx_payload tx) 0) d = Some pos"
    and "getAmmPool (pos_pool_id pos) d = Some pool" "pool_id pool = pos_pool_id pos"
    and "pos_liquidity pos \<le> pool_total_liquidity pool" "\<And>tk. funds A I P tk d < 2 ^ 64"
  shows "\<exists>r d'. executeRemoveLiquidity tx ctx d = Some (r, d') \<and> (rcpt_status r = Success \<longrightarrow>
    (\<forall>tk. funds A I P tk d' = funds A I P tk d) \<and>
    getAmmPool (pos_pool_id pos) d' = (if remove_amount tx pos = pool_total_liquidity pool then None
      else Some (removed_pool (remove_amount tx pos) pool)) \<and>
    share_grows pool (removed_pool (remove_amount tx pos) pool))"
proof -
  obtain r d' where run: "executeRemoveLiquidity tx ctx d = Some (r, d')"
    using remove_step(1) [OF assms(1,4,6,7,9), of ctx] by (cases "executeRemoveLiquidity tx ctx d") auto
  show ?thesis using run remove_effect [OF assms run] by blast
qed

definition sample_position :: amm_position where
  "sample_position = \<lparr>pos_id = 3, pos_owner = sample_addr 1, pos_pool_id = 1, pos_liquidity = 5000, pos_created_at_height = 2\<rparr>"

theorem remove_liquidity_fair_witness:
  "\<exists>d'. executeRemoveLiquidity (sample_tx Tx_RemoveLiquidity 1 1 0 0 (writeU64 3 @ writeU64 0)) sample_ctx
      (putAmmPosition sample_position sample_exchange)
      = Some (success (sample_tx Tx_RemoveLiquidity 1 1 0 0 (writeU64 3 @ writeU64 0)), d') \<and>
     getAmmPool 1 d' = Some (removed_pool 5000 sample_pool)"
proof -
  let ?tx = "sample_tx Tx_RemoveLiquidity 1 1 0 0 (writeU64 3 @ writeU64 0)"
  let ?d = "putAmmPosition sample_position sample_exchange"
  note keys = exchange_keys [of "{}"]
  have same: "same_funds sample_addrs {} ?d sample_exchange" using keys by simp
  have keys': "keys_ok (ledger_keys sample_addrs {}) ?d" using keys by simp
  have pos: "getAmmPosition (readU64At (tx_payload ?tx) 0) ?d = Some sample_position"
    using getAmmPosition_put [OF keys, of 3 sample_position]
    by (simp add: sample_position_def AmmPosition_wf_def AmmPosition_isValid_def INVALID_ID_def)
  have pool: "getAmmPool (pos_pool_id sample_position) ?d = Some sample_pool"
    using same exchange_pool [of 1] by (simp add: same_funds_def sample_position_def)
  have small: "funds sample_addrs {} {1} tk ?d < 2 ^ 64" for tk
    using same_funds_eq(1) [OF same, of "{1}" tk] exchange_small by simp
  obtain d' where run: "executeRemoveLiquidity ?tx sample_ctx ?d = Some (success ?tx, d')"
    using pos pool by (simp add: executeRemoveLiquidity_def Let_def) (simp add: sample_position_def sample_pool_def Let_def)
  have "getAmmPool 1 d' = Some (removed_pool 5000 sample_pool)"
    using remove_liquidity_fair [OF keys' finite_sample_addrs _ _ _ pos pool _ _ small, of sample_ctx]
    by (simp add: run) (simp add: sample_position_def sample_pool_def remove_amount_def)
  then show ?thesis using run by blast
qed

section \<open>Orders\<close>









end
