(* ===== verification/Consensus_Types.thy ===== *)
theory Consensus_Types
  imports Transactions State_Objects
begin

text \<open>
  The values the validators exchange (\<^verbatim>\<open>src/Consensus/Types.h/.cpp\<close>, \<^verbatim>\<open>src/Consensus/Message.cpp\<close>,
  \<^verbatim>\<open>src/Consensus/ProposerSelection.h\<close>): votes, timeout votes and timeout certificates, their wire
  format and the bytes that are signed. The digest is the parameter \<open>H\<close>, the signature check the
  parameter \<open>sig_ok\<close>. A check that reports an error string is the optional string: \<open>None\<close> when it passes.

  A \<^verbatim>\<open>Round\<close> has 32 bits. It is written as 64 bits and read back by truncation. The signing hash of a
  vote shifts it right by up to 56, which the language leaves undefined from 32 on: the shift is the
  parameter \<open>shr\<close>, and what may be assumed of it is \<open>shr_ok\<close>.
\<close>

type_synonym round' = u32
type_synonym index' = u16

definition INVALID_INDEX :: index' where "INVALID_INDEX = 0xFFFF"
definition EMERGENCY_ROTATION_ROUNDS :: u64 where "EMERGENCY_ROTATION_ROUNDS = 30"

datatype Step = NewHeight | Propose | Prevote | Precommit | Commit

section \<open>Votes\<close>

record vote =
  vote_height :: height
  vote_round :: round'
  vote_signer_index :: index'
  vote_signer_id :: id
  vote_is_nil :: bool
  vote_block_hash :: hash
  vote_signature :: bytes

definition Vote_isValid :: "vote \<Rightarrow> bool" where
  "Vote_isValid v = (vote_signer_id v \<noteq> INVALID_ID \<and> vote_signer_index v \<noteq> INVALID_INDEX
     \<and> \<not> isNull (vote_signature v))"

definition encodeVote :: "vote \<Rightarrow> bytes" where
  "encodeVote v = run_writer
     [wr_u64 (vote_height v),
      wr_u64 (ucast (vote_round v)),
      wr_u64 (vote_signer_id v),
      wr_u16 (vote_signer_index v),
      wr_u8 (if vote_is_nil v then 1 else 0),
      wr_bytes (vote_block_hash v) 32,
      wr_bytes (vote_signature v) 64]"

definition decodeVote :: "bytes \<Rightarrow> vote option" where
  "decodeVote data =
     (let r = Reader data;
          (height, r) = rd_u64 r;
          (round, r) = rd_u64 r;
          (signer_id, r) = rd_u64 r;
          (signer_index, r) = rd_u16 r;
          (nil, r) = rd_u8 r;
          (block_hash, r) = rd_bytes null32 32 r;
          (signature, r) = rd_bytes (replicate 64 0) 64 r
      in if rd_ok r
         then Some \<lparr>vote_height = height, vote_round = ucast round, vote_signer_index = signer_index,
                vote_signer_id = signer_id, vote_is_nil = (nil \<noteq> 0), vote_block_hash = block_hash,
                vote_signature = signature\<rparr>
         else None)"

record equivocation_evidence =
  ev_vote_a :: vote
  ev_vote_b :: vote
  ev_signer_id :: id

definition EquivocationEvidence_isValid :: "equivocation_evidence \<Rightarrow> bool" where
  "EquivocationEvidence_isValid e =
     (let a = ev_vote_a e; b = ev_vote_b e
      in if vote_height a \<noteq> vote_height b then False
         else if vote_round a \<noteq> vote_round b then False
         else if vote_signer_id a \<noteq> vote_signer_id b then False
         else if vote_signer_id a = INVALID_ID then False
         else if ev_signer_id e \<noteq> INVALID_ID \<and> ev_signer_id e \<noteq> vote_signer_id a then False
         else if vote_is_nil a = vote_is_nil b \<and> vote_block_hash a = vote_block_hash b then False
         else True)"

section \<open>Signed bytes\<close>

definition shr_ok :: "(u32 \<Rightarrow> nat \<Rightarrow> u32) \<Rightarrow> bool" where
  "shr_ok shr \<longleftrightarrow> (\<forall>x n. n < 32 \<longrightarrow> shr x n = drop_bit n x)"

definition round_bytes :: "(u32 \<Rightarrow> nat \<Rightarrow> u32) \<Rightarrow> round' \<Rightarrow> bytes" where
  "round_bytes shr round = map (\<lambda>i. ucast (shr round (i * 8))) [0..<8]"

definition proposalSigningHash ::
    "(u32 \<Rightarrow> nat \<Rightarrow> u32) \<Rightarrow> (bytes \<Rightarrow> hash) \<Rightarrow> height \<Rightarrow> round' \<Rightarrow> hash \<Rightarrow> hash" where
  "proposalSigningHash shr H height round block_hash =
     hashDomain H ''CLRTY_PROPOSAL_V1''
       (map (\<lambda>i. ucast (drop_bit (i * 8) height)) [0..<8] @ round_bytes shr round @ take 32 block_hash)"

definition voteSigningHash ::
    "(u32 \<Rightarrow> nat \<Rightarrow> u32) \<Rightarrow> (bytes \<Rightarrow> hash) \<Rightarrow> height \<Rightarrow> round' \<Rightarrow> bool \<Rightarrow> hash \<Rightarrow> hash" where
  "voteSigningHash shr H height round is_nil block_hash =
     hashDomain H ''CLRTY_VOTE_V1''
       (map (\<lambda>i. ucast (drop_bit (i * 8) height)) [0..<8] @ round_bytes shr round @
        [if is_nil then 1 else 0] @ take 32 block_hash)"

section \<open>Proposer\<close>

definition proposerIndex :: "height \<Rightarrow> round' \<Rightarrow> nat \<Rightarrow> nat" where
  "proposerIndex height round active_size =
     (if active_size = 0 then 0 else unat (height + ucast round) mod active_size)"

definition proposerFor :: "height \<Rightarrow> round' \<Rightarrow> id list \<Rightarrow> id" where
  "proposerFor height round active_set =
     (if active_set = [] then INVALID_ID
      else active_set ! proposerIndex height round (length active_set))"

section \<open>Timeout votes and certificates\<close>

record timeout_vote =
  tv_height :: height
  tv_round :: round'
  tv_signer_index :: index'
  tv_signer_id :: id
  tv_signature :: bytes

definition TIMEOUT_VOTE_WIRE_SIZE :: nat where "TIMEOUT_VOTE_WIRE_SIZE = 8 + 8 + 2 + 64"
definition MAX_CERT_VOTES :: nat where "MAX_CERT_VOTES = 4096"

definition timeoutVoteSigningHash :: "(bytes \<Rightarrow> hash) \<Rightarrow> height \<Rightarrow> round' \<Rightarrow> hash" where
  "timeoutVoteSigningHash H height round =
     H (wr_u64 (ucast round) (wr_u64 height (str ''CLRTY_TIMEOUT_VOTE_V1'')))"

definition encodeTimeoutVote :: "timeout_vote \<Rightarrow> bytes" where
  "encodeTimeoutVote tv = run_writer
     [wr_u64 (tv_height tv),
      wr_u64 (ucast (tv_round tv)),
      wr_u16 (tv_signer_index tv),
      wr_bytes (tv_signature tv) 64]"

text \<open>The body shared by \<^verbatim>\<open>decodeTimeoutVote\<close> and the certificate loop; the id is not on the wire.\<close>

definition read_timeout_vote :: "reader \<Rightarrow> timeout_vote \<times> reader" where
  "read_timeout_vote r =
     (let (height, r) = rd_u64 r;
          (round, r) = rd_u64 r;
          (signer_index, r) = rd_u16 r;
          (signature, r) = rd_bytes (replicate 64 0) 64 r
      in (\<lparr>tv_height = height, tv_round = ucast round, tv_signer_index = signer_index,
           tv_signer_id = INVALID_ID, tv_signature = signature\<rparr>, r))"

definition decodeTimeoutVote :: "bytes \<Rightarrow> timeout_vote option" where
  "decodeTimeoutVote data =
     (if length data \<noteq> TIMEOUT_VOTE_WIRE_SIZE then None
      else
        let (tv, r) = read_timeout_vote (Reader data)
        in if \<not> rd_ok r then None
           else if tv_signer_index tv = INVALID_INDEX then None
           else if rd_remaining r \<noteq> 0 then None
           else Some tv)"

type_synonym timeout_certificate = "timeout_vote list"

definition TimeoutCertificate_serialize :: "timeout_certificate \<Rightarrow> bytes" where
  "TimeoutCertificate_serialize votes =
     foldl (\<lambda>out tv. wr_bytes (tv_signature tv) 64 (wr_u16 (tv_signer_index tv)
              (wr_u64 (ucast (tv_round tv)) (wr_u64 (tv_height tv) out))))
       (wr_u32 (of_nat (length votes)) []) votes"

fun read_timeout_votes :: "nat \<Rightarrow> reader \<Rightarrow> (timeout_vote list \<times> reader) option" where
  "read_timeout_votes 0 r = Some ([], r)"
| "read_timeout_votes (Suc n) r =
     (if rd_remaining r < TIMEOUT_VOTE_WIRE_SIZE then None
      else
        let (tv, r) = read_timeout_vote r
        in if \<not> rd_ok r then None
           else if tv_signer_index tv = INVALID_INDEX then None
           else (case read_timeout_votes n r of
                   None \<Rightarrow> None
                 | Some (tvs, r) \<Rightarrow> Some (tv # tvs, r)))"

definition TimeoutCertificate_deserialize :: "bytes \<Rightarrow> timeout_certificate option" where
  "TimeoutCertificate_deserialize data =
     (let (count, r) = rd_u32 (Reader data)
      in if \<not> rd_ok r then None
         else if unat count > MAX_CERT_VOTES then None
         else (case read_timeout_votes (unat count) r of
                 None \<Rightarrow> None
               | Some (votes, r) \<Rightarrow>
                   if \<not> rd_ok r then None
                   else if rd_remaining r \<noteq> 0 then None
                   else Some votes))"

text \<open>
  The loop over the votes keeps the signers \<open>seen\<close> and the number \<open>counted\<close>, and stops once enough
  are counted.
\<close>

fun count_timeout_votes ::
    "(hash \<Rightarrow> pubkey \<Rightarrow> bytes \<Rightarrow> bool) \<Rightarrow> hash \<Rightarrow> id list \<Rightarrow> height \<Rightarrow> round' \<Rightarrow> (id \<Rightarrow> validator_info option) \<Rightarrow>
     nat \<Rightarrow> timeout_vote list \<Rightarrow> bool list \<Rightarrow> nat \<Rightarrow> string + nat" where
  "count_timeout_votes sig_ok signing_hash committed_set cert_height cert_round lookup required [] seen counted
     = Inr counted"
| "count_timeout_votes sig_ok signing_hash committed_set cert_height cert_round lookup required (tv # tvs) seen counted =
     (if tv_height tv \<noteq> cert_height then Inl ''timeout vote for wrong height''
      else if tv_round tv \<noteq> cert_round then Inl ''timeout vote for wrong round''
      else if ucast (tv_round tv) < EMERGENCY_ROTATION_ROUNDS then Inl ''timeout vote below threshold round''
      else if unat (tv_signer_index tv) \<ge> length committed_set then Inl ''timeout vote signer out of range''
      else if seen ! unat (tv_signer_index tv) then Inl ''duplicate timeout vote from same signer''
      else
        let seen = seen[unat (tv_signer_index tv) := True]
        in (case lookup (committed_set ! unat (tv_signer_index tv)) of
              None \<Rightarrow> Inl ''timeout vote from unknown validator''
            | Some v \<Rightarrow>
                if \<not> sig_ok signing_hash (effectiveConsensusKey v) (tv_signature tv)
                then Inl ''invalid timeout vote signature''
                else if counted + 1 \<ge> required then Inr (counted + 1)
                else count_timeout_votes sig_ok signing_hash committed_set cert_height cert_round lookup
                       required tvs seen (counted + 1)))"

definition verifyTimeoutCertificate ::
    "(hash \<Rightarrow> pubkey \<Rightarrow> bytes \<Rightarrow> bool) \<Rightarrow> (bytes \<Rightarrow> hash) \<Rightarrow> timeout_certificate \<Rightarrow> id list \<Rightarrow> height \<Rightarrow> round' \<Rightarrow>
     (id \<Rightarrow> validator_info option) \<Rightarrow> string option" where
  "verifyTimeoutCertificate sig_ok H cert committed_set cert_height cert_round lookup =
     (if length committed_set < 4 then Some ''committed set too small for emergency rotation''
      else
        let f = (length committed_set - 1) div 3;
            required = f + 1
        in if ucast cert_round < EMERGENCY_ROTATION_ROUNDS then Some ''emergency_rotation below threshold''
           else if length cert < required then Some ''timeout certificate has too few attestations''
           else (case count_timeout_votes sig_ok (timeoutVoteSigningHash H cert_height cert_round)
                        committed_set cert_height cert_round lookup required cert
                        (replicate (length committed_set) False) 0 of
                   Inl e \<Rightarrow> Some e
                 | Inr counted \<Rightarrow> if counted < required then Some ''timeout certificate below f+1'' else None))"

section \<open>Equivocation proofs\<close>

text \<open>\<^verbatim>\<open>src/Core/EquivocationProof.cpp\<close>; here the round has 64 bits when it is hashed.\<close>

definition VOTE_WIRE_SIZE :: nat where
  "VOTE_WIRE_SIZE = length (encodeVote \<lparr>vote_height = 0, vote_round = 0, vote_signer_index = INVALID_INDEX,
     vote_signer_id = INVALID_ID, vote_is_nil = False, vote_block_hash = null32,
     vote_signature = replicate 64 0\<rparr>)"

definition localVoteSigningHash :: "(bytes \<Rightarrow> hash) \<Rightarrow> u64 \<Rightarrow> u64 \<Rightarrow> bool \<Rightarrow> hash \<Rightarrow> hash" where
  "localVoteSigningHash H height round is_nil block_hash =
     (let buf = str ''CLRTY_VOTE_V1'';
          buf = foldl (\<lambda>buf i. buf @ [ucast (drop_bit (i * 8) height)]) buf [0..<8];
          buf = foldl (\<lambda>buf i. buf @ [ucast (drop_bit (i * 8) round)]) buf [0..<8];
          buf = buf @ [if is_nil then 1 else 0];
          buf = buf @ block_hash
      in H buf)"

definition voteSigningHashForCore :: "(bytes \<Rightarrow> hash) \<Rightarrow> u64 \<Rightarrow> u64 \<Rightarrow> bool \<Rightarrow> hash \<Rightarrow> hash" where
  "voteSigningHashForCore H height round is_nil block_hash = localVoteSigningHash H height round is_nil block_hash"

definition encodeSlashPayload :: "bytes \<Rightarrow> bytes \<Rightarrow> bytes" where
  "encodeSlashPayload vote_a_bytes vote_b_bytes = vote_a_bytes @ vote_b_bytes"

definition verifyEquivocationProof ::
    "(hash \<Rightarrow> pubkey \<Rightarrow> bytes \<Rightarrow> bool) \<Rightarrow> bytes \<Rightarrow> id list \<Rightarrow> db \<Rightarrow> id option" where
  "verifyEquivocationProof sig_ok payload active_set d =
     (if length payload \<noteq> 2 * VOTE_WIRE_SIZE then None
      else (case decodeVote (take VOTE_WIRE_SIZE payload) of
        None \<Rightarrow> None
      | Some va \<Rightarrow> (case decodeVote (take VOTE_WIRE_SIZE (drop VOTE_WIRE_SIZE payload)) of
        None \<Rightarrow> None
      | Some vb \<Rightarrow>
        if vote_height va \<noteq> vote_height vb then None
        else if vote_round va \<noteq> vote_round vb then None
        else if vote_signer_id va = INVALID_ID \<or> vote_signer_id vb = INVALID_ID then None
        else if vote_signer_id va \<noteq> vote_signer_id vb then None
        else if vote_signer_index va \<noteq> INVALID_INDEX \<and> vote_signer_index vb \<noteq> INVALID_INDEX
                \<and> vote_signer_index va \<noteq> vote_signer_index vb then None
        else
          let same_block = (vote_block_hash va = vote_block_hash vb);
              same_nil = (vote_is_nil va = vote_is_nil vb)
          in if same_block \<and> same_nil then None
             else
               let validator_id = vote_signer_id va
               in (case getValidator validator_id d of
                     None \<Rightarrow> None
                   | Some v \<Rightarrow>
                     if active_set \<noteq> [] \<and> validator_id \<notin> set active_set then None
                     else (case validatorKeyAtHeight validator_id (vote_height va) d of
                       None \<Rightarrow> None
                     | Some key \<Rightarrow>
                       if \<not> sig_ok (localVoteSigningHash (db_hash d) (vote_height va) (ucast (vote_round va))
                               (vote_is_nil va) (vote_block_hash va)) key (vote_signature va) then None
                       else if \<not> sig_ok (localVoteSigningHash (db_hash d) (vote_height vb) (ucast (vote_round vb))
                               (vote_is_nil vb) (vote_block_hash vb)) key (vote_signature vb) then None
                       else Some validator_id)))))"

definition decodeSlashEvidence :: "bytes \<Rightarrow> equivocation_evidence option" where
  "decodeSlashEvidence payload =
     (if length payload \<noteq> 2 * VOTE_WIRE_SIZE then None
      else (case decodeVote (take VOTE_WIRE_SIZE payload) of
        None \<Rightarrow> None
      | Some vote_a \<Rightarrow> (case decodeVote (take VOTE_WIRE_SIZE (drop VOTE_WIRE_SIZE payload)) of
        None \<Rightarrow> None
      | Some vote_b \<Rightarrow> Some \<lparr>ev_vote_a = vote_a, ev_vote_b = vote_b, ev_signer_id = vote_signer_id vote_a\<rparr>)))"

end
