(* ===== verification/Blocks.thy ===== *)
theory Blocks
  imports Consensus_Types
begin

text \<open>
  Blocks (\<^verbatim>\<open>src/Core/Block.h/.cpp\<close>): the header and its two serializations, the block and its wire
  format, the Merkle root and the commitments to transactions, validator set and timeout certificate;
  and the proposal message that carries a block (\<^verbatim>\<open>src/Consensus/Message.cpp\<close>). The digest is the
  parameter \<open>H\<close>.
\<close>

section \<open>Types\<close>

definition CURRENT_BLOCK_VERSION :: u16 where "CURRENT_BLOCK_VERSION = 1"
definition MAX_HEADER_BYTES :: nat where "MAX_HEADER_BYTES = 8 * 1024"
definition MAX_CERT_BYTES :: nat where "MAX_CERT_BYTES = 32 * 1024"

record block_header =
  hdr_version :: u16
  hdr_chain_id :: u64
  hdr_height :: u64
  hdr_parent_hash :: hash
  hdr_timestamp_ms :: u64
  hdr_proposer :: address
  hdr_epoch :: u64
  hdr_rotation_index :: u64
  hdr_commit_round :: u64
  hdr_emergency_rotation :: u64
  hdr_timeout_certificate :: timeout_certificate
  hdr_timeout_certificate_hash :: hash
  hdr_state_root :: hash
  hdr_tx_root :: hash
  hdr_receipts_root :: hash
  hdr_epoch_fills_root :: hash
  hdr_validator_set_root :: hash
  hdr_total_fees :: u64
  hdr_tx_count :: u32
  hdr_active_validator_count :: u32

record validator_signature =
  vs_signer_index :: index'
  vs_signature :: bytes

record block =
  blk_header :: block_header
  blk_transactions :: "transaction list"
  blk_quorum_signatures :: "validator_signature list"
  blk_participants :: "id list"

section \<open>Hashing\<close>

definition hashWithDomain :: "(bytes \<Rightarrow> hash) \<Rightarrow> string \<Rightarrow> bytes \<Rightarrow> hash" where
  "hashWithDomain H domain body = H (str domain @ body)"

definition computeTimeoutCertificateHash :: "(bytes \<Rightarrow> hash) \<Rightarrow> timeout_certificate \<Rightarrow> hash" where
  "computeTimeoutCertificateHash H cert =
     (if cert = [] then null32
      else hashWithDomain H ''CLRTY_TIMEOUTCERT_V1'' (TimeoutCertificate_serialize cert))"

definition BlockHeader_isWellFormed :: "block_header \<Rightarrow> bool" where
  "BlockHeader_isWellFormed h =
     (if hdr_version h \<noteq> CURRENT_BLOCK_VERSION then False
      else if hdr_chain_id h = 0 then False
      else if hdr_height h > 0 \<and> isNull (hdr_proposer h) then False
      else if hdr_active_validator_count h = 0 then False
      else if hdr_tx_count h > 5000 then False
      else if hdr_height h > 0 \<and> isNull (hdr_parent_hash h) then False
      else if hdr_height h > 0 \<and> isNull (hdr_state_root h) then False
      else if hdr_emergency_rotation h > 0
      then (if hdr_timeout_certificate h = [] then False
            else if isNull (hdr_timeout_certificate_hash h) then False else True)
      else (if hdr_timeout_certificate h \<noteq> [] then False
            else if \<not> isNull (hdr_timeout_certificate_hash h) then False else True))"

definition BlockHeader_serializeForHash :: "block_header \<Rightarrow> bytes" where
  "BlockHeader_serializeForHash h = run_writer
     [wr_u16 (hdr_version h),
      wr_u64 (hdr_chain_id h),
      wr_u64 (hdr_height h),
      wr_bytes (hdr_parent_hash h) 32,
      wr_u64 (hdr_timestamp_ms h),
      wr_bytes (hdr_proposer h) 32,
      wr_u64 (hdr_epoch h),
      wr_u64 (hdr_rotation_index h),
      wr_u64 (hdr_emergency_rotation h),
      wr_bytes (hdr_state_root h) 32,
      wr_bytes (hdr_tx_root h) 32,
      wr_bytes (hdr_receipts_root h) 32,
      wr_bytes (hdr_epoch_fills_root h) 32,
      wr_bytes (hdr_validator_set_root h) 32,
      wr_u64 (hdr_total_fees h),
      wr_u32 (hdr_tx_count h),
      wr_u32 (hdr_active_validator_count h),
      wr_bytes (hdr_timeout_certificate_hash h) 32]"

definition BlockHeader_hash :: "(bytes \<Rightarrow> hash) \<Rightarrow> block_header \<Rightarrow> hash" where
  "BlockHeader_hash H h = hashWithDomain H ''CLRTY_BLOCKHDR_V1'' (BlockHeader_serializeForHash h)"

definition Block_hash :: "(bytes \<Rightarrow> hash) \<Rightarrow> block \<Rightarrow> hash" where
  "Block_hash H b = BlockHeader_hash H (blk_header b)"

section \<open>Header wire format\<close>

definition BlockHeader_serialize :: "block_header \<Rightarrow> bytes" where
  "BlockHeader_serialize h = run_writer
     [wr_u16 (hdr_version h),
      wr_u64 (hdr_chain_id h),
      wr_u64 (hdr_height h),
      wr_bytes (hdr_parent_hash h) 32,
      wr_u64 (hdr_timestamp_ms h),
      wr_bytes (hdr_proposer h) 32,
      wr_u64 (hdr_epoch h),
      wr_u64 (hdr_rotation_index h),
      wr_u64 (hdr_commit_round h),
      wr_u64 (hdr_emergency_rotation h),
      wr_bytes (hdr_state_root h) 32,
      wr_bytes (hdr_tx_root h) 32,
      wr_bytes (hdr_receipts_root h) 32,
      wr_bytes (hdr_epoch_fills_root h) 32,
      wr_bytes (hdr_validator_set_root h) 32,
      wr_u64 (hdr_total_fees h),
      wr_u32 (hdr_tx_count h),
      wr_u32 (hdr_active_validator_count h),
      wr_bytes (hdr_timeout_certificate_hash h) 32,
      wr_u32 (of_nat (length (TimeoutCertificate_serialize (hdr_timeout_certificate h)))),
      wr_bytes (TimeoutCertificate_serialize (hdr_timeout_certificate h))
        (length (TimeoutCertificate_serialize (hdr_timeout_certificate h)))]"

definition BlockHeader_deserialize :: "bytes \<Rightarrow> block_header option" where
  "BlockHeader_deserialize data =
     (let r = Reader data;
          (version, r) = rd_u16 r;
          (chain_id, r) = rd_u64 r;
          (height, r) = rd_u64 r;
          (parent_hash, r) = rd_bytes null32 32 r;
          (timestamp_ms, r) = rd_u64 r;
          (proposer, r) = rd_bytes null32 32 r;
          (epoch, r) = rd_u64 r;
          (rotation_index, r) = rd_u64 r;
          (commit_round, r) = rd_u64 r;
          (emergency_rotation, r) = rd_u64 r;
          (state_root, r) = rd_bytes null32 32 r;
          (tx_root, r) = rd_bytes null32 32 r;
          (receipts_root, r) = rd_bytes null32 32 r;
          (epoch_fills_root, r) = rd_bytes null32 32 r;
          (validator_set_root, r) = rd_bytes null32 32 r;
          (total_fees, r) = rd_u64 r;
          (tx_count, r) = rd_u32 r;
          (active_validator_count, r) = rd_u32 r
      in if \<not> rd_ok r then None
         else
           let (certificate_hash, r) = rd_bytes null32 32 r
           in if \<not> rd_ok r then None
              else
                let (cert_len, r) = rd_u32 r
                in if \<not> rd_ok r \<or> unat cert_len > MAX_CERT_BYTES then None
                   else if rd_remaining r < unat cert_len then None
                   else
                     let (cert_bytes, r) = rd_vector (unat cert_len) r
                     in if \<not> rd_ok r then None
                        else (case TimeoutCertificate_deserialize cert_bytes of
                          None \<Rightarrow> None
                        | Some certificate \<Rightarrow>
                          if rd_remaining r \<noteq> 0 then None
                          else Some \<lparr>hdr_version = version, hdr_chain_id = chain_id, hdr_height = height,
                            hdr_parent_hash = parent_hash, hdr_timestamp_ms = timestamp_ms,
                            hdr_proposer = proposer, hdr_epoch = epoch, hdr_rotation_index = rotation_index,
                            hdr_commit_round = commit_round, hdr_emergency_rotation = emergency_rotation,
                            hdr_timeout_certificate = certificate,
                            hdr_timeout_certificate_hash = certificate_hash, hdr_state_root = state_root,
                            hdr_tx_root = tx_root, hdr_receipts_root = receipts_root,
                            hdr_epoch_fills_root = epoch_fills_root,
                            hdr_validator_set_root = validator_set_root, hdr_total_fees = total_fees,
                            hdr_tx_count = tx_count, hdr_active_validator_count = active_validator_count\<rparr>))"

section \<open>Block wire format\<close>

definition Block_isWellFormed :: "block \<Rightarrow> bool" where
  "Block_isWellFormed b =
     (if \<not> BlockHeader_isWellFormed (blk_header b) then False
      else if length (blk_transactions b) \<noteq> unat (hdr_tx_count (blk_header b)) then False
      else if \<not> list_all Transaction_isWellFormed (blk_transactions b) then False
      else if hdr_height (blk_header b) > 0
              \<and> length (blk_quorum_signatures b) < unat (bftQuorum (ucast (hdr_active_validator_count (blk_header b))))
      then False
      else True)"

definition wr_sized :: "bytes \<Rightarrow> bytes \<Rightarrow> bytes" where
  "wr_sized p out = wr_bytes p (length p) (wr_u32 (of_nat (length p)) out)"

definition wr_signature :: "validator_signature \<Rightarrow> bytes \<Rightarrow> bytes" where
  "wr_signature s out = wr_bytes (vs_signature s) 64 (wr_u16 (vs_signer_index s) out)"

definition Block_serialize :: "block \<Rightarrow> bytes" where
  "Block_serialize b =
     (let out = wr_sized (BlockHeader_serialize (blk_header b)) [];
          out = wr_u32 (of_nat (length (blk_transactions b))) out;
          out = foldl (\<lambda>out tx. wr_sized (Transaction_serialize tx) out) out (blk_transactions b);
          out = wr_u32 (of_nat (length (blk_quorum_signatures b))) out;
          out = foldl (\<lambda>out s. wr_signature s out) out (blk_quorum_signatures b);
          out = wr_u32 (of_nat (length (blk_participants b))) out
      in foldl (\<lambda>out vid. wr_u64 vid out) out (blk_participants b))"

fun read_transactions :: "nat \<Rightarrow> reader \<Rightarrow> (transaction list \<times> reader) option" where
  "read_transactions 0 r = Some ([], r)"
| "read_transactions (Suc n) r =
     (let (tx_size, r) = rd_u32 r
      in if unat tx_size > 1000000 \<or> \<not> rd_ok r then None
         else
           let (txbytes, r) = rd_bytes (replicate (unat tx_size) 0) (unat tx_size) r
           in if \<not> rd_ok r then None
              else (case Transaction_deserialize txbytes of
                None \<Rightarrow> None
              | Some tx \<Rightarrow> (case read_transactions n r of
                None \<Rightarrow> None
              | Some (txs, r) \<Rightarrow> Some (tx # txs, r))))"

fun read_signatures :: "nat \<Rightarrow> reader \<Rightarrow> (validator_signature list \<times> reader) option" where
  "read_signatures 0 r = Some ([], r)"
| "read_signatures (Suc n) r =
     (let (signer_index, r) = rd_u16 r;
          (signature, r) = rd_bytes (replicate 64 0) 64 r
      in if \<not> rd_ok r then None
         else (case read_signatures n r of
                 None \<Rightarrow> None
               | Some (ss, r) \<Rightarrow> Some (\<lparr>vs_signer_index = signer_index, vs_signature = signature\<rparr> # ss, r)))"

fun read_participants :: "nat \<Rightarrow> reader \<Rightarrow> (id list \<times> reader) option" where
  "read_participants 0 r = Some ([], r)"
| "read_participants (Suc n) r =
     (let (vid, r) = rd_u64 r
      in if \<not> rd_ok r then None
         else (case read_participants n r of
                 None \<Rightarrow> None
               | Some (vids, r) \<Rightarrow> Some (vid # vids, r)))"

definition Block_deserialize :: "bytes \<Rightarrow> block option" where
  "Block_deserialize data =
     (let (hdr_size, r) = rd_u32 (Reader data)
      in if unat hdr_size > MAX_HEADER_BYTES \<or> \<not> rd_ok r then None
         else
           let (hdr, r) = rd_bytes (replicate (unat hdr_size) 0) (unat hdr_size) r
           in if \<not> rd_ok r then None
              else (case BlockHeader_deserialize hdr of
                None \<Rightarrow> None
              | Some header \<Rightarrow>
                let (tx_count, r) = rd_u32 r
                in if unat tx_count > 100000 \<or> \<not> rd_ok r then None
                   else (case read_transactions (unat tx_count) r of
                     None \<Rightarrow> None
                   | Some (txs, r) \<Rightarrow>
                     let (sig_count, r) = rd_u32 r
                     in if unat sig_count > 10000 \<or> \<not> rd_ok r then None
                        else (case read_signatures (unat sig_count) r of
                          None \<Rightarrow> None
                        | Some (sigs, r) \<Rightarrow>
                          let (part_count, r) = rd_u32 r
                          in if unat part_count > 10000 \<or> \<not> rd_ok r then None
                             else (case read_participants (unat part_count) r of
                               None \<Rightarrow> None
                             | Some (parts, r) \<Rightarrow>
                               if rd_remaining r \<noteq> 0 then None
                               else Some \<lparr>blk_header = header, blk_transactions = txs,
                                      blk_quorum_signatures = sigs, blk_participants = parts\<rparr>)))))"

definition Block_serializedSize :: "block \<Rightarrow> nat" where
  "Block_serializedSize b =
     4 + length (BlockHeader_serialize (blk_header b)) + 4
     + sum_list (map (\<lambda>tx. 4 + length (Transaction_serialize tx)) (blk_transactions b)) + 4
     + sum_list (map (\<lambda>s. 2 + length (vs_signature s)) (blk_quorum_signatures b))
     + (4 + length (blk_participants b) * 8)"

section \<open>Merkle roots\<close>

definition merkle_parent :: "(bytes \<Rightarrow> hash) \<Rightarrow> hash \<Rightarrow> hash \<Rightarrow> hash" where
  "merkle_parent H a b = H (str ''CLRTY_MERKLE_V1'' @ a @ b)"

fun merkle_pairs :: "(bytes \<Rightarrow> hash) \<Rightarrow> hash list \<Rightarrow> hash list" where
  "merkle_pairs H (a # b # rest) = merkle_parent H a b # merkle_pairs H rest"
| "merkle_pairs H _ = []"

text \<open>One pass of the loop: the last hash of an odd level is appended once more.\<close>

definition merkle_level :: "(bytes \<Rightarrow> hash) \<Rightarrow> hash list \<Rightarrow> hash list" where
  "merkle_level H level =
     merkle_pairs H (if length level mod 2 = 1 then level @ [last level] else level)"

lemma length_merkle_pairs: "length (merkle_pairs H xs) = length xs div 2"
  by (induction H xs rule: merkle_pairs.induct) auto

lemma length_merkle_level: "length (merkle_level H xs) = (length xs + 1) div 2"
  unfolding merkle_level_def length_merkle_pairs by (simp; presburger)

function merkle_loop :: "(bytes \<Rightarrow> hash) \<Rightarrow> hash list \<Rightarrow> hash list" where
  "merkle_loop H level = (if length level > 1 then merkle_loop H (merkle_level H level) else level)"
  by pat_completeness auto
termination
  by (relation "measure (\<lambda>(H, level). length level)") (auto simp: length_merkle_level)

declare merkle_loop.simps [simp del]

definition computeMerkleRoot :: "(bytes \<Rightarrow> hash) \<Rightarrow> hash list \<Rightarrow> hash" where
  "computeMerkleRoot H leaves = (if leaves = [] then null32 else hd (merkle_loop H leaves))"

definition computeTxRoot :: "(bytes \<Rightarrow> hash) \<Rightarrow> transaction list \<Rightarrow> hash" where
  "computeTxRoot H txs =
     computeMerkleRoot H (map (\<lambda>tx. H (str ''CLRTY_TXLEAF_V1'' @ Transaction_txid H tx)) txs)"

definition computeValidatorSetRoot :: "(bytes \<Rightarrow> hash) \<Rightarrow> id list \<Rightarrow> hash" where
  "computeValidatorSetRoot H active_set =
     computeMerkleRoot H (map (\<lambda>vid. H (str ''CLRTY_VALSETLEAF_V1'' @
       map (\<lambda>i. ucast (drop_bit (i * 8) vid)) [0..<8])) (sort active_set))"

section \<open>Proposals\<close>

record proposal =
  prop_height :: height
  prop_round :: round'
  prop_signer_id :: id
  prop_signer_index :: index'
  prop_block_hash :: hash
  prop_block_bytes :: bytes
  prop_signature :: bytes

definition MAX_BLOCK_BYTES_WIRE :: nat where "MAX_BLOCK_BYTES_WIRE = 8 * 1024 * 1024"

definition Proposal_isValid :: "proposal \<Rightarrow> bool" where
  "Proposal_isValid p = (prop_signer_id p \<noteq> INVALID_ID \<and> prop_signer_index p \<noteq> INVALID_INDEX
     \<and> \<not> isNull (prop_signature p) \<and> \<not> isNull (prop_block_hash p) \<and> prop_block_bytes p \<noteq> [])"

definition encodeProposal :: "proposal \<Rightarrow> bytes" where
  "encodeProposal p = run_writer
     [wr_u64 (prop_height p),
      wr_u64 (ucast (prop_round p)),
      wr_u64 (prop_signer_id p),
      wr_u16 (prop_signer_index p),
      wr_u32 (of_nat (length (prop_block_bytes p))),
      wr_bytes (prop_block_bytes p) (length (prop_block_bytes p)),
      wr_bytes (prop_signature p) 64]"

definition decodeProposal :: "(bytes \<Rightarrow> hash) \<Rightarrow> bytes \<Rightarrow> proposal option" where
  "decodeProposal H data =
     (let r = Reader data;
          (height, r) = rd_u64 r;
          (round, r) = rd_u64 r;
          (signer_id, r) = rd_u64 r;
          (signer_index, r) = rd_u16 r;
          (bs, r) = rd_u32 r
      in if \<not> rd_ok r \<or> unat bs > MAX_BLOCK_BYTES_WIRE then None
         else if rd_remaining r < unat bs + 64 then None
         else
           let (block_bytes, r) = rd_vector (unat bs) r;
               (signature, r) = rd_bytes (replicate 64 0) 64 r
           in if \<not> rd_ok r then None
              else Some \<lparr>prop_height = height, prop_round = ucast round, prop_signer_id = signer_id,
                     prop_signer_index = signer_index,
                     prop_block_hash = (case Block_deserialize block_bytes of
                       Some b \<Rightarrow> Block_hash H b | None \<Rightarrow> null32),
                     prop_block_bytes = block_bytes, prop_signature = signature\<rparr>)"

end
