(* ===== verification/Rotation.thy ===== *)
theory Rotation
  imports State_Objects "HOL-Library.Multiset"
begin

text \<open>
  The rotation of the active validator set (\<^verbatim>\<open>src/Core/ValidatorRotation.h/.cpp\<close>): how many validators
  an epoch replaces, which ones leave and enter, the removal of validators that are offline, and the
  replacement set of an emergency. Pointers returned by \<^verbatim>\<open>registry.find\<close> are the records they point at,
  and a write through one is an update of the first record with that id.

  \<^verbatim>\<open>std::sort\<close> leaves the order of equivalent elements open. It is the parameter \<open>srt\<close>, a sort of
  positions under a comparison, and what the language promises of it is \<open>sort_ok\<close>.
\<close>

section \<open>Sorting\<close>

definition sort_ok :: "((nat \<Rightarrow> nat \<Rightarrow> bool) \<Rightarrow> nat list \<Rightarrow> nat list) \<Rightarrow> bool" where
  "sort_ok srt \<longleftrightarrow> (\<forall>lt xs. (\<forall>i j. lt i j \<longrightarrow> \<not> lt j i) \<longrightarrow> (\<forall>i j k. \<not> lt i j \<longrightarrow> \<not> lt j k \<longrightarrow> \<not> lt i k) \<longrightarrow>
     mset (srt lt xs) = mset xs \<and> sorted_wrt (\<lambda>i j. \<not> lt j i) (srt lt xs))"

definition std_sort ::
    "((nat \<Rightarrow> nat \<Rightarrow> bool) \<Rightarrow> nat list \<Rightarrow> nat list) \<Rightarrow> ('a \<Rightarrow> 'a \<Rightarrow> bool) \<Rightarrow> 'a list \<Rightarrow> 'a list" where
  "std_sort srt lt xs = map (\<lambda>i. xs ! i) (srt (\<lambda>i j. lt (xs ! i) (xs ! j)) [0..<length xs])"

section \<open>Sizes\<close>

definition TARGET_ROTATION_EPOCHS :: u64 where "TARGET_ROTATION_EPOCHS = 21"
definition UPTIME_EMA_ALPHA_BPS :: u16 where "UPTIME_EMA_ALPHA_BPS = 2000"
definition SEED_NODES_COUNT :: u64 where "SEED_NODES_COUNT = 2"

definition computeRotationCount :: "u64 \<Rightarrow> u64" where
  "computeRotationCount active_set_size =
     (if active_set_size = 0 then 0
      else
        let count = (active_set_size + TARGET_ROTATION_EPOCHS - 1) div TARGET_ROTATION_EPOCHS;
            quorum = bftQuorum active_set_size
        in if quorum \<ge> active_set_size then 0
           else
             let max_rotate = active_set_size - quorum
             in if count > max_rotate then max_rotate else count)"

definition computeTargetActiveSetSize :: "u64 \<Rightarrow> u64" where
  "computeTargetActiveSetSize avg_tx_per_block =
     (if avg_tx_per_block \<ge> TRAFFIC_SATURATION_TX then ACTIVE_SET_MAX
      else
        let range = ACTIVE_SET_MAX - ACTIVE_SET_MIN;
            scaled = (avg_tx_per_block * range) div TRAFFIC_SATURATION_TX;
            target = ACTIVE_SET_MIN + scaled
        in if target < ACTIVE_SET_MIN then ACTIVE_SET_MIN
           else if ACTIVE_SET_MAX < target then ACTIVE_SET_MAX else target)"

section \<open>Planning\<close>

record rotation_plan =
  plan_to_remove :: "id list"
  plan_to_add :: "id list"
  plan_new_target_size :: u64

definition removalOrder :: "validator_info \<Rightarrow> validator_info \<Rightarrow> bool" where
  "removalOrder a b =
     (if val_uptime_score a \<noteq> val_uptime_score b then val_uptime_score a < val_uptime_score b
      else val_became_active_at a < val_became_active_at b)"

definition additionOrder :: "validator_info \<Rightarrow> validator_info \<Rightarrow> bool" where
  "additionOrder a b =
     (if val_uptime_score a \<noteq> val_uptime_score b then val_uptime_score a > val_uptime_score b
      else val_last_active_at a < val_last_active_at b)"

definition removable :: "validator_registry \<Rightarrow> validator_info list" where
  "removable registry = filter (\<lambda>v. \<not> val_is_seed v)
     (List.map_filter (ValidatorRegistry_find registry) (reg_active_set registry))"

definition addable :: "validator_registry \<Rightarrow> validator_info list" where
  "addable registry = filter (\<lambda>v. val_id v \<noteq> INVALID_ID \<and> \<not> val_is_active v \<and> canBeActive v)
     (reg_validators registry)"

definition planRotation ::
    "((nat \<Rightarrow> nat \<Rightarrow> bool) \<Rightarrow> nat list \<Rightarrow> nat list) \<Rightarrow> validator_registry \<Rightarrow> u64 \<Rightarrow> rotation_plan" where
  "planRotation srt registry avg_tx_per_block =
     (let target_size = computeTargetActiveSetSize avg_tx_per_block;
          target_size = (if target_size < SEED_NODES_COUNT then SEED_NODES_COUNT else target_size);
          plan = \<lparr>plan_to_remove = [], plan_to_add = [], plan_new_target_size = target_size\<rparr>;
          current_size = (of_nat (length (reg_active_set registry)) :: u64)
      in if target_size < current_size
         then
           let to_remove_count = current_size - target_size;
               candidates = std_sort srt removalOrder (removable registry)
           in plan\<lparr>plan_to_remove := map val_id (take (unat to_remove_count) candidates)\<rparr>
         else if target_size > current_size
         then
           let to_add_count = target_size - current_size;
               candidates = std_sort srt additionOrder (addable registry)
           in plan\<lparr>plan_to_add := map val_id (take (unat to_add_count) candidates)\<rparr>
         else
           let rotate = computeRotationCount current_size;
               to_remove = map val_id (take (unat rotate) (std_sort srt removalOrder (removable registry)));
               to_add = map val_id (take (length to_remove) (std_sort srt additionOrder (addable registry)))
           in plan\<lparr>plan_to_remove := to_remove, plan_to_add := to_add\<rparr>)"

section \<open>Application\<close>

fun update_validator :: "id \<Rightarrow> (validator_info \<Rightarrow> validator_info) \<Rightarrow> validator_info list \<Rightarrow> validator_info list" where
  "update_validator vid f [] = []"
| "update_validator vid f (v # vs) = (if val_id v = vid then f v # vs else v # update_validator vid f vs)"

definition deactivate :: "u64 \<Rightarrow> validator_registry \<Rightarrow> id \<Rightarrow> validator_registry" where
  "deactivate current_height registry vid =
     (case ValidatorRegistry_find registry vid of
        None \<Rightarrow> registry
      | Some _ \<Rightarrow> registry\<lparr>reg_validators := update_validator vid
          (\<lambda>v. v\<lparr>val_is_active := False, val_last_active_at := current_height\<rparr>) (reg_validators registry)\<rparr>)"

definition activate :: "u64 \<Rightarrow> validator_registry \<Rightarrow> id \<Rightarrow> validator_registry" where
  "activate current_height registry vid =
     (case ValidatorRegistry_find registry vid of
        None \<Rightarrow> registry
      | Some _ \<Rightarrow> registry\<lparr>reg_validators := update_validator vid
          (\<lambda>v. v\<lparr>val_is_active := True, val_became_active_at := current_height\<rparr>) (reg_validators registry),
          reg_active_set := reg_active_set registry @ [vid]\<rparr>)"

text \<open>The body shared by \<^verbatim>\<open>applyRotation\<close> and \<^verbatim>\<open>applyOfflineRemoval\<close>.\<close>

definition swap_active :: "id list \<Rightarrow> id list \<Rightarrow> u64 \<Rightarrow> validator_registry \<Rightarrow> validator_registry" where
  "swap_active removed added current_height registry =
     (let registry = registry\<lparr>reg_active_set := filter (\<lambda>i. i \<notin> set removed) (reg_active_set registry)\<rparr>;
          registry = foldl (deactivate current_height) registry removed;
          registry = foldl (activate current_height) registry added
      in registry\<lparr>reg_active_set := sort (reg_active_set registry)\<rparr>)"

definition applyRotation :: "validator_registry \<Rightarrow> rotation_plan \<Rightarrow> u64 \<Rightarrow> validator_registry" where
  "applyRotation registry plan current_height =
     (swap_active (plan_to_remove plan) (plan_to_add plan) current_height registry)
       \<lparr>reg_last_rotation_height := current_height, reg_target_size := plan_new_target_size plan\<rparr>"

section \<open>Offline validators\<close>

record offline_check_result =
  off_removed :: "id list"
  off_promoted :: "id list"

definition planOfflineRemoval ::
    "((nat \<Rightarrow> nat \<Rightarrow> bool) \<Rightarrow> nat list \<Rightarrow> nat list) \<Rightarrow> validator_registry \<Rightarrow> u64 \<Rightarrow> offline_check_result" where
  "planOfflineRemoval srt registry current_height =
     (let removed = filter (\<lambda>vid. case ValidatorRegistry_find registry vid of
            None \<Rightarrow> False
          | Some v \<Rightarrow> if val_is_seed v then False else isOffline v current_height) (reg_active_set registry)
      in if removed = [] then \<lparr>off_removed = [], off_promoted = []\<rparr>
         else
           let candidates = std_sort srt additionOrder
                 (filter (\<lambda>v. val_id v \<noteq> INVALID_ID \<and> \<not> val_is_active v \<and> val_id v \<notin> set removed \<and> canBeActive v)
                    (reg_validators registry))
           in \<lparr>off_removed = removed, off_promoted = map val_id (take (length removed) candidates)\<rparr>)"

definition applyOfflineRemoval :: "validator_registry \<Rightarrow> offline_check_result \<Rightarrow> u64 \<Rightarrow> validator_registry" where
  "applyOfflineRemoval registry plan current_height =
     swap_active (off_removed plan) (off_promoted plan) current_height registry"

section \<open>Scores and penalties\<close>

definition updateUptimeScore :: "u16 \<Rightarrow> u32 \<Rightarrow> u32 \<Rightarrow> u16" where
  "updateUptimeScore old_score pings_responded pings_sent =
     (if pings_sent = 0 then old_score
      else
        let epoch_uptime = (ucast ((ucast pings_responded :: u64) * 10000 div ucast pings_sent) :: u32);
            epoch_uptime = (if epoch_uptime > 10000 then 10000 else epoch_uptime);
            alpha = (ucast UPTIME_EMA_ALPHA_BPS :: u32);
            one_minus = 10000 - alpha;
            new_score = (alpha * epoch_uptime + one_minus * ucast old_score) div 10000
        in ucast new_score)"

definition findUnhealthy :: "validator_registry \<Rightarrow> id list" where
  "findUnhealthy registry =
     map val_id (filter (\<lambda>v. val_id v \<noteq> INVALID_ID \<and> \<not> val_is_seed v \<and> \<not> isHealthy v) (reg_validators registry))"

definition penalize :: "validator_info \<Rightarrow> u64 \<Rightarrow> bool \<times> validator_info" where
  "penalize validator current_height =
     (let before = val_reward_multiplier validator;
          validator = applyInfractionPenalty validator current_height
      in (val_reward_multiplier validator < before, validator))"

section \<open>Emergency set\<close>

definition candidateOrder :: "id \<times> u16 \<times> u64 \<Rightarrow> id \<times> u16 \<times> u64 \<Rightarrow> bool" where
  "candidateOrder a b = (case (a, b) of ((_, up_a, last_a), (_, up_b, last_b)) \<Rightarrow>
     if up_a \<noteq> up_b then up_a > up_b else last_a < last_b)"

definition computeEmergencyActiveSet ::
    "((nat \<Rightarrow> nat \<Rightarrow> bool) \<Rightarrow> nat list \<Rightarrow> nat list) \<Rightarrow> validator_registry \<Rightarrow> id list \<Rightarrow> u64 \<Rightarrow> bool \<Rightarrow> id list" where
  "computeEmergencyActiveSet srt registry committed current_height force_rotation =
     (if length committed \<le> 1 then committed
      else if \<not> force_rotation then committed
      else
        let down = (\<lambda>vid. case ValidatorRegistry_find registry vid of
                      None \<Rightarrow> True | Some v \<Rightarrow> isOffline v current_height);
            live = filter (\<lambda>vid. \<not> down vid) committed;
            offline = filter down committed
        in if offline = [] then committed
           else
             let pool = map (\<lambda>v. (val_id v, val_uptime_score v, val_last_active_at v))
                   (filter (\<lambda>v. val_id v \<noteq> INVALID_ID \<and> val_id v \<notin> set committed
                               \<and> \<not> val_is_active v \<and> canBeActive v) (reg_validators registry));
                 pool = std_sort srt candidateOrder pool;
                 promote_count = min (length offline) (length pool);
                 live = live @ map fst (take promote_count pool)
             in sort live)"

definition ValidatorRegistry_default :: validator_registry where
  "ValidatorRegistry_default = \<lparr>reg_validators = [], reg_active_set = [], reg_next_id = 1,
     reg_last_rotation_height = 0, reg_target_size = ACTIVE_SET_DEFAULT\<rparr>"

definition resolveActiveSet ::
    "((nat \<Rightarrow> nat \<Rightarrow> bool) \<Rightarrow> nat list \<Rightarrow> nat list) \<Rightarrow> id list \<Rightarrow> u64 \<Rightarrow> bool \<Rightarrow> db \<Rightarrow> id list" where
  "resolveActiveSet srt committed current_height emergency d =
     (if \<not> emergency then committed
      else
        let registry = ValidatorRegistry_default\<lparr>reg_active_set := committed\<rparr>;
            registry = forEachValidator (\<lambda>v registry. registry\<lparr>reg_validators := reg_validators registry @ [v]\<rparr>)
              d registry
        in computeEmergencyActiveSet srt registry committed current_height True)"

end
