(* ===== verification/Block_Rewards.thy ===== *)
theory Block_Rewards
  imports Blocks Rotation Executor
begin

text \<open>
  The parts of \<^verbatim>\<open>src/Core/BlockProcessor.cpp\<close> that run after the transactions of a block: counters kept
  beside the state, unbonding, block rewards, the epoch boundary, rotation and the offline check.
\<close>

section \<open>Counters\<close>

definition getMeta :: "string \<Rightarrow> db \<Rightarrow> bytes option" where
  "getMeta key d = getMetaImpl key d"

definition putMeta :: "string \<Rightarrow> bytes \<Rightarrow> db \<Rightarrow> db" where
  "putMeta key v d = putMetaImpl key v d"

definition readU64Meta :: "string \<Rightarrow> db \<Rightarrow> u64" where
  "readU64Meta name d = getMetaU64 name d"

definition readU64Global :: "string \<Rightarrow> db \<Rightarrow> u64" where
  "readU64Global name d =
     (case getGlobal name d of
        None \<Rightarrow> 0
      | Some b \<Rightarrow> if length b \<noteq> 8 then 0
                  else foldl (\<lambda>v i. v OR push_bit (i * 8) (ucast (b ! i))) 0 [0..<8])"

definition writeU64Global :: "string \<Rightarrow> u64 \<Rightarrow> db \<Rightarrow> db" where
  "writeU64Global name v d = putGlobal name (map (\<lambda>i. ucast (drop_bit (i * 8) v)) [0..<8]) d"

definition blocksStakedIn :: "account \<Rightarrow> u64 \<Rightarrow> u64 \<Rightarrow> u64 \<Rightarrow> u64" where
  "blocksStakedIn acct epoch_start epoch_end epoch_blocks =
     (if acct_staked acct = 0 then 0
      else if acct_staker_since_height acct = 0 then 0
      else
        let effective_start = max (acct_staker_since_height acct) epoch_start
        in if effective_start > epoch_end then 0
           else
             let blocks = epoch_end + 1 - effective_start
             in if blocks > epoch_blocks then epoch_blocks else blocks)"

definition FEE_WINDOW_BLOCKS :: u64 where
  "FEE_WINDOW_BLOCKS = 24 * 60 * 60 div NOMINAL_BLOCK_SECONDS"

definition updateFeeWindowImpl :: "u64 \<Rightarrow> db \<Rightarrow> db" where
  "updateFeeWindowImpl block_fees d =
     (let expected_bytes = unat FEE_WINDOW_BLOCKS * 8;
          ring_bytes = (case getMeta ''fees_window_ring'' d of None \<Rightarrow> [] | Some b \<Rightarrow> b);
          (ring_bytes, d) =
            (if length ring_bytes \<noteq> expected_bytes
             then (replicate expected_bytes 0,
                   putMetaU64 ''fees_window_block_count'' 0
                     (putMetaU64 ''fees_window_ring_head'' 0
                       (putMetaU64 ''fees_window_sum'' 0
                         (putMeta ''fees_window_ring'' (replicate expected_bytes 0) d))))
             else (ring_bytes, d));
          head = getMetaU64 ''fees_window_ring_head'' d;
          count = getMetaU64 ''fees_window_block_count'' d;
          sum = getMetaU64 ''fees_window_sum'' d;
          off = unat head * 8;
          evicted = readU64 (drop off ring_bytes);
          ring_bytes = take off ring_bytes @ writeU64 block_fees @ drop (off + 8) ring_bytes;
          new_sum = sum - evicted + block_fees;
          new_head = (head + 1) mod FEE_WINDOW_BLOCKS;
          new_count = (if count < FEE_WINDOW_BLOCKS then count + 1 else FEE_WINDOW_BLOCKS);
          d = putMeta ''fees_window_ring'' ring_bytes d;
          d = putMetaU64 ''fees_window_sum'' new_sum d;
          d = putMetaU64 ''fees_window_ring_head'' new_head d
      in putMetaU64 ''fees_window_block_count'' new_count d)"

definition bumpLifetimeCounters :: "block \<Rightarrow> db \<Rightarrow> db" where
  "bumpLifetimeCounters block d =
     (let tx_counter = getMetaU64 ''tx_counter'' d;
          d = putMetaU64 ''tx_counter'' (tx_counter + of_nat (length (blk_transactions block))) d;
          fees = getMetaU64 ''total_fees_lifetime'' d;
          d = putMetaU64 ''total_fees_lifetime'' (fees + hdr_total_fees (blk_header block)) d
      in updateFeeWindowImpl (hdr_total_fees (blk_header block)) d)"

definition epochOf :: "u64 \<Rightarrow> u64" where
  "epochOf height = height div ROTATION_INTERVAL"

definition rotationIndexOf :: "u64 \<Rightarrow> u64" where
  "rotationIndexOf height = height div ROTATION_INTERVAL"

section \<open>Unbonding\<close>

definition release_validator :: "db \<Rightarrow> id \<Rightarrow> db" where
  "release_validator d vid =
     (case getValidator vid d of
        None \<Rightarrow> d
      | Some v \<Rightarrow>
          let acct = getAccount (val_owner v) d;
              acct = acct\<lparr>acct_balance := acct_balance acct + val_stake v\<rparr>;
              acct = recalculateStaked AUTO_STAKE_THRESHOLD acct;
              d = putAccount (val_owner v) acct d;
              d = deleteValidatorByAddress (val_reward_address v) d;
              d = deleteValidator (val_id v) d
          in putValidatorKeyHistory (val_id v) [] d)"

definition processUnbondExpiries :: "u64 \<Rightarrow> db \<Rightarrow> db" where
  "processUnbondExpiries current_height d =
     (let expired = forEachValidator (\<lambda>v expired.
            if isUnbondExpired v current_height then expired @ [val_id v] else expired) d []
      in foldl release_validator d expired)"

section \<open>Block rewards\<close>

definition reward_registry :: "id list \<Rightarrow> db \<Rightarrow> validator_registry" where
  "reward_registry active_set d =
     ValidatorRegistry_default\<lparr>reg_active_set := active_set,
       reg_validators := ValidatorInfo_default # map (\<lambda>vid. case getValidator vid d of
         None \<Rightarrow> ValidatorInfo_default\<lparr>val_id := vid\<rparr>
       | Some v \<Rightarrow> v) active_set\<rparr>"

text \<open>
  Paying one validator its share: the part its multiplier lets through goes to its reward address, the
  rest is redistributed.
\<close>

definition pay_validator :: "u64 \<Rightarrow> validator_info \<Rightarrow> u64 \<times> db \<Rightarrow> u64 \<times> db" where
  "pay_validator amount v = (\<lambda>(total_redistributed, d).
     let adjusted = amount * ucast (val_reward_multiplier v) div 10000;
         difference = amount - adjusted;
         d = (if adjusted > 0
              then let acct = getAccount (val_reward_address v) d
                   in putAccount (val_reward_address v) (acct\<lparr>acct_balance := acct_balance acct + adjusted\<rparr>) d
              else d);
         d = putValidator (v\<lparr>val_total_rewards_earned := val_total_rewards_earned v + adjusted\<rparr>) d
     in (total_redistributed + difference, d))"

definition pay_validator_id :: "id \<Rightarrow> u64 \<Rightarrow> u64 \<times> db \<Rightarrow> u64 \<times> db" where
  "pay_validator_id vid amount s =
     (case getValidator vid (snd s) of
        None \<Rightarrow> (fst s + amount, snd s)
      | Some v \<Rightarrow> pay_validator amount v s)"

text \<open>The last step of both branches: what was not paid and the staker share go to the pot.\<close>

definition fill_pot :: "u64 \<times> db \<Rightarrow> db" where
  "fill_pot = (\<lambda>(total_redistributed, d).
     let pot = readU64Global ''pot'' d;
         pot = pot + total_redistributed;
         staker_pool = applyBps BLOCK_REWARD STAKER_SHARE_BPS;
         pot = pot + staker_pool;
         total_to_pot = getMetaU64 ''total_to_pot'' d;
         d = putMetaU64 ''total_to_pot'' (total_to_pot + (total_redistributed + staker_pool)) d
     in writeU64Global ''pot'' pot d)"

definition pay_seed :: "u64 \<Rightarrow> u64 \<times> u64 \<times> db \<Rightarrow> id \<Rightarrow> u64 \<times> u64 \<times> db" where
  "pay_seed per_seed = (\<lambda>(remainder, s) vid.
     let (amount, remainder) = (if remainder > 0 then (per_seed + 1, remainder - 1) else (per_seed, remainder))
     in (remainder, pay_validator_id vid amount s))"

definition distributeRewards :: "block \<Rightarrow> u64 \<Rightarrow> db \<Rightarrow> db" where
  "distributeRewards block current_height d =
     (let reward_ctx = RewardContext_default\<lparr>rc_height := current_height,
            rc_epoch_number := epochOf current_height,
            rc_active_set_size := ucast (hdr_active_validator_count (blk_header block)),
            rc_block_reward_atomic := BLOCK_REWARD,
            rc_total_staked := readU64Global ''total_staked'' d\<rparr>;
          active_set = loadActiveSet d;
          rewards = computeBlockReward reward_ctx (reward_registry active_set d);
          seed_only = (active_set \<noteq> [] \<and> list_all (\<lambda>vid. case getValidator vid d of
            None \<Rightarrow> False | Some v \<Rightarrow> val_is_seed v) active_set)
      in if seed_only
         then
           let seed_pool = br_producer_amount rewards;
               seed_count = (of_nat (length active_set) :: u64);
               per_seed = seed_pool div seed_count;
               remainder = seed_pool mod seed_count;
               (remainder, total_redistributed, d) = foldl (pay_seed per_seed) (remainder, 0, d) active_set
           in fill_pot (total_redistributed + br_set_amount rewards, d)
         else
           let s = (if br_producer_amount rewards > 0 \<and> active_set \<noteq> []
                    then
                      let producer_id = (case getValidatorByAddress (hdr_proposer (blk_header block)) d of
                            None \<Rightarrow> active_set ! 0 | Some indexed_id \<Rightarrow> indexed_id)
                      in pay_validator_id producer_id (br_producer_amount rewards) (0, d)
                    else (0, d))
           in fill_pot (foldl (\<lambda>s (vid, amount). pay_validator_id vid amount s) s (br_validator_rewards rewards)))"

definition updateGlobalState :: "u64 \<Rightarrow> db \<Rightarrow> db" where
  "updateGlobalState current_height d =
     (let supply = readU64Global ''total_supply'' d;
          d = writeU64Global ''total_supply'' (supply + BLOCK_REWARD) d
      in writeU64Global ''epoch_number'' (epochOf current_height) d)"

section \<open>Epoch boundary\<close>

definition BALANCE_BONUS_BPS :: u16 where "BALANCE_BONUS_BPS = 300"
definition BALANCE_BONUS_THRESHOLD :: u64 where "BALANCE_BONUS_THRESHOLD = 1000 * ATOMIC_UNITS_PER_COIN"

definition accrue_collection :: "nft_collection \<Rightarrow> db \<Rightarrow> db" where
  "accrue_collection collection d =
     (if \<not> NftCollection_hasReward collection then d
      else if col_reward_paused collection then d
      else if col_minted_count collection = 0 then d
      else
        let per_epoch = col_minted_count collection * col_reward_rate_per_epoch collection
        in putNftCollection
             (if col_reward_escrow_remaining collection \<ge> per_epoch
              then collection\<lparr>col_reward_escrow_remaining := col_reward_escrow_remaining collection - per_epoch\<rparr>
              else collection\<lparr>col_reward_escrow_remaining := 0, col_reward_paused := True\<rparr>) d)"

text \<open>The weight of a staker in the epoch, \<open>None\<close> for one that did not stake in it.\<close>

definition staker_weight :: "u64 \<Rightarrow> u64 \<Rightarrow> account \<Rightarrow> u128 option" where
  "staker_weight epoch_start_height epoch_end_height acct =
     (let blocks_staked = blocksStakedIn acct epoch_start_height epoch_end_height ROTATION_INTERVAL
      in if blocks_staked = 0 then None
         else
           let weight = acct_staked acct;
               weight = (if acct_staked acct \<ge> BALANCE_BONUS_THRESHOLD
                         then ucast ((ucast weight :: u128) * (10000 + ucast BALANCE_BONUS_BPS) div 10000)
                         else weight)
           in Some ((ucast weight :: u128) * ucast blocks_staked))"

definition staker_share :: "u64 \<Rightarrow> u128 \<Rightarrow> u128 \<Rightarrow> u64" where
  "staker_share distributed time_weight total_time_weight =
     ucast ((ucast distributed :: u128) * time_weight div total_time_weight)"

definition pay_stakers :: "u64 \<Rightarrow> u64 \<Rightarrow> u64 \<Rightarrow> u64 \<Rightarrow> db \<Rightarrow> db" where
  "pay_stakers epoch_start_height epoch_end_height epoch_number distributed d =
     (let total_time_weight = forEachStaker (\<lambda>addr total.
            case staker_weight epoch_start_height epoch_end_height (getAccount addr d) of
              None \<Rightarrow> total | Some w \<Rightarrow> total + w) d 0
      in if total_time_weight = 0 then d
         else forEachStaker (\<lambda>addr d.
            let acct = getAccount addr d
            in (case staker_weight epoch_start_height epoch_end_height acct of
                  None \<Rightarrow> d
                | Some w \<Rightarrow> putAccount addr
                    (acct\<lparr>acct_pending_rewards := acct_pending_rewards acct + staker_share distributed w total_time_weight,
                          acct_last_reward_epoch := epoch_number\<rparr>) d)) d d)"

definition processEpochBoundary :: "block \<Rightarrow> u64 \<Rightarrow> db \<Rightarrow> db" where
  "processEpochBoundary block current_height d =
     (let pot = readU64Global ''pot'' d;
          total_staked = readU64Global ''total_staked'' d;
          staker_count = readU64Global ''staker_count'' d;
          epoch_end_height = current_height;
          epoch_start_height = (if epoch_end_height + 1 \<ge> ROTATION_INTERVAL
                                then epoch_end_height + 1 - ROTATION_INTERVAL else 0);
          staker_pool_per_block = applyBps BLOCK_REWARD STAKER_SHARE_BPS;
          epoch_pool = staker_pool_per_block * ROTATION_INTERVAL;
          pool_baseline = epoch_pool;
          tx_counter_now = readU64Meta ''tx_counter'' d;
          tx_counter_at_start = readU64Meta ''tx_counter_at_epoch_start'' d;
          txs_this_epoch = (if tx_counter_now \<ge> tx_counter_at_start
                            then tx_counter_now - tx_counter_at_start else 0);
          avg_tx_per_block = (if ROTATION_INTERVAL > 0 then txs_this_epoch div ROTATION_INTERVAL else 0);
          rctx = RewardContext_default\<lparr>rc_height := current_height,
            rc_epoch_number := epochOf current_height,
            rc_active_set_size := ucast (hdr_active_validator_count (blk_header block)),
            rc_total_staked := total_staked, rc_pot := pot, rc_fees_this_block := 0,
            rc_block_reward_atomic := BLOCK_REWARD, rc_apy_base_bps := APY_BASE_BPS,
            rc_apy_activity_bps := computeActivityBps avg_tx_per_block,
            rc_apy_pot_bonus_bps := computePotBonusBps pot pool_baseline\<rparr>;
          effective_apy = computeEffectiveApy rctx SECONDS_PER_EPOCH;
          d = putMetaU64 ''last_effective_apy_bps'' (ucast effective_apy) d;
          d = putMetaU64 ''tx_counter_at_epoch_start'' tx_counter_now d;
          target_payout = computeTargetStakerPayout rctx effective_apy SECONDS_PER_EPOCH;
          adj = applyPotMechanics epoch_pool target_payout pot pool_baseline;
          pot_delta = adj_added_to_pot adj - adj_drained_from_pot adj;
          new_pot = pot + pot_delta;
          new_pot = (if sint new_pot < 0 then 0 else new_pot);
          pot_max = pool_baseline * POT_MAX_EPOCHS;
          new_pot = (if new_pot > pot_max then pot_max else new_pot);
          d = writeU64Global ''pot'' new_pot d;
          total_pot_distributed = getMetaU64 ''total_pot_distributed'' d;
          d = putMetaU64 ''total_pot_distributed'' (total_pot_distributed + adj_distributed adj) d;
          d = forEachNftCollection accrue_collection d d
      in if adj_distributed adj = 0 \<or> total_staked = 0 \<or> staker_count = 0 then d
         else pay_stakers epoch_start_height epoch_end_height (rc_epoch_number rctx) (adj_distributed adj) d)"

section \<open>Rotation\<close>

definition put_validators :: "validator_info list \<Rightarrow> db \<Rightarrow> db" where
  "put_validators vs d = foldl (\<lambda>d v. if val_id v = INVALID_ID then d else putValidator v d) d vs"

definition rotation_registry :: "id list \<Rightarrow> db \<Rightarrow> validator_registry" where
  "rotation_registry active_set d =
     (let next_validator_id = (case getGlobal ''next_validator_id'' d of
            None \<Rightarrow> 1
          | Some b \<Rightarrow> if length b = 8 then readU64 b else 1);
          place = (\<lambda>vs i. case getValidator (of_nat i) d of
            None \<Rightarrow> vs
          | Some v \<Rightarrow> (vs @ replicate (i + 1 - length vs) ValidatorInfo_default)[i := v]);
          registry = ValidatorRegistry_default\<lparr>reg_active_set := active_set,
            reg_validators := foldl place [ValidatorInfo_default] [1..<unat next_validator_id]\<rparr>;
          registry = (case getGlobal ''active_set_size'' d of
            None \<Rightarrow> registry
          | Some b \<Rightarrow> if length b = 8 then registry\<lparr>reg_target_size := readU64 b\<rparr> else registry)
      in (case getGlobal ''last_rotation_height'' d of
            None \<Rightarrow> registry
          | Some b \<Rightarrow> if length b = 8 then registry\<lparr>reg_last_rotation_height := readU64 b\<rparr> else registry))"

definition processRotation ::
    "((nat \<Rightarrow> nat \<Rightarrow> bool) \<Rightarrow> nat list \<Rightarrow> nat list) \<Rightarrow> block \<Rightarrow> u64 \<Rightarrow> db \<Rightarrow> db" where
  "processRotation srt block current_height d =
     (let active_set = loadActiveSet d
      in if active_set = [] then d
         else
           let registry = rotation_registry active_set d;
               avg_tx_per_block = of_nat (length (blk_transactions block));
               plan = planRotation srt registry avg_tx_per_block
           in if plan_to_remove plan = [] \<and> plan_to_add plan = []
                 \<and> plan_new_target_size plan = reg_target_size registry then d
              else
                let registry = applyRotation registry plan current_height;
                    d = put_validators (reg_validators registry) d;
                    d = saveActiveSet (reg_active_set registry) d;
                    d = writeU64Global ''active_set_size'' (plan_new_target_size plan) d
                in writeU64Global ''last_rotation_height'' current_height d)"

definition offline_registry :: "id list \<Rightarrow> db \<Rightarrow> validator_registry" where
  "offline_registry active_set d =
     ValidatorRegistry_default\<lparr>reg_active_set := active_set,
       reg_validators := ValidatorInfo_default # List.map_filter (\<lambda>vid. getValidator vid d) active_set\<rparr>"

definition runOfflineCheck ::
    "((nat \<Rightarrow> nat \<Rightarrow> bool) \<Rightarrow> nat list \<Rightarrow> nat list) \<Rightarrow> u64 \<Rightarrow> db \<Rightarrow> db" where
  "runOfflineCheck srt current_height d =
     (let active_set = loadActiveSet d
      in if active_set = [] then d
         else
           let registry = offline_registry active_set d;
               plan = planOfflineRemoval srt registry current_height
           in if off_removed plan = [] \<and> off_promoted plan = [] then d
              else
                let registry = applyOfflineRemoval registry plan current_height;
                    d = put_validators (reg_validators registry) d
                in saveActiveSet (reg_active_set registry) d)"

end
