(* ===== verification/Block_Processor.thy ===== *)
theory Block_Processor
  imports Block_Rewards
begin

text \<open>
  Applying a block (\<^verbatim>\<open>src/Core/BlockProcessor.cpp\<close>): the header, certificate and quorum checks, the
  transactions, the indexes, the commitments and \<^verbatim>\<open>applyBlock\<close>, which composes them with the steps of
  \<^verbatim>\<open>Block_Rewards\<close>. The clock is the argument \<open>now_ms\<close> and the root of the state tree the
  argument \<open>state_root\<close>. The result is \<open>None\<close> when a handler divides by zero.
\<close>

section \<open>Indexes\<close>

text \<open>\<^verbatim>\<open>src/State/StateAccess.cpp\<close>\<close>

definition indexTransaction :: "hash \<Rightarrow> u64 \<Rightarrow> u32 \<Rightarrow> address list \<Rightarrow> id list \<Rightarrow> u8 \<Rightarrow> db \<Rightarrow> db" where
  "indexTransaction txid block_height tx_index addresses token_ids ty d =
     (let d = foldl (\<lambda>d addr. if isNull addr then d
            else putBlobRow TBL_INDEX_TX_BY_ADDRESS (addr @ writeU64BE block_height @ writeU32BE tx_index) txid d)
            d addresses;
          d = foldl (\<lambda>d token_id. putBlobRow TBL_INDEX_TX_BY_TOKEN
            (writeU32 (ucast token_id) @ writeU64BE block_height @ writeU32BE tx_index) txid d) d token_ids
      in putBlobRow TBL_INDEX_TX_BY_TYPE (ty # writeU64BE block_height @ writeU32BE tx_index) txid d)"

definition StateAccess_indexBlockProducer :: "address \<Rightarrow> u64 \<Rightarrow> hash \<Rightarrow> db \<Rightarrow> db" where
  "StateAccess_indexBlockProducer proposer block_height block_hash d =
     (if isNull proposer then d
      else putBlobRow TBL_INDEX_BLOCKS_BY_PRODUCER (proposer @ writeU64BE block_height) block_hash d)"

definition indexBlockProducer :: "block \<Rightarrow> db \<Rightarrow> db" where
  "indexBlockProducer block d =
     StateAccess_indexBlockProducer (hdr_proposer (blk_header block)) (hdr_height (blk_header block))
       (Block_hash (db_hash d) block) d"

definition indexed_tokens :: "transaction \<Rightarrow> id list" where
  "indexed_tokens tx =
     (if tx_type tx \<in> {Tx_Transfer, Tx_CreateToken, Tx_MintToken, Tx_BurnToken, Tx_UpdateTokenMeta, Tx_Swap,
           Tx_AddLiquidity, Tx_RemoveLiquidity, Tx_CreatePool, Tx_CreateOrder, Tx_CancelOrder}
      then [tx_token_id tx]
      else if tx_type tx \<in> {Tx_OptInStaking, Tx_OptOutStaking, Tx_ClaimRewards, Tx_RegisterValidator,
           Tx_UnregisterValidator, Tx_UpdateRewardAddress}
      then [NATIVE_TOKEN_ID] else [])"

definition index_tx :: "u64 \<Rightarrow> db \<Rightarrow> nat \<times> transaction \<Rightarrow> db" where
  "index_tx current_height d = (\<lambda>(i, tx).
     if isSystemTx (tx_type tx) then d
     else indexTransaction (Transaction_txid (db_hash d) tx) current_height (of_nat i)
            (tx_from tx # (if isNull (tx_to tx) then [] else [tx_to tx])) (indexed_tokens tx)
            (txtype_byte (tx_type tx)) d)"

definition indexTransactions :: "block \<Rightarrow> u64 \<Rightarrow> db \<Rightarrow> db" where
  "indexTransactions block current_height d =
     foldl (index_tx current_height) d (enumerate 0 (blk_transactions block))"

section \<open>Header checks\<close>

record block_context =
  bctx_chain_id :: u64
  bctx_current_height :: u64
  bctx_dry_run :: bool

datatype block_error =
    Msg string
  | CertificateHashMismatch hash hash
  | SlashFailed nat string
  | MalformedTransaction nat
  | TransactionFailed nat TxType
  | StateRootMismatch hash hash
  | EpochFillsRootMismatch hash hash

definition checkTimeoutCertificateHash :: "(bytes \<Rightarrow> hash) \<Rightarrow> block \<Rightarrow> block_error option" where
  "checkTimeoutCertificateHash H block =
     (let computed = computeTimeoutCertificateHash H (hdr_timeout_certificate (blk_header block))
      in if computed \<noteq> hdr_timeout_certificate_hash (blk_header block)
         then Some (CertificateHashMismatch (hdr_timeout_certificate_hash (blk_header block)) computed) else None)"

definition checkHeader :: "u64 \<Rightarrow> (bytes \<Rightarrow> hash) \<Rightarrow> block \<Rightarrow> block_context \<Rightarrow> block_error option" where
  "checkHeader now_ms H block ctx =
     (let h = blk_header block
      in if \<not> bctx_dry_run ctx \<and> \<not> BlockHeader_isWellFormed h then Some (Msg ''block header not well-formed'')
         else if hdr_chain_id h \<noteq> bctx_chain_id ctx then Some (Msg ''chain_id mismatch'')
         else if hdr_height h \<noteq> bctx_current_height ctx then Some (Msg ''height mismatch'')
         else if bctx_current_height ctx > 0 \<and> isNull (hdr_parent_hash h) then Some (Msg ''parent hash is null'')
         else
           (case (if \<not> bctx_dry_run ctx \<and> hdr_emergency_rotation h > 0
                  then checkTimeoutCertificateHash H block else None) of
              Some e \<Rightarrow> Some e
            | None \<Rightarrow> if hdr_timestamp_ms h > now_ms + 2000 then Some (Msg ''timestamp is too far in the future'')
                      else None))"

definition checkTxRoot :: "(bytes \<Rightarrow> hash) \<Rightarrow> block \<Rightarrow> block_error option" where
  "checkTxRoot H block =
     (if computeTxRoot H (blk_transactions block) \<noteq> hdr_tx_root (blk_header block)
      then Some (Msg ''tx_root mismatch'') else None)"

definition certificate_lookup :: "u64 \<Rightarrow> db \<Rightarrow> id \<Rightarrow> validator_info option" where
  "certificate_lookup cert_height d vid =
     (case getValidator vid d of
        None \<Rightarrow> None
      | Some v \<Rightarrow> (case validatorKeyAtHeight vid cert_height d of
                    None \<Rightarrow> None
                  | Some historic \<Rightarrow> Some (v\<lparr>val_consensus_key := historic\<rparr>)))"

definition checkTimeoutCertificate ::
    "(hash \<Rightarrow> pubkey \<Rightarrow> bytes \<Rightarrow> bool) \<Rightarrow> block \<Rightarrow> id list \<Rightarrow> u64 \<Rightarrow> db \<Rightarrow> block_error option" where
  "checkTimeoutCertificate sig_ok block committed_set current_height d =
     map_option Msg (verifyTimeoutCertificate sig_ok (db_hash d) (hdr_timeout_certificate (blk_header block))
       committed_set current_height (ucast (hdr_emergency_rotation (blk_header block)))
       (certificate_lookup current_height d))"

section \<open>Quorum\<close>

text \<open>The first loop: every index in range and none twice.\<close>

fun check_signers :: "nat \<Rightarrow> validator_signature list \<Rightarrow> bool list \<Rightarrow> string option" where
  "check_signers n [] seen = None"
| "check_signers n (s # ss) seen =
     (if vs_signer_index s = INVALID_INDEX then Some ''invalid signer index''
      else if unat (vs_signer_index s) \<ge> n then Some ''signer index out of range''
      else if seen ! unat (vs_signer_index s) then Some ''duplicate signature from same signer''
      else check_signers n ss (seen[unat (vs_signer_index s) := True]))"

text \<open>The second loop: every signature verifies under the key of its signer at the height of the block.\<close>

fun check_signatures ::
    "(hash \<Rightarrow> pubkey \<Rightarrow> bytes \<Rightarrow> bool) \<Rightarrow> hash \<Rightarrow> u64 \<Rightarrow> id list \<Rightarrow> db \<Rightarrow> validator_signature list \<Rightarrow> string option" where
  "check_signatures sig_ok signing_hash height active_set d [] = None"
| "check_signatures sig_ok signing_hash height active_set d (s # ss) =
     (let vid = active_set ! unat (vs_signer_index s)
      in (case getValidator vid d of
            None \<Rightarrow> Some ''quorum signature from unknown validator''
          | Some v \<Rightarrow> (case validatorKeyAtHeight vid height d of
              None \<Rightarrow> Some ''no consensus key for signer at this height''
            | Some pk \<Rightarrow>
                if \<not> sig_ok signing_hash pk (vs_signature s) then Some ''invalid quorum signature''
                else check_signatures sig_ok signing_hash height active_set d ss)))"

definition checkQuorum ::
    "(u32 \<Rightarrow> nat \<Rightarrow> u32) \<Rightarrow> (hash \<Rightarrow> pubkey \<Rightarrow> bytes \<Rightarrow> bool) \<Rightarrow> block \<Rightarrow> id list \<Rightarrow> db \<Rightarrow> string option" where
  "checkQuorum shr sig_ok block active_set d =
     (let threshold = unat (bftQuorum (of_nat (length active_set)))
      in if length (blk_quorum_signatures block) < threshold then Some ''insufficient quorum signatures''
         else (case check_signers (length active_set) (blk_quorum_signatures block)
                      (replicate (length active_set) False) of
           Some e \<Rightarrow> Some e
         | None \<Rightarrow>
             let signing_hash = voteSigningHash shr (db_hash d) (hdr_height (blk_header block))
                   (ucast (hdr_commit_round (blk_header block))) False (Block_hash (db_hash d) block)
             in check_signatures sig_ok signing_hash (hdr_height (blk_header block)) active_set d
                  (blk_quorum_signatures block)))"

definition checkValidatorSetRoot :: "(bytes \<Rightarrow> hash) \<Rightarrow> block \<Rightarrow> id list \<Rightarrow> block_error option" where
  "checkValidatorSetRoot H block active_set =
     (if computeValidatorSetRoot H active_set \<noteq> hdr_validator_set_root (blk_header block)
      then Some (Msg ''validator_set_root mismatch'') else None)"

section \<open>Commitments\<close>

definition computeEpochFillsRoot :: "(bytes \<Rightarrow> hash) \<Rightarrow> fill list \<Rightarrow> hash" where
  "computeEpochFillsRoot H fills =
     (if fills = [] then null32
      else computeMerkleRoot H (map (\<lambda>f. H (str ''efil'' @ Fill_serializeState f)) fills))"

definition receipt_leaf :: "(bytes \<Rightarrow> hash) \<Rightarrow> hash \<Rightarrow> receipt \<Rightarrow> hash" where
  "receipt_leaf H th r = H (str ''rcpt'' @ th @ Receipt_serializeState r)"

definition verifyReceiptsRoot :: "(bytes \<Rightarrow> hash) \<Rightarrow> hash list \<Rightarrow> receipt list \<Rightarrow> hash \<Rightarrow> block_error option" where
  "verifyReceiptsRoot H tx_hashes receipts expected =
     (if length tx_hashes \<noteq> length receipts then Some (Msg ''tx_hash / receipt count mismatch'')
      else if computeMerkleRoot H (map2 (receipt_leaf H) tx_hashes receipts) \<noteq> expected
      then Some (Msg ''receipts_root mismatch'') else None)"

definition verifyEpochFillsRoot :: "(bytes \<Rightarrow> hash) \<Rightarrow> fill list \<Rightarrow> hash \<Rightarrow> block_error option" where
  "verifyEpochFillsRoot H epoch_fills expected =
     (let computed = computeEpochFillsRoot H epoch_fills
      in if computed \<noteq> expected then Some (EpochFillsRootMismatch expected computed) else None)"

section \<open>Transactions\<close>

definition applySlash ::
    "(hash \<Rightarrow> pubkey \<Rightarrow> bytes \<Rightarrow> bool) \<Rightarrow> transaction \<Rightarrow> block_context \<Rightarrow> db \<Rightarrow> string option \<times> db" where
  "applySlash sig_ok tx ctx d =
     (case verifyEquivocationProof sig_ok (tx_payload tx) [] d of
        None \<Rightarrow> (Some ''invalid equivocation proof'', d)
      | Some decoded \<Rightarrow>
          (case executeSystemSlash decoded (bctx_current_height ctx) d of
             (r, d) \<Rightarrow> if rcpt_status r \<noteq> Success then (Some ''executeSystemSlash returned failure'', d)
                       else (None, d)))"

record tx_run =
  run_error :: "block_error option"
  run_failed_txid :: hash
  run_receipts :: "receipt list"
  run_tx_hashes :: "hash list"

fun apply_txs ::
    "(hash \<Rightarrow> pubkey \<Rightarrow> bytes \<Rightarrow> bool) \<Rightarrow> block_context \<Rightarrow> nat \<Rightarrow> transaction list \<Rightarrow> tx_run \<Rightarrow> db \<Rightarrow> (tx_run \<times> db) option" where
  "apply_txs sig_ok ctx i [] run d = Some (run, d)"
| "apply_txs sig_ok ctx i (tx # txs) run d =
     (let txid = Transaction_txid (db_hash d) tx
      in if isSystemTx (tx_type tx)
         then
           (case (if tx_type tx = Tx_Slash then applySlash sig_ok tx ctx d else (None, d)) of
              (Some slash_err, d) \<Rightarrow> Some (run\<lparr>run_error := Some (SlashFailed i slash_err), run_failed_txid := txid\<rparr>, d)
            | (None, d) \<Rightarrow>
                apply_txs sig_ok ctx (i + 1) txs
                  (run\<lparr>run_receipts := run_receipts run @ [\<lparr>rcpt_status = Success, rcpt_fee_paid = 0, rcpt_fills = []\<rparr>],
                       run_tx_hashes := run_tx_hashes run @ [txid]\<rparr>) d)
         else if \<not> Transaction_isWellFormed tx
         then Some (run\<lparr>run_error := Some (MalformedTransaction i), run_failed_txid := txid\<rparr>, d)
         else
           (case execute sig_ok tx \<lparr>ctx_current_height = bctx_current_height ctx, ctx_chain_id = bctx_chain_id ctx,
                   ctx_tx_index_in_block = of_nat i\<rparr> d of
              None \<Rightarrow> None
            | Some (r, d) \<Rightarrow>
                if rcpt_status r \<noteq> Success
                then Some (run\<lparr>run_error := Some (TransactionFailed i (tx_type tx)), run_failed_txid := txid\<rparr>, d)
                else apply_txs sig_ok ctx (i + 1) txs
                       (run\<lparr>run_receipts := run_receipts run @ [r], run_tx_hashes := run_tx_hashes run @ [txid]\<rparr>) d))"

definition applyTransactions ::
    "(hash \<Rightarrow> pubkey \<Rightarrow> bytes \<Rightarrow> bool) \<Rightarrow> block \<Rightarrow> block_context \<Rightarrow> db \<Rightarrow> (tx_run \<times> db) option" where
  "applyTransactions sig_ok block ctx d =
     apply_txs sig_ok ctx 0 (blk_transactions block)
       \<lparr>run_error = None, run_failed_txid = null32, run_receipts = [], run_tx_hashes = []\<rparr> d"

section \<open>The block\<close>

record block_result =
  res_valid :: bool
  res_error :: "block_error option"
  res_new_state_root :: hash
  res_new_receipts_root :: hash
  res_receipts :: "receipt list"
  res_tx_hashes :: "hash list"
  res_block_hash :: hash
  res_failed_txid :: hash
  res_epoch_fills :: "fill list"

definition set_active_flag :: "bool \<Rightarrow> u64 \<Rightarrow> db \<Rightarrow> id \<Rightarrow> db" where
  "set_active_flag active current_height d vid =
     (case getValidator vid d of
        None \<Rightarrow> d
      | Some v \<Rightarrow> putValidator (if active then v\<lparr>val_is_active := True, val_became_active_at := current_height\<rparr>
                                 else v\<lparr>val_is_active := False, val_last_active_at := current_height\<rparr>) d)"

definition install_emergency_set :: "id list \<Rightarrow> id list \<Rightarrow> u64 \<Rightarrow> db \<Rightarrow> db" where
  "install_emergency_set committed_set active_set current_height d =
     (let d = foldl (set_active_flag False current_height) d (filter (\<lambda>vid. vid \<notin> set active_set) committed_set);
          d = foldl (set_active_flag True current_height) d (filter (\<lambda>vid. vid \<notin> set committed_set) active_set)
      in saveActiveSet active_set d)"

definition mark_seen :: "u64 \<Rightarrow> db \<Rightarrow> id \<Rightarrow> db" where
  "mark_seen current_height d vid =
     (case getValidator vid d of
        None \<Rightarrow> d
      | Some v \<Rightarrow> putValidator (v\<lparr>val_last_seen_height := current_height\<rparr>) d)"

definition count_produced :: "block \<Rightarrow> db \<Rightarrow> db" where
  "count_produced block d =
     (if hdr_height (blk_header block) > 0
      then (case getValidatorByAddress (hdr_proposer (blk_header block)) d of
              None \<Rightarrow> d
            | Some producer_id \<Rightarrow> (case getValidator producer_id d of
                None \<Rightarrow> d
              | Some producer \<Rightarrow> putValidator
                  (producer\<lparr>val_total_blocks_produced := val_total_blocks_produced producer + 1\<rparr>) d))
      else d)"

definition OFFLINE_CHECK_INTERVAL :: u64 where "OFFLINE_CHECK_INTERVAL = 10"

text \<open>Everything between the transactions and the state root, with the fills of the epoch boundary.\<close>

definition finish_block ::
    "((nat \<Rightarrow> nat \<Rightarrow> bool) \<Rightarrow> nat list \<Rightarrow> nat list) \<Rightarrow> block \<Rightarrow> block_context \<Rightarrow> id list \<Rightarrow> id list \<Rightarrow> db \<Rightarrow> fill list \<times> db" where
  "finish_block srt block ctx committed_set active_set d =
     (let height = bctx_current_height ctx;
          d = (if hdr_emergency_rotation (blk_header block) > 0 \<and> active_set \<noteq> committed_set
               then install_emergency_set committed_set active_set height d else d);
          d = foldl (mark_seen height) d (blk_participants block);
          d = (if (height + 1) mod OFFLINE_CHECK_INTERVAL = 0 then runOfflineCheck srt height d else d);
          d = processOrderExpiries height d;
          d = processUnbondExpiries height d;
          (epoch_fills, d) = (if (height + 1) mod ROTATION_INTERVAL = 0 then evaluateOrderConditions height [] d
                              else ([], d));
          d = distributeRewards block height d;
          d = count_produced block d;
          d = updateGlobalState height d;
          d = (if \<not> bctx_dry_run ctx
               then indexTransactions block height (indexBlockProducer block (bumpLifetimeCounters block d)) else d);
          d = (if (height + 1) mod ROTATION_INTERVAL = 0 then processEpochBoundary block height d else d);
          d = (if (height + 1) mod ROTATION_INTERVAL = 0 then processRotation srt block height d else d)
      in (epoch_fills, d))"

text \<open>The commitment checks at the end.\<close>

definition check_commitments ::
    "(bytes \<Rightarrow> hash) \<Rightarrow> block \<Rightarrow> block_context \<Rightarrow> hash \<Rightarrow> tx_run \<Rightarrow> fill list \<Rightarrow> block_error option" where
  "check_commitments H block ctx new_state_root run epoch_fills =
     (let h = blk_header block;
          skip_state_root_check = (bctx_dry_run ctx \<or> isNull (hdr_state_root h))
      in if \<not> skip_state_root_check \<and> hdr_state_root h \<noteq> new_state_root
         then Some (StateRootMismatch (hdr_state_root h) new_state_root)
         else
           (case (if \<not> isNull (hdr_receipts_root h)
                  then verifyReceiptsRoot H (run_tx_hashes run) (run_receipts run) (hdr_receipts_root h) else None) of
              Some e \<Rightarrow> Some e
            | None \<Rightarrow>
                if \<not> bctx_dry_run ctx
                then (if \<not> isNull (hdr_epoch_fills_root h)
                      then verifyEpochFillsRoot H epoch_fills (hdr_epoch_fills_root h)
                      else if epoch_fills \<noteq> []
                      then Some (Msg ''epoch fills present but epoch_fills_root is null'') else None)
                else None))"

definition applyBlock ::
    "(u32 \<Rightarrow> nat \<Rightarrow> u32) \<Rightarrow> ((nat \<Rightarrow> nat \<Rightarrow> bool) \<Rightarrow> nat list \<Rightarrow> nat list) \<Rightarrow> (hash \<Rightarrow> pubkey \<Rightarrow> bytes \<Rightarrow> bool) \<Rightarrow>
     (db \<Rightarrow> hash) \<Rightarrow> u64 \<Rightarrow> block \<Rightarrow> block_context \<Rightarrow> db \<Rightarrow> (block_result \<times> db) option" where
  "applyBlock shr srt sig_ok state_root now_ms block ctx d =
     (let H = db_hash d;
          result = \<lparr>res_valid = False, res_error = None, res_new_state_root = null32,
            res_new_receipts_root = null32, res_receipts = [], res_tx_hashes = [],
            res_block_hash = Block_hash H block, res_failed_txid = null32, res_epoch_fills = []\<rparr>;
          reject = (\<lambda>e d. Some (result\<lparr>res_error := Some e\<rparr>, d))
      in (case checkHeader now_ms H block ctx of
        Some e \<Rightarrow> reject e d
      | None \<Rightarrow> (case checkTxRoot H block of
        Some e \<Rightarrow> reject e d
      | None \<Rightarrow>
        let committed_set = loadActiveSet d;
            is_emergency = (hdr_emergency_rotation (blk_header block) > 0)
        in (case (if is_emergency
                  then checkTimeoutCertificate sig_ok block committed_set (bctx_current_height ctx) d else None) of
          Some e \<Rightarrow> reject e d
        | None \<Rightarrow>
          let active_set = (if is_emergency
                then resolveActiveSet srt committed_set (bctx_current_height ctx) True d else committed_set)
          in if length active_set \<noteq> unat (hdr_active_validator_count (blk_header block))
             then reject (Msg ''active validator count mismatch'') d
             else (case (if \<not> bctx_dry_run ctx then checkQuorum shr sig_ok block active_set d else None) of
               Some e \<Rightarrow> reject (Msg e) d
             | None \<Rightarrow> (case checkValidatorSetRoot H block active_set of
               Some e \<Rightarrow> reject e d
             | None \<Rightarrow> (case applyTransactions sig_ok block ctx d of
               None \<Rightarrow> None
             | Some (run, d) \<Rightarrow> (case run_error run of
               Some e \<Rightarrow> reject e d
             | None \<Rightarrow>
               (case finish_block srt block ctx committed_set active_set d of (epoch_fills, d) \<Rightarrow>
                 let new_root = state_root d;
                     result = result\<lparr>res_new_state_root := new_root\<rparr>
                 in (case check_commitments H block ctx new_root run epoch_fills of
                       Some e \<Rightarrow> Some (result\<lparr>res_error := Some e\<rparr>, d)
                     | None \<Rightarrow> Some (result\<lparr>res_valid := True, res_receipts := run_receipts run,
                         res_tx_hashes := run_tx_hashes run, res_epoch_fills := epoch_fills\<rparr>, d)))))))))))"

definition validateBlock ::
    "(u32 \<Rightarrow> nat \<Rightarrow> u32) \<Rightarrow> ((nat \<Rightarrow> nat \<Rightarrow> bool) \<Rightarrow> nat list \<Rightarrow> nat list) \<Rightarrow> (hash \<Rightarrow> pubkey \<Rightarrow> bytes \<Rightarrow> bool) \<Rightarrow>
     (db \<Rightarrow> hash) \<Rightarrow> u64 \<Rightarrow> block \<Rightarrow> block_context \<Rightarrow> db \<Rightarrow> (block_result \<times> db) option" where
  "validateBlock shr srt sig_ok state_root now_ms block ctx d =
     applyBlock shr srt sig_ok state_root now_ms block ctx d"

end
