(* ===== verification/Block_Laws.thy ===== *)
theory Block_Laws
  imports Blocks
begin

text \<open>
  The codecs of votes, certificates, headers and blocks invert; the signed and hashed bytes determine
  what they commit to; a Merkle root determines its leaves once their number is known.
\<close>

section \<open>Votes and certificates\<close>

definition Vote_wf :: "vote \<Rightarrow> bool" where
  "Vote_wf v \<longleftrightarrow> length (vote_block_hash v) = 32 \<and> length (vote_signature v) = 64"

lemma ucast_round: "(ucast (ucast (r :: u32) :: u64) :: u32) = r"
  by (rule bit_word_eqI) (auto simp: bit_simps)

lemma encodeVote_eq:
  "encodeVote v = writeU64 (vote_height v) @ writeU64 (ucast (vote_round v)) @ writeU64 (vote_signer_id v) @
     writeU16 (vote_signer_index v) @ [if vote_is_nil v then 1 else 0] @ take 32 (vote_block_hash v) @
     take 64 (vote_signature v)"
  by (simp add: encodeVote_def run_writer_Cons)

lemma Vote_codec: "Vote_wf v \<Longrightarrow> decodeVote (encodeVote v) = Some v"
  by (cases v) (simp add: decodeVote_def encodeVote_eq Vote_wf_def codec_simps Let_def ucast_round)

interpretation vote_codec: state_codec encodeVote decodeVote Vote_wf
  by unfold_locales (rule Vote_codec)

lemma length_encodeVote: "Vote_wf v \<Longrightarrow> length (encodeVote v) = VOTE_WIRE_SIZE"
  by (simp add: encodeVote_eq Vote_wf_def VOTE_WIRE_SIZE_def)

definition TimeoutVote_wf :: "timeout_vote \<Rightarrow> bool" where
  "TimeoutVote_wf tv \<longleftrightarrow> length (tv_signature tv) = 64 \<and> tv_signer_index tv \<noteq> INVALID_INDEX \<and> tv_signer_id tv = INVALID_ID"

definition timeout_vote_bytes :: "timeout_vote \<Rightarrow> bytes" where
  "timeout_vote_bytes tv = writeU64 (tv_height tv) @ writeU64 (ucast (tv_round tv)) @ writeU16 (tv_signer_index tv) @
     take 64 (tv_signature tv)"

lemma encodeTimeoutVote_eq: "encodeTimeoutVote tv = timeout_vote_bytes tv"
  by (simp add: encodeTimeoutVote_def timeout_vote_bytes_def run_writer_Cons)

lemma read_timeout_vote_bytes:
  "TimeoutVote_wf tv \<Longrightarrow> read_timeout_vote \<lparr>rd_rest = timeout_vote_bytes tv @ q, rd_error = e\<rparr>
     = (tv, \<lparr>rd_rest = q, rd_error = e\<rparr>)"
  by (cases tv) (simp add: read_timeout_vote_def timeout_vote_bytes_def TimeoutVote_wf_def codec_simps ucast_round)

lemma length_timeout_vote_bytes: "TimeoutVote_wf tv \<Longrightarrow> length (timeout_vote_bytes tv) = TIMEOUT_VOTE_WIRE_SIZE"
  by (simp add: timeout_vote_bytes_def TimeoutVote_wf_def TIMEOUT_VOTE_WIRE_SIZE_def)

lemma TimeoutVote_codec: "TimeoutVote_wf tv \<Longrightarrow> decodeTimeoutVote (encodeTimeoutVote tv) = Some tv"
  using read_timeout_vote_bytes [of tv "[]" False] length_timeout_vote_bytes [of tv]
  by (simp add: decodeTimeoutVote_def encodeTimeoutVote_eq codec_simps TimeoutVote_wf_def)

interpretation timeout_vote_codec: state_codec encodeTimeoutVote decodeTimeoutVote TimeoutVote_wf
  by unfold_locales (rule TimeoutVote_codec)

definition Certificate_wf :: "timeout_certificate \<Rightarrow> bool" where
  "Certificate_wf cert \<longleftrightarrow> length cert \<le> MAX_CERT_VOTES \<and> list_all TimeoutVote_wf cert"

lemma TimeoutCertificate_serialize_eq:
  "TimeoutCertificate_serialize cert = writeU32 (of_nat (length cert)) @ concat (map timeout_vote_bytes cert)"
proof -
  have "foldl (\<lambda>out tv. wr_bytes (tv_signature tv) 64 (wr_u16 (tv_signer_index tv)
      (wr_u64 (ucast (tv_round tv)) (wr_u64 (tv_height tv) out)))) acc xs = acc @ concat (map timeout_vote_bytes xs)" for acc xs
    by (induction xs arbitrary: acc) (simp_all add: timeout_vote_bytes_def)
  then show ?thesis by (simp add: TimeoutCertificate_serialize_def)
qed

lemma read_timeout_votes_bytes:
  "list_all TimeoutVote_wf cert \<Longrightarrow>
     read_timeout_votes (length cert) \<lparr>rd_rest = concat (map timeout_vote_bytes cert) @ q, rd_error = False\<rparr>
       = Some (cert, \<lparr>rd_rest = q, rd_error = False\<rparr>)"
proof (induction cert)
  case (Cons tv cert)
  then have "TimeoutVote_wf tv" "tv_signer_index tv \<noteq> INVALID_INDEX" by (simp_all add: TimeoutVote_wf_def)
  then show ?case using Cons by (simp add: codec_simps read_timeout_vote_bytes length_timeout_vote_bytes)
qed simp

lemma Certificate_codec:
  assumes "Certificate_wf cert"
  shows "TimeoutCertificate_deserialize (TimeoutCertificate_serialize cert) = Some cert"
proof -
  have n: "unat (of_nat (length cert) :: u32) = length cert"
    using assms by (intro unat_of_nat_small) (simp add: Certificate_wf_def MAX_CERT_VOTES_def)
  show ?thesis using assms read_timeout_votes_bytes [of cert "[]"] n
    by (simp add: TimeoutCertificate_deserialize_def TimeoutCertificate_serialize_eq codec_simps Certificate_wf_def)
qed

interpretation certificate_codec: state_codec TimeoutCertificate_serialize TimeoutCertificate_deserialize Certificate_wf
  by unfold_locales (rule Certificate_codec)

lemma length_Certificate:
  "list_all TimeoutVote_wf cert \<Longrightarrow> length (TimeoutCertificate_serialize cert) = 4 + length cert * TIMEOUT_VOTE_WIRE_SIZE"
  unfolding TimeoutCertificate_serialize_eq
  by (induction cert) (simp_all add: length_timeout_vote_bytes)

section \<open>Headers\<close>

definition Header_wf :: "block_header \<Rightarrow> bool" where
  "Header_wf h \<longleftrightarrow> length (hdr_parent_hash h) = 32 \<and> length (hdr_proposer h) = 32 \<and>
     length (hdr_state_root h) = 32 \<and> length (hdr_tx_root h) = 32 \<and> length (hdr_receipts_root h) = 32 \<and>
     length (hdr_epoch_fills_root h) = 32 \<and> length (hdr_validator_set_root h) = 32 \<and>
     length (hdr_timeout_certificate_hash h) = 32 \<and> Certificate_wf (hdr_timeout_certificate h) \<and>
     length (TimeoutCertificate_serialize (hdr_timeout_certificate h)) \<le> MAX_CERT_BYTES"

lemma serializeForHash_eq:
  "BlockHeader_serializeForHash h =
     writeU16 (hdr_version h) @ writeU64 (hdr_chain_id h) @ writeU64 (hdr_height h) @ take 32 (hdr_parent_hash h) @
     writeU64 (hdr_timestamp_ms h) @ take 32 (hdr_proposer h) @ writeU64 (hdr_epoch h) @
     writeU64 (hdr_rotation_index h) @ writeU64 (hdr_emergency_rotation h) @ take 32 (hdr_state_root h) @
     take 32 (hdr_tx_root h) @ take 32 (hdr_receipts_root h) @ take 32 (hdr_epoch_fills_root h) @
     take 32 (hdr_validator_set_root h) @ writeU64 (hdr_total_fees h) @ writeU32 (hdr_tx_count h) @
     writeU32 (hdr_active_validator_count h) @ take 32 (hdr_timeout_certificate_hash h)"
  by (simp add: BlockHeader_serializeForHash_def run_writer_Cons)

lemma BlockHeader_serialize_eq:
  "BlockHeader_serialize h =
     writeU16 (hdr_version h) @ writeU64 (hdr_chain_id h) @ writeU64 (hdr_height h) @ take 32 (hdr_parent_hash h) @
     writeU64 (hdr_timestamp_ms h) @ take 32 (hdr_proposer h) @ writeU64 (hdr_epoch h) @
     writeU64 (hdr_rotation_index h) @ writeU64 (hdr_commit_round h) @ writeU64 (hdr_emergency_rotation h) @
     take 32 (hdr_state_root h) @ take 32 (hdr_tx_root h) @ take 32 (hdr_receipts_root h) @
     take 32 (hdr_epoch_fills_root h) @ take 32 (hdr_validator_set_root h) @ writeU64 (hdr_total_fees h) @
     writeU32 (hdr_tx_count h) @ writeU32 (hdr_active_validator_count h) @ take 32 (hdr_timeout_certificate_hash h) @
     writeU32 (of_nat (length (TimeoutCertificate_serialize (hdr_timeout_certificate h)))) @
     TimeoutCertificate_serialize (hdr_timeout_certificate h)"
  by (simp add: BlockHeader_serialize_def run_writer_Cons)

lemma rd_vector_all [codec_simps]:
  "length p = n \<Longrightarrow> rd_vector n \<lparr>rd_rest = p, rd_error = e\<rparr> = (p, \<lparr>rd_rest = [], rd_error = e\<rparr>)"
  using rd_vector_wr [of p n "[]" e] by simp

lemma Header_codec:
  assumes "Header_wf h"
  shows "BlockHeader_deserialize (BlockHeader_serialize h) = Some h"
proof -
  let ?c = "TimeoutCertificate_serialize (hdr_timeout_certificate h)"
  have n: "unat (of_nat (length ?c) :: u32) = length ?c"
    using assms by (intro unat_of_nat_small) (simp add: Header_wf_def MAX_CERT_BYTES_def)
  have c: "TimeoutCertificate_deserialize ?c = Some (hdr_timeout_certificate h)"
    using assms by (intro Certificate_codec) (simp add: Header_wf_def)
  have len: "length ?c \<le> MAX_CERT_BYTES" using assms by (simp add: Header_wf_def)
  show ?thesis using assms
    by (simp add: BlockHeader_deserialize_def BlockHeader_serialize_eq Header_wf_def codec_simps Let_def n c len [THEN leD])
qed

interpretation header_codec: state_codec BlockHeader_serialize BlockHeader_deserialize Header_wf
  by unfold_locales (rule Header_codec)

text \<open>The hashed bytes determine the header up to the commit round and the certificate itself.\<close>

lemma serializeForHash_inj:
  assumes "Header_wf h" "Header_wf k" "BlockHeader_serializeForHash h = BlockHeader_serializeForHash k"
  shows "h\<lparr>hdr_commit_round := hdr_commit_round k, hdr_timeout_certificate := hdr_timeout_certificate k\<rparr> = k"
proof -
  have "hdr_version h = hdr_version k \<and> hdr_chain_id h = hdr_chain_id k \<and> hdr_height h = hdr_height k \<and>
    hdr_parent_hash h = hdr_parent_hash k \<and> hdr_timestamp_ms h = hdr_timestamp_ms k \<and>
    hdr_proposer h = hdr_proposer k \<and> hdr_epoch h = hdr_epoch k \<and> hdr_rotation_index h = hdr_rotation_index k \<and>
    hdr_emergency_rotation h = hdr_emergency_rotation k \<and> hdr_state_root h = hdr_state_root k \<and>
    hdr_tx_root h = hdr_tx_root k \<and> hdr_receipts_root h = hdr_receipts_root k \<and>
    hdr_epoch_fills_root h = hdr_epoch_fills_root k \<and> hdr_validator_set_root h = hdr_validator_set_root k \<and>
    hdr_total_fees h = hdr_total_fees k \<and> hdr_tx_count h = hdr_tx_count k \<and>
    hdr_active_validator_count h = hdr_active_validator_count k \<and>
    hdr_timeout_certificate_hash h = hdr_timeout_certificate_hash k"
    using assms unfolding serializeForHash_eq Header_wf_def by (simp add: key_simps)
  then show ?thesis by (cases h, cases k) simp
qed

section \<open>Blocks\<close>

definition sized :: "bytes \<Rightarrow> bytes" where
  "sized p = writeU32 (of_nat (length p)) @ p"

definition signature_bytes :: "validator_signature \<Rightarrow> bytes" where
  "signature_bytes s = writeU16 (vs_signer_index s) @ take 64 (vs_signature s)"

definition Block_wf :: "block \<Rightarrow> bool" where
  "Block_wf b \<longleftrightarrow> Header_wf (blk_header b) \<and> length (BlockHeader_serialize (blk_header b)) \<le> MAX_HEADER_BYTES \<and>
     length (blk_transactions b) \<le> 100000 \<and> list_all Transaction_wf (blk_transactions b) \<and>
     length (blk_quorum_signatures b) \<le> 10000 \<and> list_all (\<lambda>s. length (vs_signature s) = 64) (blk_quorum_signatures b) \<and>
     length (blk_participants b) \<le> 10000"

lemma foldl_writer: "(\<And>x out. w x out = out @ f x) \<Longrightarrow> foldl (\<lambda>out x. w x out) acc xs = acc @ concat (map f xs)"
  by (induction xs arbitrary: acc) simp_all

lemma Block_serialize_eq:
  "Block_serialize b = sized (BlockHeader_serialize (blk_header b)) @ writeU32 (of_nat (length (blk_transactions b))) @
     concat (map (\<lambda>tx. sized (Transaction_serialize tx)) (blk_transactions b)) @
     writeU32 (of_nat (length (blk_quorum_signatures b))) @ concat (map signature_bytes (blk_quorum_signatures b)) @
     writeU32 (of_nat (length (blk_participants b))) @ concat (map writeU64 (blk_participants b))"
proof -
  have tx: "wr_sized (Transaction_serialize tx) out = out @ sized (Transaction_serialize tx)" for tx out
    by (simp add: wr_sized_def sized_def)
  have sg: "wr_signature s out = out @ signature_bytes s" for s out
    by (simp add: wr_signature_def signature_bytes_def)
  have u: "wr_u64 v out = out @ writeU64 v" for v out by simp
  show ?thesis
    unfolding Block_serialize_def Let_def foldl_writer [of "\<lambda>tx. wr_sized (Transaction_serialize tx)", OF tx]
      foldl_writer [of wr_signature, OF sg] foldl_writer [of wr_u64, OF u]
    by (simp add: wr_sized_def sized_def)
qed

lemma tx_size: "Transaction_wf tx \<Longrightarrow> length (Transaction_serialize tx) \<le> 1000000"
  using length_Transaction_serialize [of tx]
  by (auto simp: Transaction_serializedSize_def Transaction_wf_def Transaction_isWellFormed_def TX_MAX_PAYLOAD_SIZE_def
      split: if_splits)

lemma read_transactions_bytes:
  "list_all Transaction_wf txs \<Longrightarrow> read_transactions (length txs)
     \<lparr>rd_rest = concat (map (\<lambda>tx. sized (Transaction_serialize tx)) txs) @ q, rd_error = False\<rparr>
     = Some (txs, \<lparr>rd_rest = q, rd_error = False\<rparr>)"
proof (induction txs)
  case (Cons tx txs)
  then have tx: "Transaction_wf tx" by simp
  let ?n = "length (Transaction_serialize tx)"
  have n: "unat (of_nat ?n :: u32) = ?n" using tx_size [OF tx] by (intro unat_of_nat_small) simp
  show ?case using Cons tx tx_size [OF tx] n Transaction_codec [OF tx]
    by (simp add: sized_def codec_simps)
qed simp

lemma read_signatures_bytes:
  "list_all (\<lambda>s. length (vs_signature s) = 64) ss \<Longrightarrow> read_signatures (length ss)
     \<lparr>rd_rest = concat (map signature_bytes ss) @ q, rd_error = False\<rparr> = Some (ss, \<lparr>rd_rest = q, rd_error = False\<rparr>)"
  by (induction ss) (simp_all add: signature_bytes_def codec_simps)

lemma read_participants_bytes:
  "read_participants (length vs) \<lparr>rd_rest = concat (map writeU64 vs) @ q, rd_error = False\<rparr>
     = Some (vs, \<lparr>rd_rest = q, rd_error = False\<rparr>)"
  by (induction vs) (simp_all add: codec_simps)

lemma Block_codec:
  assumes "Block_wf b"
  shows "Block_deserialize (Block_serialize b) = Some b"
proof -
  let ?h = "BlockHeader_serialize (blk_header b)"
  note small = unat_of_nat_small [where ?'a = 32]
  have n: "unat (of_nat (length ?h) :: u32) = length ?h"
    "unat (of_nat (length (blk_transactions b)) :: u32) = length (blk_transactions b)"
    "unat (of_nat (length (blk_quorum_signatures b)) :: u32) = length (blk_quorum_signatures b)"
    "unat (of_nat (length (blk_participants b)) :: u32) = length (blk_participants b)"
    using assms by (auto simp: Block_wf_def MAX_HEADER_BYTES_def intro!: small)
  have hdr: "BlockHeader_deserialize ?h = Some (blk_header b)"
    using assms by (intro Header_codec) (simp add: Block_wf_def)
  show ?thesis
    using assms hdr n read_transactions_bytes [of "blk_transactions b"] read_signatures_bytes [of "blk_quorum_signatures b"]
      read_participants_bytes [of "blk_participants b" "[]"]
    by (simp add: Block_deserialize_def Block_serialize_eq sized_def codec_simps Block_wf_def Let_def)
qed

interpretation block_codec: state_codec Block_serialize Block_deserialize Block_wf
  by unfold_locales (rule Block_codec)

lemma length_Block_serialize:
  assumes "Block_wf b"
  shows "length (Block_serialize b) = Block_serializedSize b"
proof -
  have "length (concat (map signature_bytes ss)) = sum_list (map (\<lambda>s. 2 + length (vs_signature s)) ss)"
    if "list_all (\<lambda>s. length (vs_signature s) = 64) ss" for ss
    using that by (induction ss) (simp_all add: signature_bytes_def)
  moreover have "length (concat (map writeU64 vs)) = length vs * 8" for vs by (induction vs) simp_all
  moreover have "length (concat (map (\<lambda>tx. sized (Transaction_serialize tx)) txs))
      = sum_list (map (\<lambda>tx. 4 + length (Transaction_serialize tx)) txs)" for txs
    by (induction txs) (simp_all add: sized_def)
  ultimately show ?thesis using assms
    by (simp add: Block_serialize_eq Block_serializedSize_def sized_def Block_wf_def)
qed

section \<open>Merkle roots\<close>

fun pair_inputs :: "hash list \<Rightarrow> bytes set" where
  "pair_inputs (a # b # rest) = insert (str ''CLRTY_MERKLE_V1'' @ a @ b) (pair_inputs rest)"
| "pair_inputs _ = {}"

definition padded :: "hash list \<Rightarrow> hash list" where
  "padded level = (if length level mod 2 = 1 then level @ [last level] else level)"

text \<open>All the byte strings hashed for a root.\<close>

function merkle_inputs :: "(bytes \<Rightarrow> hash) \<Rightarrow> hash list \<Rightarrow> bytes set" where
  "merkle_inputs H level = (if length level > 1
     then pair_inputs (padded level) \<union> merkle_inputs H (merkle_level H level) else {})"
  by pat_completeness auto
termination
  by (relation "measure (\<lambda>(H, level). length level)") (auto simp: length_merkle_level)

declare merkle_inputs.simps [simp del]

lemma merkle_inputs_Nil [simp]: "merkle_inputs H [] = {}"
  by (simp add: merkle_inputs.simps [of H "[]"])

lemma merkle_level_padded: "merkle_level H level = merkle_pairs H (padded level)"
  by (simp add: merkle_level_def padded_def)

lemma merkle_pairs_inj:
  assumes "inj_on H (pair_inputs xs \<union> pair_inputs ys)" "length xs = length ys" "even (length xs)"
    and "list_all (\<lambda>x. length x = 32) xs" "list_all (\<lambda>x. length x = 32) ys" "merkle_pairs H xs = merkle_pairs H ys"
  shows "xs = ys"
  using assms
proof (induction H xs arbitrary: ys rule: merkle_pairs.induct)
  case (1 H a b rest)
  then obtain c d rest' where ys: "ys = c # d # rest'" by (cases ys; cases "tl ys") auto
  have "str ''CLRTY_MERKLE_V1'' @ a @ b = str ''CLRTY_MERKLE_V1'' @ c @ d"
    by (rule inj_onD [OF 1(2)]) (use 1(7) in \<open>simp_all add: ys merkle_parent_def\<close>)
  then have "a = c" "b = d" using 1(5,6) unfolding ys by simp_all
  moreover have "rest = rest'"
    using 1(1) [of rest'] 1(2-7) unfolding ys by (auto intro: inj_on_subset)
  ultimately show ?case by (simp add: ys)
qed auto

lemma padded_facts:
  "even (length (padded xs))" "xs \<noteq> [] \<Longrightarrow> take (length xs) (padded xs) = xs"
  "length xs = length ys \<Longrightarrow> length (padded xs) = length (padded ys)"
  "xs \<noteq> [] \<Longrightarrow> list_all P xs \<Longrightarrow> list_all P (padded xs)"
  by (auto simp: padded_def list_all_iff mod_2_eq_odd)

lemma merkle_pairs_32: "(\<And>x. length (H x) = 32) \<Longrightarrow> list_all (\<lambda>x. length x = 32) (merkle_pairs H xs)"
  by (induction H xs rule: merkle_pairs.induct) (simp_all add: merkle_parent_def)

lemma merkle_loop_inj:
  assumes "\<And>x. length (H x) = 32" "inj_on H (merkle_inputs H xs \<union> merkle_inputs H ys)" "length xs = length ys"
    and "list_all (\<lambda>x. length x = 32) xs" "list_all (\<lambda>x. length x = 32) ys" "merkle_loop H xs = merkle_loop H ys"
  shows "xs = ys"
  using assms
proof (induction H xs arbitrary: ys rule: merkle_loop.induct)
  case (1 H xs)
  show ?case
  proof (cases "length xs > 1")
    case False
    then show ?thesis using 1(4,7) by (simp add: merkle_loop.simps [of H xs] merkle_loop.simps [of H ys])
  next
    case True
    then have T: "length ys > 1" "xs \<noteq> []" "ys \<noteq> []" using 1(4) by auto
    have inj: "inj_on H (pair_inputs (padded xs) \<union> pair_inputs (padded ys))"
        "inj_on H (merkle_inputs H (merkle_level H xs) \<union> merkle_inputs H (merkle_level H ys))"
      using 1(3) True T(1) unfolding merkle_inputs.simps [of H xs] merkle_inputs.simps [of H ys]
      by (auto intro: inj_on_subset)
    have lev: "merkle_level H xs = merkle_level H ys"
    proof (rule 1(1) [OF True 1(2) inj(2)])
      show "length (merkle_level H xs) = length (merkle_level H ys)" using 1(4) by (simp add: length_merkle_level)
      show "list_all (\<lambda>x. length x = 32) (merkle_level H xs)" "list_all (\<lambda>x. length x = 32) (merkle_level H ys)"
        unfolding merkle_level_padded by (rule merkle_pairs_32 [OF 1(2)])+
      show "merkle_loop H (merkle_level H xs) = merkle_loop H (merkle_level H ys)"
        using 1(7) True T(1) by (simp add: merkle_loop.simps [of H xs] merkle_loop.simps [of H ys])
    qed
    have "padded xs = padded ys"
      by (rule merkle_pairs_inj [OF inj(1) padded_facts(3) [OF 1(4)] padded_facts(1)
            padded_facts(4) [OF T(2) 1(5)] padded_facts(4) [OF T(3) 1(6)] lev [unfolded merkle_level_padded]])
    then have "take (length xs) (padded xs) = take (length ys) (padded ys)" by (simp only: 1(4))
    then show ?thesis by (simp only: padded_facts(2) [OF T(2)] padded_facts(2) [OF T(3)])
  qed
qed

lemma merkle_loop_single: "xs \<noteq> [] \<Longrightarrow> length (merkle_loop H xs) = 1"
proof (induction H xs rule: merkle_loop.induct)
  case (1 H xs)
  show ?case
  proof (cases "length xs > 1")
    case True
    then have "merkle_level H xs \<noteq> []" using length_merkle_level [of H xs] by auto
    then show ?thesis using 1(1) [OF True] True by (simp add: merkle_loop.simps [of H xs])
  next
    case False
    then have "merkle_loop H xs = xs" by (simp add: merkle_loop.simps [of H xs])
    then show ?thesis using 1(2) False by (cases xs) simp_all
  qed
qed

lemma merkle_root_inj:
  assumes "\<And>x. length (H x) = 32" "inj_on H (merkle_inputs H xs \<union> merkle_inputs H ys)" "length xs = length ys"
    and "list_all (\<lambda>x. length x = 32) xs" "list_all (\<lambda>x. length x = 32) ys" "computeMerkleRoot H xs = computeMerkleRoot H ys"
  shows "xs = ys"
proof (cases "xs = []")
  case True
  then show ?thesis using assms(3) by simp
next
  case False
  then have "ys \<noteq> []" using assms(3) by auto
  then have "merkle_loop H xs = merkle_loop H ys"
    using assms(6) False merkle_loop_single [of xs H] merkle_loop_single [of ys H]
    by (auto simp: computeMerkleRoot_def length_Suc_conv)
  then show ?thesis by (rule merkle_loop_inj [OF assms(1-5)])
qed

lemma merkle_loop_32:
  "(\<forall>x. length (H x) = 32) \<Longrightarrow> list_all (\<lambda>x. length x = 32) xs \<Longrightarrow> list_all (\<lambda>x. length x = 32) (merkle_loop H xs)"
proof (induction H xs rule: merkle_loop.induct)
  case (1 H xs)
  show ?case
  proof (cases "length xs > 1")
    case True
    have "list_all (\<lambda>x. length x = 32) (merkle_level H xs)"
      unfolding merkle_level_padded using 1(2) by (intro merkle_pairs_32) blast
    then show ?thesis using 1(1) [OF True 1(2)] True by (simp add: merkle_loop.simps [of H xs])
  next
    case False
    then show ?thesis using 1(3) by (simp add: merkle_loop.simps [of H xs])
  qed
qed

lemma length_merkle_root:
  assumes "\<And>x. length (H x) = 32" "list_all (\<lambda>x. length x = 32) xs"
  shows "length (computeMerkleRoot H xs) = 32"
proof -
  have "list_all (\<lambda>x. length x = 32) (merkle_loop H xs)" using assms by (intro merkle_loop_32) simp_all
  then show ?thesis using merkle_loop_single [of xs H]
    by (cases "merkle_loop H xs") (auto simp: computeMerkleRoot_def null32_def)
qed

text \<open>An odd level is padded with its last leaf, so the root does not tell a list from the list with its last leaf twice.\<close>

lemma merkle_padding:
  assumes "length xs > 1" "odd (length xs)"
  shows "computeMerkleRoot H (xs @ [last xs]) = computeMerkleRoot H xs"
proof -
  have "merkle_level H (xs @ [last xs]) = merkle_level H xs"
    using assms(2) by (simp add: merkle_level_def odd_iff_mod_2_eq_one)
  then have "merkle_loop H (xs @ [last xs]) = merkle_loop H xs"
    using assms(1) unfolding merkle_loop.simps [of H "xs @ [last xs]"] merkle_loop.simps [of H xs] by (cases xs) simp_all
  then show ?thesis using assms(1) by (auto simp: computeMerkleRoot_def)
qed

end
