(* ===== verification/Rotation_Laws.thy ===== *)
theory Rotation_Laws
  imports Rotation
begin

text \<open>
  What rotation, the offline check and the emergency set do to a registry: which validators stay, how
  large the set becomes, and that the active flags and the active set keep agreeing.
\<close>

section \<open>Sorting\<close>

definition strict_weak :: "('a \<Rightarrow> 'a \<Rightarrow> bool) \<Rightarrow> bool" where
  "strict_weak lt \<longleftrightarrow> (\<forall>a b. lt a b \<longrightarrow> \<not> lt b a) \<and> (\<forall>a b c. \<not> lt a b \<longrightarrow> \<not> lt b c \<longrightarrow> \<not> lt a c)"

lemma mset_map_nth: "mset ys = mset [0..<length xs] \<Longrightarrow> mset (map (\<lambda>i. xs ! i) ys) = mset xs"
proof -
  assume "mset ys = mset [0..<length xs]"
  then have "mset (map (\<lambda>i. xs ! i) ys) = mset (map (\<lambda>i. xs ! i) [0..<length xs])"
    by (simp only: mset_map)
  then show ?thesis by (simp only: map_nth)
qed

lemma sort_okD:
  assumes "sort_ok srt" "strict_weak lt"
  shows "mset (srt lt xs) = mset xs" "sorted_wrt (\<lambda>i j. \<not> lt j i) (srt lt xs)"
proof -
  note sort = assms(1) [unfolded sort_ok_def, THEN spec [of _ lt], THEN spec [of _ xs]]
  note sorted = sort [THEN mp [OF _ assms(2) [unfolded strict_weak_def, THEN conjunct1]],
      THEN mp [OF _ assms(2) [unfolded strict_weak_def, THEN conjunct2]]]
  show "mset (srt lt xs) = mset xs" "sorted_wrt (\<lambda>i j. \<not> lt j i) (srt lt xs)"
    by (rule sorted [THEN conjunct1], rule sorted [THEN conjunct2])
qed

lemma strict_weak_inv_image:
  assumes "strict_weak lt"
  shows "strict_weak (\<lambda>i j. lt (f i) (f j))"
proof -
  have asym: "\<not> lt (f j) (f i)" if "lt (f i) (f j)" for i j
    using assms [unfolded strict_weak_def, THEN conjunct1, rule_format, OF that] .
  have "\<not> lt (f i) (f k)" if "\<not> lt (f i) (f j)" "\<not> lt (f j) (f k)" for i j k
    using assms [unfolded strict_weak_def, THEN conjunct2, rule_format, OF that] .
  with asym show ?thesis unfolding strict_weak_def by (intro conjI allI impI)
qed

lemma mset_std_sort:
  "sort_ok srt \<Longrightarrow> strict_weak lt \<Longrightarrow> mset (std_sort srt lt xs) = mset xs"
  unfolding std_sort_def by (rule mset_map_nth [OF sort_okD(1) [OF _ strict_weak_inv_image]])

lemma sorted_std_sort:
  "sort_ok srt \<Longrightarrow> strict_weak lt \<Longrightarrow> sorted_wrt (\<lambda>a b. \<not> lt b a) (std_sort srt lt xs)"
  unfolding std_sort_def sorted_wrt_map
  by (rule sort_okD(2) [OF _ strict_weak_inv_image])

lemma strict_weak_lex:
  fixes f :: "'a \<Rightarrow> 'b::linorder" and g :: "'a \<Rightarrow> 'c::linorder"
  shows "strict_weak (\<lambda>a b. if f a \<noteq> f b then f a < f b else g a < g b)" (is "strict_weak ?lt")
proof -
  have iff: "\<not> ?lt a b \<longleftrightarrow> f b < f a \<or> f b = f a \<and> g b \<le> g a" for a b
    by (cases "f a" "f b" rule: linorder_cases) auto
  have "\<not> ?lt b a" if "?lt a b" for a b using that by (auto split: if_splits)
  moreover have "\<not> ?lt a c" if "\<not> ?lt a b" "\<not> ?lt b c" for a b c
    using that unfolding iff by (elim disjE conjE) (auto dest: less_trans order_trans)
  ultimately show ?thesis unfolding strict_weak_def by (intro conjI allI impI)
qed

lemma strict_weak_converse_lex:
  fixes f :: "'a \<Rightarrow> 'b::linorder" and g :: "'a \<Rightarrow> 'c::linorder"
  shows "strict_weak (\<lambda>a b. if f a \<noteq> f b then f b < f a else g a < g b)" (is "strict_weak ?lt")
proof -
  have iff: "\<not> ?lt a b \<longleftrightarrow> f a < f b \<or> f b = f a \<and> g b \<le> g a" for a b
    by (cases "f a" "f b" rule: linorder_cases) auto
  have "\<not> ?lt b a" if "?lt a b" for a b using that by (auto split: if_splits)
  moreover have "\<not> ?lt a c" if "\<not> ?lt a b" "\<not> ?lt b c" for a b c
    using that unfolding iff by (elim disjE conjE) (auto dest: less_trans order_trans)
  ultimately show ?thesis unfolding strict_weak_def by (intro conjI allI impI)
qed

lemma strict_weak_orders: "strict_weak removalOrder" "strict_weak additionOrder" "strict_weak candidateOrder"
  unfolding removalOrder_def [abs_def] additionOrder_def [abs_def] candidateOrder_def [abs_def] split_beta prod.sel
  using strict_weak_lex [of val_uptime_score val_became_active_at]
    strict_weak_converse_lex [of val_uptime_score val_last_active_at]
    strict_weak_converse_lex [of "\<lambda>c. fst (snd c)" "\<lambda>c. snd (snd c)"]
  by (simp_all only:)

lemma std_sort_facts:
  assumes "sort_ok srt" "strict_weak lt"
  shows "set (std_sort srt lt xs) = set xs" "length (std_sort srt lt xs) = length xs"
    "distinct (map f (std_sort srt lt xs)) = distinct (map f xs)"
proof -
  note m = mset_std_sort [OF assms, of xs]
  show "set (std_sort srt lt xs) = set xs" using m by (rule mset_eq_setD)
  show "length (std_sort srt lt xs) = length xs" using m by (rule mset_eq_length)
  have "mset (map f (std_sort srt lt xs)) = mset (map f xs)" using m by simp
  then show "distinct (map f (std_sort srt lt xs)) = distinct (map f xs)" by (rule mset_eq_imp_distinct_iff)
qed

lemma set_sort_u64: "set (sort (xs :: u64 list)) = set xs" "distinct (sort xs) = distinct xs" "length (sort xs) = length xs"
  by simp_all

text \<open>An insertion sort meets the promise, so it can be met.\<close>

fun insert_by :: "('a \<Rightarrow> 'a \<Rightarrow> bool) \<Rightarrow> 'a \<Rightarrow> 'a list \<Rightarrow> 'a list" where
  "insert_by lt x [] = [x]"
| "insert_by lt x (y # ys) = (if lt y x then y # insert_by lt x ys else x # y # ys)"

definition insertion_sort :: "('a \<Rightarrow> 'a \<Rightarrow> bool) \<Rightarrow> 'a list \<Rightarrow> 'a list" where
  "insertion_sort lt xs = foldr (insert_by lt) xs []"

lemma mset_insert_by: "mset (insert_by lt x ys) = add_mset x (mset ys)"
  by (induction ys) auto

lemma set_insert_by: "set (insert_by lt x ys) = insert x (set ys)"
  using mset_insert_by [of lt x ys] by (metis set_mset_add_mset_insert set_mset_mset)

lemma sorted_insert_by:
  assumes "strict_weak lt" "sorted_wrt (\<lambda>a b. \<not> lt b a) ys"
  shows "sorted_wrt (\<lambda>a b. \<not> lt b a) (insert_by lt x ys)"
  using assms(2)
proof (induction ys)
  case (Cons y ys)
  show ?case
  proof (cases "lt y x")
    case True
    then have "\<not> lt x y" using assms(1) [unfolded strict_weak_def, THEN conjunct1, rule_format] by simp
    then show ?thesis using True Cons by (auto simp: set_insert_by)
  next
    case False
    have "\<not> lt z x" if "z \<in> set ys" for z
    proof -
      have "\<not> lt z y" using that Cons.prems by simp
      then show ?thesis
        using False by (rule assms(1) [unfolded strict_weak_def, THEN conjunct2, rule_format])
    qed
    then show ?thesis using False Cons.prems by auto
  qed
qed simp

lemma mset_insertion_sort: "mset (insertion_sort lt xs) = mset xs"
  by (induction xs) (simp_all add: insertion_sort_def mset_insert_by)

lemma sorted_insertion_sort: "strict_weak lt \<Longrightarrow> sorted_wrt (\<lambda>a b. \<not> lt b a) (insertion_sort lt xs)"
  by (induction xs) (simp_all add: insertion_sort_def sorted_insert_by)

lemma sort_ok_insertion: "sort_ok insertion_sort"
  unfolding sort_ok_def
proof (intro allI impI conjI mset_insertion_sort sorted_insertion_sort)
  fix lt :: "nat \<Rightarrow> nat \<Rightarrow> bool"
  assume "\<forall>i j. lt i j \<longrightarrow> \<not> lt j i" "\<forall>i j k. \<not> lt i j \<longrightarrow> \<not> lt j k \<longrightarrow> \<not> lt i k"
  then show "strict_weak lt" unfolding strict_weak_def by (rule conjI)
qed

section \<open>Registries\<close>

definition live_ids :: "validator_info list \<Rightarrow> id list" where
  "live_ids vs = filter (\<lambda>i. i \<noteq> INVALID_ID) (map val_id vs)"

definition registry_ok :: "validator_registry \<Rightarrow> bool" where
  "registry_ok reg \<longleftrightarrow> distinct (live_ids (reg_validators reg)) \<and> distinct (reg_active_set reg) \<and>
     INVALID_ID \<notin> set (reg_active_set reg) \<and>
     set (reg_active_set reg) = val_id ` {v \<in> set (reg_validators reg). val_id v \<noteq> INVALID_ID \<and> val_is_active v}"

lemma find_live:
  assumes "distinct (live_ids vs)" "v \<in> set vs" "val_id v \<noteq> INVALID_ID"
  shows "find_validator vs (val_id v) = Some v"
  using assms
proof (induction vs)
  case (Cons w vs)
  show ?case
  proof (cases "v = w")
    case False
    then have "v \<in> set vs" using Cons.prems by simp
    then have "val_id w \<noteq> val_id v" using Cons.prems by (force simp: live_ids_def)
    then show ?thesis using Cons \<open>v \<in> set vs\<close> by (auto simp: live_ids_def split: if_splits)
  qed simp
qed simp

lemma update_validator_map:
  assumes "distinct (live_ids vs)" "vid \<noteq> INVALID_ID"
  shows "update_validator vid f vs = map (\<lambda>v. if val_id v = vid then f v else v) vs"
  using assms(1)
proof (induction vs)
  case (Cons w vs)
  show ?case
  proof (cases "val_id w = vid")
    case True
    then have "vid \<notin> val_id ` set vs" using Cons.prems assms(2) by (auto simp: live_ids_def)
    then have "map (\<lambda>v. if val_id v = vid then f v else v) vs = vs" by (intro map_idI) auto
    then show ?thesis using True by simp
  next
    case False
    then show ?thesis using Cons by (auto simp: live_ids_def split: if_splits)
  qed
qed simp

definition set_flags :: "(validator_info \<Rightarrow> validator_info) \<Rightarrow> id set \<Rightarrow> validator_info list \<Rightarrow> validator_info list" where
  "set_flags f S vs = map (\<lambda>v. if val_id v \<in> S then f v else v) vs"

lemma set_flags_ids: "(\<And>v. val_id (f v) = val_id v) \<Longrightarrow> map val_id (set_flags f S vs) = map val_id vs"
  by (simp add: set_flags_def)

lemma set_flags_step:
  assumes "\<And>v. val_id (f v) = val_id v" "\<And>v. f (f v) = f v"
  shows "set_flags f {x} (set_flags f S vs) = set_flags f (insert x S) vs"
  by (auto simp: set_flags_def assms)

lemma set_flags_none: "x \<notin> val_id ` set vs \<Longrightarrow> set_flags f {x} vs = vs"
  unfolding set_flags_def by (intro map_idI) auto

lemma foldl_deactivate:
  assumes "distinct (live_ids (reg_validators reg))" "INVALID_ID \<notin> set xs"
  shows "foldl (deactivate h) reg xs = reg\<lparr>reg_validators :=
    set_flags (\<lambda>v. v\<lparr>val_is_active := False, val_last_active_at := h\<rparr>) (set xs) (reg_validators reg)\<rparr>"
  using assms(2)
proof (induction xs rule: rev_induct)
  case Nil
  show ?case by (simp add: set_flags_def)
next
  case (snoc x xs)
  let ?f = "\<lambda>v. v\<lparr>val_is_active := False, val_last_active_at := h\<rparr>"
  let ?vs = "set_flags ?f (set xs) (reg_validators reg)"
  have ids: "map val_id ?vs = map val_id (reg_validators reg)" by (rule set_flags_ids) simp
  then have d: "distinct (live_ids ?vs)" using assms(1) by (simp add: live_ids_def)
  have x: "x \<noteq> INVALID_ID" using snoc.prems by auto
  have step: "set_flags ?f {x} ?vs = set_flags ?f (insert x (set xs)) (reg_validators reg)"
    by (rule set_flags_step) simp_all
  have "deactivate h (reg\<lparr>reg_validators := ?vs\<rparr>) x = reg\<lparr>reg_validators := set_flags ?f {x} ?vs\<rparr>"
  proof (cases "find_validator ?vs x")
    case None
    then have "set_flags ?f {x} ?vs = ?vs" by (intro set_flags_none) (simp add: find_validator_None)
    then show ?thesis using None x by (simp add: deactivate_def ValidatorRegistry_find_def)
  next
    case (Some w)
    then show ?thesis using x update_validator_map [OF d x, of ?f]
      by (simp add: deactivate_def ValidatorRegistry_find_def set_flags_def)
  qed
  then show ?case using snoc step by simp
qed

lemma foldl_activate:
  assumes "distinct (live_ids (reg_validators reg))" "INVALID_ID \<notin> set xs"
    and "set xs \<subseteq> val_id ` set (reg_validators reg)"
  shows "foldl (activate h) reg xs = reg\<lparr>reg_validators :=
    set_flags (\<lambda>v. v\<lparr>val_is_active := True, val_became_active_at := h\<rparr>) (set xs) (reg_validators reg),
    reg_active_set := reg_active_set reg @ xs\<rparr>"
  using assms(2,3)
proof (induction xs rule: rev_induct)
  case Nil
  show ?case by (simp add: set_flags_def)
next
  case (snoc x xs)
  let ?f = "\<lambda>v. v\<lparr>val_is_active := True, val_became_active_at := h\<rparr>"
  let ?vs = "set_flags ?f (set xs) (reg_validators reg)"
  have ids: "map val_id ?vs = map val_id (reg_validators reg)" by (rule set_flags_ids) simp
  then have d: "distinct (live_ids ?vs)" using assms(1) by (simp add: live_ids_def)
  have x: "x \<noteq> INVALID_ID" "x \<in> val_id ` set ?vs"
    using snoc.prems arg_cong [OF ids, of set] by auto
  have step: "set_flags ?f {x} ?vs = set_flags ?f (insert x (set xs)) (reg_validators reg)"
    by (rule set_flags_step) simp_all
  obtain w where "find_validator ?vs x = Some w"
    using x(2) find_validator_None [of ?vs x] by (cases "find_validator ?vs x") auto
  then have "activate h (reg\<lparr>reg_validators := ?vs, reg_active_set := reg_active_set reg @ xs\<rparr>) x
      = reg\<lparr>reg_validators := set_flags ?f {x} ?vs, reg_active_set := reg_active_set reg @ xs @ [x]\<rparr>"
    using x update_validator_map [OF d x(1), of ?f]
    by (simp add: activate_def ValidatorRegistry_find_def set_flags_def)
  then show ?case using snoc step by simp
qed

text \<open>Swapping validators in and out keeps a registry in order.\<close>

lemma registry_ids: "registry_ok reg \<Longrightarrow> set (reg_active_set reg) \<subseteq> val_id ` set (reg_validators reg)"
  by (auto simp: registry_ok_def)

lemma swap_active_eq:
  assumes "registry_ok reg" "set removed \<subseteq> set (reg_active_set reg)" "INVALID_ID \<notin> set added"
    and "set added \<subseteq> val_id ` set (reg_validators reg)"
  shows "swap_active removed added h reg = reg\<lparr>reg_validators :=
      set_flags (\<lambda>v. v\<lparr>val_is_active := True, val_became_active_at := h\<rparr>) (set added)
        (set_flags (\<lambda>v. v\<lparr>val_is_active := False, val_last_active_at := h\<rparr>) (set removed) (reg_validators reg)),
      reg_active_set := sort (filter (\<lambda>i. i \<notin> set removed) (reg_active_set reg) @ added)\<rparr>"
proof -
  let ?D = "\<lambda>v. v\<lparr>val_is_active := False, val_last_active_at := h\<rparr>"
  let ?vs = "set_flags ?D (set removed) (reg_validators reg)"
  have inv: "INVALID_ID \<notin> set removed" and d: "distinct (live_ids (reg_validators reg))"
    using assms(1,2) by (auto simp: registry_ok_def)
  have ids: "map val_id ?vs = map val_id (reg_validators reg)" by (rule set_flags_ids) simp
  then have d': "distinct (live_ids ?vs)" using d by (simp add: live_ids_def)
  have "val_id ` set ?vs = val_id ` set (reg_validators reg)"
    using arg_cong [OF ids, of set] by (simp only: set_map)
  then have sub: "set added \<subseteq> val_id ` set ?vs" using assms(4) by (simp only:)
  show ?thesis
    using foldl_deactivate [of "reg\<lparr>reg_active_set := filter (\<lambda>i. i \<notin> set removed) (reg_active_set reg)\<rparr>" removed h]
      foldl_activate [of "reg\<lparr>reg_active_set := filter (\<lambda>i. i \<notin> set removed) (reg_active_set reg), reg_validators := ?vs\<rparr>" added h]
      d d' inv assms(3) sub
    by (simp add: swap_active_def Let_def)
qed

lemma image_map_filter:
  "(\<And>v. k (F v) = k v) \<Longrightarrow> k ` {w \<in> set (map F vs). P (k w) \<and> Q w} = k ` {v \<in> set vs. P (k v) \<and> Q (F v)}"
  by (auto simp: image_iff) (metis imageI)+

lemma swap_active_ok:
  fixes h :: u64
  assumes "registry_ok reg" "set removed \<subseteq> set (reg_active_set reg)" "distinct added"
    and "set added \<subseteq> val_id ` {v \<in> set (reg_validators reg). val_id v \<noteq> INVALID_ID \<and> \<not> val_is_active v}"
  defines "reg' \<equiv> swap_active removed added h reg"
  shows "registry_ok reg'" "sorted (reg_active_set reg')"
    "set (reg_active_set reg') = set (reg_active_set reg) - set removed \<union> set added"
    "length (reg_active_set reg') + card (set removed) = length (reg_active_set reg) + length added"
proof -
  let ?vs = "reg_validators reg" and ?act = "reg_active_set reg"
  have d: "distinct (live_ids ?vs)" and act: "distinct ?act" "INVALID_ID \<notin> set ?act"
    and flags: "set ?act = val_id ` {v \<in> set ?vs. val_id v \<noteq> INVALID_ID \<and> val_is_active v}"
    using assms(1) unfolding registry_ok_def by blast+
  have inv: "INVALID_ID \<notin> set added" and sub: "set added \<subseteq> val_id ` set ?vs" using assms(4) by auto
  have uniq: "v = w" if "v \<in> set ?vs" "w \<in> set ?vs" "val_id v = val_id w" "val_id v \<noteq> INVALID_ID" for v w
    using that find_live [OF d] by (metis option.inject)
  have disj: "set added \<inter> set ?act = {}"
    using assms(4) uniq unfolding flags by blast
  note eq = swap_active_eq [OF assms(1,2) inv sub, of h, folded reg'_def]
  show set': "set (reg_active_set reg') = set ?act - set removed \<union> set added"
    unfolding eq by auto
  have dist': "distinct (reg_active_set reg')" unfolding eq using act(1) assms(3) disj by auto
  show "sorted (reg_active_set reg')" unfolding eq by simp
  have "length (reg_active_set reg') = card (set (reg_active_set reg'))"
    using dist' by (simp add: distinct_card)
  also have "\<dots> = card (set ?act - set removed) + length added"
    unfolding set' using disj assms(3) by (subst card_Un_disjoint) (auto simp: distinct_card)
  also have "card (set ?act - set removed) = length ?act - card (set removed)"
    using assms(2) act(1) by (simp add: card_Diff_subset distinct_card)
  finally show "length (reg_active_set reg') + card (set removed) = length ?act + length added"
    using card_mono [OF finite_set assms(2)] act(1) by (simp add: distinct_card)
  have ids: "map val_id (reg_validators reg') = map val_id ?vs"
    unfolding eq by (simp add: set_flags_def)
  have "val_id ` {v \<in> set (reg_validators reg'). val_id v \<noteq> INVALID_ID \<and> val_is_active v}
      = set ?act - set removed \<union> set added"
  proof -
    let ?F = "\<lambda>v. (\<lambda>v. if val_id v \<in> set added then v\<lparr>val_is_active := True, val_became_active_at := h\<rparr> else v)
      (if val_id v \<in> set removed then v\<lparr>val_is_active := False, val_last_active_at := h\<rparr> else v)"
    have F: "val_id (?F v) = val_id v" "val_is_active (?F v) = (val_id v \<in> set added \<or> val_id v \<notin> set removed \<and> val_is_active v)"
      for v by simp_all
    have vs': "reg_validators reg' = map ?F ?vs" unfolding eq by (simp add: set_flags_def)
    note img = image_map_filter [of val_id ?F ?vs "\<lambda>i. i \<noteq> INVALID_ID" val_is_active, OF F(1), folded vs', unfolded F(2)]
    have "x \<in> val_id ` {v \<in> set ?vs. val_id v \<noteq> INVALID_ID \<and> (val_id v \<in> set added \<or> val_id v \<notin> set removed \<and> val_is_active v)}"
      if "x \<in> set added" for x
    proof -
      from that sub obtain v where v: "v \<in> set ?vs" "x = val_id v" by auto
      then have "val_id v \<noteq> INVALID_ID" using that inv by auto
      then show ?thesis using v that by blast
    qed
    then show ?thesis unfolding img flags by blast
  qed
  then show "registry_ok reg'"
    unfolding registry_ok_def live_ids_def ids set' using d dist' act(2) inv by (simp add: live_ids_def)
qed

section \<open>Plans\<close>

lemma map_filter_ids:
  "(\<And>i. i \<in> set xs \<Longrightarrow> \<exists>v. f i = Some v \<and> val_id v = i) \<Longrightarrow> map val_id (List.map_filter f xs) = xs"
proof (induction xs)
  case (Cons x xs)
  then obtain v where "f x = Some v" "val_id v = x" by fastforce
  then show ?case using Cons by (simp add: map_filter_simps)
qed (simp add: map_filter_simps)

lemma registry_find_active:
  assumes "registry_ok reg" "i \<in> set (reg_active_set reg)"
  shows "\<exists>v. ValidatorRegistry_find reg i = Some v \<and> val_id v = i \<and> v \<in> set (reg_validators reg) \<and> val_is_active v"
proof -
  obtain v where v: "v \<in> set (reg_validators reg)" "val_id v = i" "val_is_active v" "i \<noteq> INVALID_ID"
    using assms by (auto simp: registry_ok_def)
  moreover have "distinct (live_ids (reg_validators reg))" using assms(1) by (simp add: registry_ok_def)
  ultimately show ?thesis using find_live [of "reg_validators reg" v] by (auto simp: ValidatorRegistry_find_def)
qed

lemma registry_find_ids:
  "registry_ok reg \<Longrightarrow> map val_id (List.map_filter (ValidatorRegistry_find reg) (reg_active_set reg)) = reg_active_set reg"
  using registry_find_active by (intro map_filter_ids) blast

lemma removable_facts:
  assumes "registry_ok reg"
  shows "distinct (map val_id (removable reg))" "val_id ` set (removable reg) \<subseteq> set (reg_active_set reg)"
    "v \<in> set (reg_validators reg) \<Longrightarrow> val_is_seed v \<Longrightarrow> val_id v \<notin> val_id ` set (removable reg)"
proof -
  let ?ys = "List.map_filter (ValidatorRegistry_find reg) (reg_active_set reg)"
  have ids: "map val_id ?ys = reg_active_set reg" by (rule registry_find_ids [OF assms])
  have d: "distinct (live_ids (reg_validators reg))" and act: "distinct (reg_active_set reg)"
    "INVALID_ID \<notin> set (reg_active_set reg)"
    using assms unfolding registry_ok_def by blast+
  show "distinct (map val_id (removable reg))"
    unfolding removable_def using act(1) ids by (metis distinct_map_filter)
  have sub: "val_id ` set ?ys = set (reg_active_set reg)" using arg_cong [OF ids, of set] by simp
  then show "val_id ` set (removable reg) \<subseteq> set (reg_active_set reg)" unfolding removable_def by auto
  show "val_id v \<notin> val_id ` set (removable reg)" if v: "v \<in> set (reg_validators reg)" "val_is_seed v"
  proof
    assume "val_id v \<in> val_id ` set (removable reg)"
    then obtain w where w: "w \<in> set ?ys" "\<not> val_is_seed w" "val_id w = val_id v"
      unfolding removable_def by auto
    then obtain i where i: "i \<in> set (reg_active_set reg)" "ValidatorRegistry_find reg i = Some w"
      by (auto simp: List.map_filter_def)
    then have "val_id w = i" "w \<in> set (reg_validators reg)"
      using registry_find_active [OF assms i(1)] by auto
    moreover have n: "val_id w \<noteq> INVALID_ID" using calculation(1) i(1) act(2) by metis
    ultimately have fw: "find_validator (reg_validators reg) (val_id w) = Some w" using find_live [OF d, of w] by simp
    have "find_validator (reg_validators reg) (val_id v) = Some v"
      by (rule find_live [OF d v(1)]) (use w(3) n in argo)
    from trans [OF fw [unfolded w(3), symmetric] this] have "w = v" by (rule option.inject [THEN iffD1])
    then show False using w(2) v(2) by blast
  qed
qed

lemma distinct_live_filter:
  "distinct (live_ids vs) \<Longrightarrow> distinct (map val_id (filter (\<lambda>v. val_id v \<noteq> INVALID_ID \<and> P v) vs))"
  by (induction vs) (auto simp: live_ids_def split: if_splits)

lemma addable_facts:
  assumes "registry_ok reg"
  shows "distinct (map val_id (addable reg))"
    "val_id ` set (addable reg) \<subseteq> val_id ` {v \<in> set (reg_validators reg). val_id v \<noteq> INVALID_ID \<and> \<not> val_is_active v}"
  using assms distinct_live_filter [of "reg_validators reg" "\<lambda>v. \<not> val_is_active v \<and> canBeActive v"]
  by (auto simp: registry_ok_def addable_def)

lemma take_sorted_ids:
  assumes "sort_ok srt" "strict_weak lt" "distinct (map val_id xs)"
  shows "distinct (map val_id (take n (std_sort srt lt xs)))"
    "set (map val_id (take n (std_sort srt lt xs))) \<subseteq> val_id ` set xs"
    "length (map val_id (take n (std_sort srt lt xs))) = min n (length xs)"
    "card (set (map val_id (take n (std_sort srt lt xs)))) = min n (length xs)"
proof -
  show d: "distinct (map val_id (take n (std_sort srt lt xs)))"
    using std_sort_facts(3) [OF assms(1,2), of val_id xs] assms(3) by (simp add: distinct_take flip: take_map)
  show "set (map val_id (take n (std_sort srt lt xs))) \<subseteq> val_id ` set xs"
    using set_take_subset [of n "std_sort srt lt xs"] std_sort_facts(1) [OF assms(1,2), of xs] by auto
  show l: "length (map val_id (take n (std_sort srt lt xs))) = min n (length xs)"
    using std_sort_facts(2) [OF assms(1,2), of xs] by simp
  show "card (set (map val_id (take n (std_sort srt lt xs)))) = min n (length xs)"
    using distinct_card [OF d] l by simp
qed

section \<open>Rotation\<close>

lemma unat_bftQuorum:
  assumes "unat n < 2 ^ 62"
  shows "unat (bftQuorum n) = unat n * 2 div 3 + 1"
proof -
  have m: "unat (n * 2) = unat n * 2" using assms by (simp add: unat_word_ariths)
  then have "unat (n * 2 div 3) = unat n * 2 div 3" by (simp add: unat_div)
  then show ?thesis unfolding bftQuorum_def using assms
    by (subst unat_add_no_overflow) simp_all
qed

lemma rotation_count_bound:
  assumes "unat n < 2 ^ 62"
  shows "unat (computeRotationCount n) \<le> unat n - unat (bftQuorum n)"
proof (cases "n = 0 \<or> bftQuorum n \<ge> n")
  case True
  then show ?thesis by (auto simp: computeRotationCount_def Let_def)
next
  case False
  then have lt: "bftQuorum n < n" "n \<noteq> 0" by (simp_all add: not_le)
  then have sub: "unat (n - bftQuorum n) = unat n - unat (bftQuorum n)" by (intro unat_sub_le) simp
  have "computeRotationCount n \<le> n - bftQuorum n"
    using lt by (auto simp: computeRotationCount_def Let_def not_less)
  then show ?thesis using sub by (simp add: word_le_nat_alt)
qed

lemma target_range:
  "2 \<le> unat (plan_new_target_size (planRotation srt reg n))" "unat (plan_new_target_size (planRotation srt reg n)) \<le> 100"
proof -
  have "2 \<le> computeTargetActiveSetSize n \<and> computeTargetActiveSetSize n \<le> 100"
    by (simp add: computeTargetActiveSetSize_def Let_def ACTIVE_SET_MIN_def ACTIVE_SET_MAX_def not_less)
  moreover have "plan_new_target_size (planRotation srt reg n) =
      (if computeTargetActiveSetSize n < 2 then 2 else computeTargetActiveSetSize n)"
    unfolding planRotation_def Let_def SEED_NODES_COUNT_def by simp
  ultimately have "2 \<le> plan_new_target_size (planRotation srt reg n) \<and> plan_new_target_size (planRotation srt reg n) \<le> 100"
    by simp
  then show "2 \<le> unat (plan_new_target_size (planRotation srt reg n))"
    "unat (plan_new_target_size (planRotation srt reg n)) \<le> 100"
    by (simp_all add: word_le_nat_alt)
qed

lemma plan_shape:
  fixes reg :: validator_registry and n :: u64
  assumes "sort_ok srt" "registry_ok reg"
  defines "p \<equiv> planRotation srt reg n"
  shows "set (plan_to_remove p) \<subseteq> val_id ` set (removable reg)" "distinct (plan_to_add p)"
    "set (plan_to_add p) \<subseteq> val_id ` set (addable reg)"
proof -
  note rem = take_sorted_ids [OF assms(1) strict_weak_orders(1) removable_facts(1) [OF assms(2)]]
  note add = take_sorted_ids [OF assms(1) strict_weak_orders(2) addable_facts(1) [OF assms(2)]]
  show "set (plan_to_remove p) \<subseteq> val_id ` set (removable reg)" "distinct (plan_to_add p)"
    "set (plan_to_add p) \<subseteq> val_id ` set (addable reg)"
    unfolding p_def planRotation_def Let_def using rem add by (simp_all split: if_split)
qed

lemma plan_counts:
  fixes reg :: validator_registry and n :: u64
  assumes "sort_ok srt" "registry_ok reg" "length (reg_active_set reg) < 2 ^ 62"
  defines "p \<equiv> planRotation srt reg n" and "k \<equiv> length (reg_active_set reg)"
  shows "unat (plan_new_target_size p) < k \<Longrightarrow> plan_to_add p = [] \<and>
      card (set (plan_to_remove p)) = min (k - unat (plan_new_target_size p)) (length (removable reg))"
    "k < unat (plan_new_target_size p) \<Longrightarrow> plan_to_remove p = [] \<and>
      length (plan_to_add p) = min (unat (plan_new_target_size p) - k) (length (addable reg))"
    "k = unat (plan_new_target_size p) \<Longrightarrow> length (plan_to_add p) \<le> card (set (plan_to_remove p)) \<and>
      card (set (plan_to_remove p)) \<le> k - unat (bftQuorum (of_nat k))"
proof -
  note rem = take_sorted_ids [OF assms(1) strict_weak_orders(1) removable_facts(1) [OF assms(2)]]
  note add = take_sorted_ids [OF assms(1) strict_weak_orders(2) addable_facts(1) [OF assms(2)]]
  let ?t = "plan_new_target_size p" and ?s = "of_nat k :: u64"
  have s: "unat ?s = k" using assms(3) by (simp add: k_def unat_of_nat_small)
  have p: "p = (if ?t < ?s then \<lparr>plan_to_remove = map val_id (take (unat (?s - ?t)) (std_sort srt removalOrder (removable reg))),
        plan_to_add = [], plan_new_target_size = ?t\<rparr>
      else if ?t > ?s then \<lparr>plan_to_remove = [],
        plan_to_add = map val_id (take (unat (?t - ?s)) (std_sort srt additionOrder (addable reg))), plan_new_target_size = ?t\<rparr>
      else \<lparr>plan_to_remove = map val_id (take (unat (computeRotationCount ?s)) (std_sort srt removalOrder (removable reg))),
        plan_to_add = map val_id (take (length (map val_id (take (unat (computeRotationCount ?s)) (std_sort srt removalOrder (removable reg)))))
          (std_sort srt additionOrder (addable reg))), plan_new_target_size = ?t\<rparr>)"
    unfolding p_def k_def planRotation_def Let_def by simp
  show "plan_to_add p = [] \<and> card (set (plan_to_remove p)) = min (k - unat ?t) (length (removable reg))"
    if lt: "unat ?t < k"
  proof -
    have "?t < ?s" using lt s by (simp add: word_less_nat_alt)
    then have "unat (?s - ?t) = k - unat ?t" using s by (simp add: unat_sub_le)
    then show ?thesis using \<open>?t < ?s\<close> rem(4) [of "unat (?s - ?t)"] by (subst (1 2) p) simp
  qed
  show "plan_to_remove p = [] \<and> length (plan_to_add p) = min (unat ?t - k) (length (addable reg))"
    if lt: "k < unat ?t"
  proof -
    have "?s < ?t" using lt s by (simp add: word_less_nat_alt)
    then have "unat (?t - ?s) = unat ?t - k" "\<not> ?t < ?s" using s by (simp_all add: unat_sub_le)
    then show ?thesis using \<open>?s < ?t\<close> add(3) [of "unat (?t - ?s)"] by (subst (1 2) p) simp
  qed
  show "length (plan_to_add p) \<le> card (set (plan_to_remove p)) \<and> card (set (plan_to_remove p)) \<le> k - unat (bftQuorum ?s)"
    if eq: "k = unat ?t"
  proof -
    have "?s = ?t" using eq by simp
    have "unat (computeRotationCount ?s) \<le> k - unat (bftQuorum ?s)"
      using rotation_count_bound [of ?s] s assms(3) by (simp add: k_def)
    then show ?thesis using \<open>?s = ?t\<close> rem(3,4) [of "unat (computeRotationCount ?s)"] add(3)
      by (subst (1 2 3) p) (simp add: min_le_iff_disj)
  qed
qed

text \<open>The whole step: plan and apply.\<close>

lemma registry_ok_sizes [simp]:
  "registry_ok (reg\<lparr>reg_last_rotation_height := a, reg_target_size := b\<rparr>) = registry_ok reg"
  unfolding registry_ok_def by simp

lemma rotation_step:
  fixes reg :: validator_registry and n h :: u64
  assumes "sort_ok srt" "registry_ok reg" "length (reg_active_set reg) < 2 ^ 62"
  defines "p \<equiv> planRotation srt reg n" and "act \<equiv> reg_active_set reg"
    and "act' \<equiv> reg_active_set (applyRotation reg (planRotation srt reg n) h)"
  shows "registry_ok (applyRotation reg p h)" "sorted act'"
    "v \<in> set (reg_validators reg) \<Longrightarrow> val_is_seed v \<Longrightarrow> val_id v \<in> set act \<Longrightarrow> val_id v \<in> set act'"
    "set act' - set act \<subseteq> val_id ` set (addable reg)"
    "length act' + card (set (plan_to_remove p)) = length act + length (plan_to_add p)"
    "length act \<le> card (set act \<inter> set act') + card (set (plan_to_remove p))"
proof -
  note shape = plan_shape [OF assms(1,2), of n, folded p_def]
  have rem: "set (plan_to_remove p) \<subseteq> set act" using shape(1) removable_facts(2) [OF assms(2)] unfolding act_def by blast
  note sw = swap_active_ok [OF assms(2) rem [unfolded act_def] shape(2) subset_trans [OF shape(3) addable_facts(2) [OF assms(2)]], of h]
  have act': "act' = reg_active_set (swap_active (plan_to_remove p) (plan_to_add p) h reg)"
    unfolding act'_def applyRotation_def p_def by simp
  show "registry_ok (applyRotation reg p h)"
    using sw(1) unfolding applyRotation_def by simp
  show "sorted act'" unfolding act' by (rule sw(2))
  have set': "set act' = set act - set (plan_to_remove p) \<union> set (plan_to_add p)" unfolding act' act_def by (rule sw(3))
  show "val_id v \<in> set act'" if "v \<in> set (reg_validators reg)" "val_is_seed v" "val_id v \<in> set act"
    using removable_facts(3) [OF assms(2) that(1,2)] shape(1) that(3) unfolding set' by blast
  show "set act' - set act \<subseteq> val_id ` set (addable reg)" using shape(3) unfolding set' by blast
  show "length act' + card (set (plan_to_remove p)) = length act + length (plan_to_add p)"
    unfolding act' act_def by (rule sw(4))
  have "distinct act" using assms(2) unfolding act_def registry_ok_def by blast
  then have "length act = card (set act)" by (simp add: distinct_card)
  also have "\<dots> \<le> card (set act \<inter> set act' \<union> set (plan_to_remove p))"
    by (rule card_mono) (auto simp: set')
  also have "\<dots> \<le> card (set act \<inter> set act') + card (set (plan_to_remove p))" by (rule card_Un_le)
  finally show "length act \<le> card (set act \<inter> set act') + card (set (plan_to_remove p))" .
qed

end
