(* ===== verification/Quorum_Laws.thy ===== *)
theory Quorum_Laws
  imports Block_Processor Block_Laws Rotation_Laws
begin

text \<open>
  What an accepted quorum, timeout certificate or equivocation proof says about who signed what, and
  the turns of the proposers.
\<close>

section \<open>Quorums\<close>

lemma unat_ucast_u32_u64 [simp]: "unat (ucast (r :: u32) :: u64) = unat r"
proof -
  have "unat r < 2 ^ 64" by (rule less_trans [OF unat_u32_less]) simp
  then show ?thesis by (simp add: unsigned_ucast_eq take_bit_eq_mod)
qed

definition signers :: "block \<Rightarrow> nat set" where
  "signers b = (\<lambda>s. unat (vs_signer_index s)) ` set (blk_quorum_signatures b)"

lemma check_signers_sound:
  "check_signers n ss seen = None \<Longrightarrow> length seen = n \<Longrightarrow>
     distinct (map (\<lambda>s. unat (vs_signer_index s)) ss) \<and>
     (\<forall>s \<in> set ss. unat (vs_signer_index s) < n \<and> \<not> seen ! unat (vs_signer_index s))"
proof (induction ss arbitrary: seen)
  case (Cons s ss)
  let ?i = "unat (vs_signer_index s)"
  have i: "?i < n" "\<not> seen ! ?i" and rest: "check_signers n ss (seen[?i := True]) = None"
    using Cons.prems(1) by (auto split: if_splits)
  have IH: "distinct (map (\<lambda>s. unat (vs_signer_index s)) ss)"
      "\<forall>t \<in> set ss. unat (vs_signer_index t) < n \<and> \<not> seen[?i := True] ! unat (vs_signer_index t)"
    using Cons.IH [OF rest] Cons.prems(2) by simp_all
  have new: "unat (vs_signer_index t) \<noteq> ?i" "\<not> seen ! unat (vs_signer_index t)" if "t \<in> set ss" for t
    using IH(2) that i(1) Cons.prems(2) by (auto simp: nth_list_update split: if_splits)
  have "?i \<notin> set (map (\<lambda>s. unat (vs_signer_index s)) ss)"
    unfolding set_map
  proof
    assume "?i \<in> (\<lambda>s. unat (vs_signer_index s)) ` set ss"
    then obtain t where "t \<in> set ss" "?i = unat (vs_signer_index t)" by (rule imageE)
    then show False using new(1) [of t] by simp
  qed
  then show ?case using IH i new(2) by simp
qed simp

lemma check_signatures_sound:
  "check_signatures sig_ok h height active_set d ss = None \<Longrightarrow> s \<in> set ss \<Longrightarrow>
     \<exists>pk. validatorKeyAtHeight (active_set ! unat (vs_signer_index s)) height d = Some pk \<and> sig_ok h pk (vs_signature s)"
  by (induction ss) (auto simp: Let_def split: option.splits if_splits)

abbreviation commit_hash :: "(u32 \<Rightarrow> nat \<Rightarrow> u32) \<Rightarrow> block \<Rightarrow> db \<Rightarrow> hash" where
  "commit_hash shr b d \<equiv> voteSigningHash shr (db_hash d) (hdr_height (blk_header b))
     (ucast (hdr_commit_round (blk_header b))) False (Block_hash (db_hash d) b)"

lemma checkQuorum_sound:
  assumes "checkQuorum shr sig_ok b active_set d = None" "length active_set < 2 ^ 62"
  shows "length active_set * 2 div 3 + 1 \<le> card (signers b)" "signers b \<subseteq> {..<length active_set}"
    "i \<in> signers b \<Longrightarrow> \<exists>pk s. validatorKeyAtHeight (active_set ! i) (hdr_height (blk_header b)) d = Some pk \<and>
       sig_ok (commit_hash shr b d) pk s"
proof -
  let ?n = "length active_set" and ?ss = "blk_quorum_signatures b"
  have many: "unat (bftQuorum (of_nat ?n)) \<le> length ?ss"
    and signers: "check_signers ?n ?ss (replicate ?n False) = None"
    and sigs: "check_signatures sig_ok (commit_hash shr b d) (hdr_height (blk_header b)) active_set d ?ss = None"
    using assms(1) by (auto simp: checkQuorum_def Let_def split: if_splits option.splits)
  have n: "unat (of_nat ?n :: u64) = ?n" using assms(2) by (intro unat_of_nat_small) simp
  have dist: "distinct (map (\<lambda>s. unat (vs_signer_index s)) ?ss)" and range: "\<forall>s \<in> set ?ss. unat (vs_signer_index s) < ?n"
    using check_signers_sound [OF signers] by simp_all
  have "card (signers b) = length ?ss" unfolding signers_def using distinct_card [OF dist] by simp
  then show "?n * 2 div 3 + 1 \<le> card (signers b)"
    using many unat_bftQuorum [of "of_nat ?n"] assms(2) by (simp add: n)
  show "signers b \<subseteq> {..<?n}" using range by (auto simp: signers_def)
  show "\<exists>pk s. validatorKeyAtHeight (active_set ! i) (hdr_height (blk_header b)) d = Some pk \<and> sig_ok (commit_hash shr b d) pk s"
    if "i \<in> signers b"
  proof -
    from that obtain s where "s \<in> set ?ss" "i = unat (vs_signer_index s)" by (auto simp: signers_def)
    with check_signatures_sound [OF sigs, of s] show ?thesis by blast
  qed
qed

text \<open>Two sets of more than two thirds have more than a third in common.\<close>

lemma quorum_overlap:
  assumes "A \<subseteq> {..<n}" "B \<subseteq> {..<n}" "n * 2 div 3 + 1 \<le> card A" "n * 2 div 3 + 1 \<le> card B"
  shows "n < 3 * card (A \<inter> B)"
proof -
  have "finite A" "finite B" using assms(1,2) finite_subset by auto
  then have "card A + card B = card (A \<union> B) + card (A \<inter> B)" by (rule card_Un_Int)
  moreover have "card (A \<union> B) \<le> n" using assms(1,2) card_mono [of "{..<n}" "A \<union> B"] by simp
  ultimately show ?thesis using assms(3,4) by linarith
qed

text \<open>A set of positions that is larger than a set of validators contains one outside it.\<close>

lemma honest_position:
  assumes "distinct xs" "I \<subseteq> {..<length xs}" "finite B" "card B < card I"
  shows "\<exists>i \<in> I. xs ! i \<notin> B"
proof (rule ccontr)
  assume "\<not> ?thesis"
  then have sub: "(\<lambda>i. xs ! i) ` I \<subseteq> B" by blast
  have "inj_on (\<lambda>i. xs ! i) I"
    using assms(1,2) by (intro inj_onI) (metis lessThan_iff nth_eq_iff_index_eq subsetD)
  then have "card I \<le> card B" using card_inj_on_le [OF _ sub assms(3)] by blast
  then show False using assms(4) by simp
qed

section \<open>Timeout certificates\<close>

lemma count_timeout_votes_sound:
  assumes "count_timeout_votes sig_ok h committed ch cr lookup required tvs seen counted = Inr c"
    and "length seen = length committed"
  shows "\<exists>S. S \<subseteq> {i. i < length committed \<and> \<not> seen ! i} \<and> card S + counted = c \<and>
    (\<forall>i \<in> S. \<exists>v s. lookup (committed ! i) = Some v \<and> sig_ok h (effectiveConsensusKey v) s)"
  using assms
proof (induction tvs arbitrary: seen counted)
  case Nil
  then show ?case by (intro exI [of _ "{}"]) simp
next
  case (Cons tv tvs)
  let ?i = "unat (tv_signer_index tv)"
  have i: "?i < length committed" "\<not> seen ! ?i" using Cons.prems(1) by (auto split: if_splits)
  obtain v where v: "lookup (committed ! ?i) = Some v" "sig_ok h (effectiveConsensusKey v) (tv_signature tv)"
    using Cons.prems(1) by (auto split: if_splits option.splits)
  show ?case
  proof (cases "counted + 1 \<ge> required")
    case True
    then have "c = counted + 1" using Cons.prems(1) i v by (auto split: if_splits)
    then show ?thesis using i v by (intro exI [of _ "{?i}"]) auto
  next
    case False
    then have "count_timeout_votes sig_ok h committed ch cr lookup required tvs (seen[?i := True]) (counted + 1) = Inr c"
      using Cons.prems(1) i v by (auto split: if_splits)
    from Cons.IH [OF this] Cons.prems(2) obtain S where
      S: "S \<subseteq> {j. j < length committed \<and> \<not> seen[?i := True] ! j}" "card S + (counted + 1) = c"
        "\<forall>j \<in> S. \<exists>v s. lookup (committed ! j) = Some v \<and> sig_ok h (effectiveConsensusKey v) s" by auto
    have sub: "S \<subseteq> {j. j < length committed \<and> \<not> seen ! j}" "?i \<notin> S" "finite S"
    proof -
      show "?i \<notin> S" using S(1) i(1) Cons.prems(2) by auto
      have "\<not> seen ! j" if "\<not> seen[?i := True] ! j" for j
        using that i(1) Cons.prems(2) by (cases "j = ?i") simp_all
      then show "S \<subseteq> {j. j < length committed \<and> \<not> seen ! j}" using S(1) by blast
      then show "finite S" by (rule finite_subset) simp
    qed
    then show ?thesis using S(2,3) i v by (intro exI [of _ "insert ?i S"]) auto
  qed
qed

lemma verifyTimeoutCertificate_sound:
  assumes "verifyTimeoutCertificate sig_ok H cert committed ch cr lookup = None"
  shows "\<exists>S. S \<subseteq> {..<length committed} \<and> (length committed - 1) div 3 + 1 \<le> card S \<and>
    (\<forall>i \<in> S. \<exists>v s. lookup (committed ! i) = Some v \<and>
      sig_ok (timeoutVoteSigningHash H ch cr) (effectiveConsensusKey v) s)"
    "4 \<le> length committed" "30 \<le> unat cr"
proof -
  let ?n = "length committed"
  have four: "4 \<le> ?n" using assms by (auto simp: verifyTimeoutCertificate_def Let_def split: if_splits)
  then show "4 \<le> length committed" .
  have "\<not> ucast cr < EMERGENCY_ROTATION_ROUNDS"
    using assms four by (auto simp: verifyTimeoutCertificate_def Let_def split: if_splits)
  then show "30 \<le> unat cr"
    by (simp add: EMERGENCY_ROTATION_ROUNDS_def word_less_nat_alt not_less)
  obtain c where c: "count_timeout_votes sig_ok (timeoutVoteSigningHash H ch cr) committed ch cr lookup ((?n - 1) div 3 + 1)
      cert (replicate ?n False) 0 = Inr c" "(?n - 1) div 3 + 1 \<le> c"
    using assms by (auto simp: verifyTimeoutCertificate_def Let_def split: if_splits sum.splits)
  from count_timeout_votes_sound [OF c(1)] c(2)
  show "\<exists>S. S \<subseteq> {..<?n} \<and> (?n - 1) div 3 + 1 \<le> card S \<and>
    (\<forall>i \<in> S. \<exists>v s. lookup (committed ! i) = Some v \<and> sig_ok (timeoutVoteSigningHash H ch cr) (effectiveConsensusKey v) s)"
    by (auto simp: subset_iff)
qed

section \<open>Proposers\<close>

lemma mod_turn:
  fixes a n i :: nat
  assumes "i < n"
  shows "\<exists>k < n. (a + k) mod n = i"
proof -
  let ?k = "(i + n - a mod n) mod n"
  have "a mod n \<le> n" using assms by (simp add: less_imp_le)
  then have "(a + ?k) mod n = (a mod n + (i + n - a mod n)) mod n"
    by (metis mod_add_left_eq mod_add_right_eq)
  also have "a mod n + (i + n - a mod n) = i + n" using \<open>a mod n \<le> n\<close> by linarith
  also have "(i + n) mod n = i" using assms by simp
  finally show ?thesis using assms by (intro exI [of _ ?k]) simp
qed

lemma proposer_turn:
  assumes "i < length active_set" "unat h + unat r + length active_set < 2 ^ 64" "unat r + length active_set < 2 ^ 32"
  shows "\<exists>k < length active_set. proposerFor h (r + of_nat k) active_set = active_set ! i"
proof -
  obtain k where k: "k < length active_set" "(unat h + unat r + k) mod length active_set = i"
    using mod_turn [OF assms(1)] by blast
  have "unat (of_nat k :: u32) = k" using k(1) assms(3) by (intro unat_of_nat_small) simp
  then have rk: "unat (r + of_nat k) = unat r + k" using k(1) assms(3) by (subst unat_add_no_overflow) simp_all
  have "unat (ucast (r + of_nat k) :: u64) = unat r + k" using rk by simp
  then have "unat (h + ucast (r + of_nat k)) = unat h + unat r + k"
    using k(1) assms(2) by (subst unat_add_no_overflow) simp_all
  then show ?thesis using k assms(1) by (intro exI [of _ k]) (auto simp: proposerFor_def proposerIndex_def)
qed

end
