(* ===== verification/Reward_Laws.thy ===== *)
theory Reward_Laws
  imports Block_Rewards Funds
begin

text \<open>
  The coins a block issues: what the validators are paid and what goes to the pot add up to the block
  reward, and what the stakers are paid at an epoch boundary is at most what was set aside for them.
\<close>

section \<open>Reading validators and global values\<close>

lemma getValidator_leaf:
  "getValidator vid d = (case leaf (KValidator vid) d of None \<Rightarrow> None | Some v \<Rightarrow> ValidatorInfo_deserializeState v)"
  by (simp add: getValidator_def smt_typed_alt leaf_def Keys_skey)

lemma readU64Global_eq: "readU64Global name d = getGlobalU64 name d"
  by (simp add: readU64Global_def getGlobalU64_def readU64_def split: option.split)

lemma writeU64Global_eq: "writeU64Global name v d = putGlobal name (writeU64 v) d"
  by (simp add: writeU64Global_def writeU64_def)

lemma readU64Global_leaf: "readU64Global name d = decode_u64 (leaf (KGlobal name) d)"
  by (simp add: readU64Global_eq getGlobalU64_smt leaf_def)

lemma putMeta_frame [simp]:
  "leaf k (putMetaU64 n v d) = leaf k d" "db_hash (putMetaU64 n v d) = db_hash d" "keys_ok K d \<Longrightarrow> keys_ok K (putMetaU64 n v d)"
  "smt_get h (putMetaU64 n v d) = smt_get h d"
  by (auto simp: leaf_def putMetaU64_def putMetaImpl_def Txn_put_def smt_get_def keys_ok_def db_ok_def)

section \<open>Paying validators\<close>

text \<open>
  What the reward loop relies on: the reward address of every validator is an account of the ledger and
  no multiplier exceeds the whole.
\<close>

definition payees_ok :: "address set \<Rightarrow> db \<Rightarrow> bool" where
  "payees_ok A d \<longleftrightarrow> (\<forall>vid v. getValidator vid d = Some v \<longrightarrow>
     ValidatorInfo_wf v \<and> val_reward_address v \<in> A \<and> val_reward_multiplier v \<le> 10000)"

definition reward_state :: "address set \<Rightarrow> id set \<Rightarrow> bytes option \<Rightarrow> db \<Rightarrow> bool" where
  "reward_state A I pot d \<longleftrightarrow> keys_ok (ledger_keys A I) d \<and> payees_ok A d \<and> leaf (KGlobal ''pot'') d = pot"

lemma getValidator_put:
  assumes "keys_ok (ledger_keys A I) d"
  shows "ValidatorInfo_wf v \<Longrightarrow> getValidator vid (putValidator v d) = (if vid = val_id v then Some v else getValidator vid d)"
    "a \<in> A \<Longrightarrow> getValidator vid (putAccount a x d) = getValidator vid d"
  using assms by (simp_all add: getValidator_leaf leaf_objects leaf_putAccount ValidatorInfo_codec)

lemma reward_state_ops:
  assumes "reward_state A I pot d"
  shows "a \<in> A \<Longrightarrow> reward_state A I pot (putAccount a x d)"
    "ValidatorInfo_wf v \<Longrightarrow> val_reward_address v \<in> A \<Longrightarrow> val_reward_multiplier v \<le> 10000 \<Longrightarrow>
      reward_state A I pot (putValidator v d)"
proof -
  have k: "keys_ok (ledger_keys A I) d" and p: "payees_ok A d" and l: "leaf (KGlobal ''pot'') d = pot"
    using assms by (simp_all add: reward_state_def)
  show "reward_state A I pot (putAccount a x d)" if "a \<in> A"
    using that k p l by (simp add: reward_state_def payees_ok_def getValidator_put leaf_putAccount)
  show "reward_state A I pot (putValidator v d)"
    if "ValidatorInfo_wf v" "val_reward_address v \<in> A" "val_reward_multiplier v \<le> 10000"
    using that k p l by (simp add: reward_state_def payees_ok_def getValidator_put leaf_objects)
qed

lemma multiplier_part:
  fixes x :: u64 and m :: u16
  assumes "m \<le> 10000" "unat x \<le> 100000"
  shows "unat (x * ucast m div 10000) \<le> unat x"
proof -
  have m: "unat m \<le> 10000" using assms(1) by (simp add: word_le_nat_alt)
  have le: "unat x * unat m \<le> unat x * 10000" using m by (rule mult_le_mono2)
  have um: "unat (ucast m :: u64) = unat m"
    using m by (simp add: unsigned_ucast_eq take_bit_eq_mod)
  have "unat x * unat m < 18446744073709551616" using le assms(2) by linarith
  then have "unat (x * ucast m) = unat x * unat m" by (simp add: unat_word_ariths um)
  then have "unat (x * ucast m div 10000) = unat x * unat m div 10000" by (simp add: unat_div)
  also have "\<dots> \<le> unat x" using div_le_mono [OF le, of 10000] by simp
  finally show ?thesis .
qed

lemma pay_validator_id_effect:
  assumes "reward_state A I pot d" "finite A" "unat x \<le> 100000"
    and "total_bal A 0 d + unat red + unat x < 2 ^ 64"
  shows "reward_state A I pot (snd (pay_validator_id vid x (red, d)))"
    "total_bal A 0 (snd (pay_validator_id vid x (red, d))) + unat (fst (pay_validator_id vid x (red, d)))
      = total_bal A 0 d + unat red + unat x"
proof -
  have k: "keys_ok (ledger_keys A I) d" using assms(1) by (simp add: reward_state_def)
  have "reward_state A I pot (snd (pay_validator_id vid x (red, d))) \<and>
    total_bal A 0 (snd (pay_validator_id vid x (red, d))) + unat (fst (pay_validator_id vid x (red, d)))
      = total_bal A 0 d + unat red + unat x"
  proof (cases "getValidator vid d")
    case None
    have "unat (red + x) = unat red + unat x" using assms(4) by (intro unat_add_no_overflow) simp
    then show ?thesis using None assms(1) by (simp add: pay_validator_id_def)
  next
    case (Some v)
    then have v: "ValidatorInfo_wf v" "val_reward_address v \<in> A" "val_reward_multiplier v \<le> 10000"
      using assms(1) unfolding reward_state_def payees_ok_def by blast+
    let ?a = "val_reward_address v" and ?adj = "x * ucast (val_reward_multiplier v) div 10000"
    let ?v = "v\<lparr>val_total_rewards_earned := val_total_rewards_earned v + ?adj\<rparr>"
    let ?d1 = "if ?adj > 0 then add_balance ?a 0 ?adj d else d"
    have adj: "unat ?adj \<le> unat x" by (rule multiplier_part [OF v(3) assms(3)])
    have vwf: "ValidatorInfo_wf ?v" using v(1) by (simp add: ValidatorInfo_wf_def)
    have room: "bal ?a 0 d + unat ?adj < 2 ^ 64"
      using bal_le_total [OF assms(2) v(2), of 0 d] assms(4) adj by linarith
    have s1: "reward_state A I pot ?d1"
      using assms(1) reward_state_ops(1) [OF assms(1) v(2)] by (simp add: add_balance_def Let_def NATIVE_TOKEN_ID_def)
    have s2: "reward_state A I pot (putValidator ?v ?d1)"
      by (rule reward_state_ops(2) [OF s1]) (use v vwf in simp_all)
    have t1: "total_bal A 0 ?d1 = total_bal A 0 d + unat ?adj"
      using add_balance_total(1) [OF k assms(2) v(2) room, of 0] by (simp add: unat_gt_0)
    have k1: "keys_ok (ledger_keys A I) ?d1" using s1 by (simp add: reward_state_def)
    have t2: "total_bal A 0 (putValidator ?v ?d1) = total_bal A 0 ?d1"
      by (rule same_funds_eq(2) [OF same_funds_ops(4) [OF k1]])
    have diff: "unat (x - ?adj) = unat x - unat ?adj" using adj by (intro unat_sub_le) (simp add: word_le_nat_alt)
    have red': "unat (red + (x - ?adj)) = unat red + (unat x - unat ?adj)"
      using assms(4) diff by (subst unat_add_no_overflow) simp_all
    have eq: "pay_validator_id vid x (red, d) = (red + (x - ?adj), putValidator ?v ?d1)"
      using Some by (simp add: pay_validator_id_def pay_validator_def Let_def add_balance_def NATIVE_TOKEN_ID_def)
    show ?thesis unfolding eq fst_conv snd_conv using s2 t1 t2 red' adj by simp
  qed
  then show "reward_state A I pot (snd (pay_validator_id vid x (red, d)))"
    "total_bal A 0 (snd (pay_validator_id vid x (red, d))) + unat (fst (pay_validator_id vid x (red, d)))
      = total_bal A 0 d + unat red + unat x" by simp_all
qed

lemma pay_list_effect:
  assumes "reward_state A I pot (snd s)" "finite A" "\<forall>x \<in> set xs. unat (snd x) \<le> 100000"
    and "total_bal A 0 (snd s) + unat (fst s) + sum_list (map (\<lambda>x. unat (snd x)) xs) < 2 ^ 64"
  defines "s' \<equiv> foldl (\<lambda>s (vid, amount). pay_validator_id vid amount s) s xs"
  shows "reward_state A I pot (snd s') \<and>
    total_bal A 0 (snd s') + unat (fst s') = total_bal A 0 (snd s) + unat (fst s) + sum_list (map (\<lambda>x. unat (snd x)) xs)"
  unfolding s'_def using assms(1,3,4)
proof (induction xs arbitrary: s)
  case (Cons x xs)
  obtain vid m where x: "x = (vid, m)" by (cases x)
  obtain red d where s: "s = (red, d)" by (cases s)
  note step = pay_validator_id_effect [OF Cons.prems(1) [unfolded s snd_conv] assms(2), of m red vid]
  have "unat m \<le> 100000" "total_bal A 0 d + unat red + unat m < 2 ^ 64"
    using Cons.prems(2,3) by (simp_all add: x s)
  note st = step [OF this]
  show ?case
    using Cons.IH [OF st(1)] st(2) Cons.prems(2,3) by (simp add: x s)
qed simp

lemma pay_seeds_effect:
  assumes "reward_state A I pot d" "finite A" "unat q < 100000"
    and "unat r \<le> length vs" "total_bal A 0 d + unat red + (length vs * unat q + unat r) < 2 ^ 64"
  defines "s' \<equiv> foldl (pay_seed q) (r, red, d) vs"
  shows "reward_state A I pot (snd (snd s')) \<and> total_bal A 0 (snd (snd s')) + unat (fst (snd s'))
    = total_bal A 0 d + unat red + (length vs * unat q + unat r)"
  unfolding s'_def using assms(1,4,5)
proof (induction vs arbitrary: r red d)
  case (Cons vid vs)
  let ?m = "if r > 0 then q + 1 else q" and ?r = "if r > 0 then r - 1 else r"
  have m: "unat ?m = unat q + (if r > 0 then 1 else 0)"
    using assms(3) by (auto simp: unat_word_ariths)
  have r: "unat ?r + (if r > 0 then 1 else 0) = unat r"
    by (auto simp: unat_minus_one unat_gt_0 word_less_nat_alt)
  have "unat ?m \<le> 100000" "total_bal A 0 d + unat red + unat ?m < 2 ^ 64"
    using m r Cons.prems(3) assms(3) by (auto split: if_splits)
  note st = pay_validator_id_effect [OF Cons.prems(1) assms(2) this, of vid]
  obtain red' d' where s': "pay_validator_id vid ?m (red, d) = (red', d')" by (cases "pay_validator_id vid ?m (red, d)")
  note st = st [unfolded s' fst_conv snd_conv]
  have eq: "pay_seed q (r, red, d) vid = (?r, red', d')"
    using s' by (auto simp: pay_seed_def)
  have "unat ?r \<le> length vs" using r Cons.prems(2) by (auto split: if_splits)
  moreover have "total_bal A 0 d' + unat red' + (length vs * unat q + unat ?r) < 2 ^ 64"
    using st(2) m r Cons.prems(3) by (simp split: if_splits)
  ultimately have "reward_state A I pot (snd (snd (foldl (pay_seed q) (?r, red', d') vs))) \<and>
      total_bal A 0 (snd (snd (foldl (pay_seed q) (?r, red', d') vs))) + unat (fst (snd (foldl (pay_seed q) (?r, red', d') vs)))
      = total_bal A 0 d' + unat red' + (length vs * unat q + unat ?r)"
    using Cons.IH [of d' ?r red'] st(1) by blast
  then show ?case using st(2) m r by (simp add: eq split: if_splits)
qed simp

section \<open>The whole reward\<close>

lemma reward_shares:
  "unat (applyBps BLOCK_REWARD VALIDATOR_SHARE_BPS) = 60000" "unat (applyBps BLOCK_REWARD STAKER_SHARE_BPS) = 40000"
  by (simp_all add: applyBps_exact BLOCK_REWARD_def ATOMIC_UNITS_PER_COIN_def VALIDATOR_SHARE_BPS_def STAKER_SHARE_BPS_def)

lemma reward_amounts:
  assumes "reg_active_set reg \<noteq> []" "rc_block_reward_atomic ctx = BLOCK_REWARD"
  shows "unat (br_producer_amount (computeBlockReward ctx reg)) + unat (br_set_amount (computeBlockReward ctx reg)) = 60000"
  unfolding blockReward_amounts(2) [OF assms(1)] blockReward_amounts(1) [OF assms(1)] assms(2) by (rule reward_shares)

lemma fill_pot_effect:
  assumes "reward_state A I pot d" "total_bal A 0 d + unat red + unat (decode_u64 pot) + 40000 < 2 ^ 64"
  shows "total_bal A 0 (fill_pot (red, d)) = total_bal A 0 d"
    "unat (readU64Global ''pot'' (fill_pot (red, d))) = unat (decode_u64 pot) + unat red + 40000"
proof -
  have k: "keys_ok (ledger_keys A I) d" and l: "leaf (KGlobal ''pot'') d = pot"
    using assms(1) by (simp_all add: reward_state_def)
  define d1 where "d1 = putMetaU64 ''total_to_pot'' (getMetaU64 ''total_to_pot'' d + (red + applyBps BLOCK_REWARD STAKER_SHARE_BPS)) d"
  have k1: "keys_ok (ledger_keys A I) d1" using k by (simp add: d1_def)
  have eq: "fill_pot (red, d) =
      putGlobal ''pot'' (writeU64 (decode_u64 pot + red + applyBps BLOCK_REWARD STAKER_SHARE_BPS)) d1"
    using l by (simp add: fill_pot_def Let_def d1_def readU64Global_leaf writeU64Global_eq)
  have "total_bal A 0 d1 = total_bal A 0 d" by (simp add: total_bal_def bal_leaf d1_def NATIVE_TOKEN_ID_def)
  then show "total_bal A 0 (fill_pot (red, d)) = total_bal A 0 d"
    unfolding eq using same_funds_eq(2) [OF same_funds_ops(1) [OF k1, of "''pot''"], of 0] by simp
  have "unat (decode_u64 pot + red) = unat (decode_u64 pot) + unat red"
    using assms(2) by (intro unat_add_no_overflow) simp
  then have "unat (decode_u64 pot + red + applyBps BLOCK_REWARD STAKER_SHARE_BPS) = unat (decode_u64 pot) + unat red + 40000"
    using assms(2) by (subst unat_add_no_overflow) (simp_all add: reward_shares)
  then show "unat (readU64Global ''pot'' (fill_pot (red, d))) = unat (decode_u64 pot) + unat red + 40000"
    unfolding eq readU64Global_leaf leaf_objects(1) [OF k1] using k1 by (simp add: leaf_objects)
qed

text \<open>The two ways the reward of the validators is paid: among the seeds only, or to the producer and the set.\<close>

definition reward_paid :: "address set \<Rightarrow> id set \<Rightarrow> bytes option \<Rightarrow> nat \<Rightarrow> u64 \<times> db \<Rightarrow> bool" where
  "reward_paid A I pot n s \<longleftrightarrow> reward_state A I pot (snd s) \<and> total_bal A 0 (snd s) + unat (fst s) = n"

lemma seeds_paid:
  assumes "reward_state A I pot d" "finite A" "vs \<noteq> []" "length vs < 2 ^ 64"
    and "unat p + unat q = 60000" "total_bal A 0 d + 60000 < 2 ^ 64"
  defines "n \<equiv> of_nat (length vs)"
  defines "s \<equiv> snd (foldl (pay_seed (p div n)) (p mod n, 0, d) vs)"
  shows "reward_paid A I pot (total_bal A 0 d + 60000) (fst s + q, snd s)"
proof -
  have n: "unat n = length vs" unfolding n_def by (rule unat_of_nat_small) (use assms in simp)
  have split: "length vs * unat (p div n) + unat (p mod n) = unat p" by (simp add: unat_div unat_mod n)
  have "unat (p div n) \<le> unat p" by (simp add: unat_div)
  then have "unat (p div n) < 100000" using assms(5) by simp
  moreover have "unat (p mod n) \<le> length vs" using assms(3) by (simp add: unat_mod n less_imp_le)
  moreover have "total_bal A 0 d + unat (0 :: u64) + (length vs * unat (p div n) + unat (p mod n)) < 2 ^ 64"
    unfolding split using assms(5,6) by simp
  ultimately have e: "reward_state A I pot (snd s)" "total_bal A 0 (snd s) + unat (fst s) = total_bal A 0 d + unat p"
    using pay_seeds_effect [OF assms(1,2), of "p div n" "p mod n" vs 0] unfolding split s_def by simp_all
  have "unat (fst s + q) = unat (fst s) + unat q" using e(2) assms(5,6) by (intro unat_add_no_overflow) simp
  then show ?thesis using e assms(5) by (simp add: reward_paid_def)
qed

lemma set_paid:
  assumes "reward_state A I pot d" "finite A" "sum_list (map (\<lambda>x. unat (snd x)) xs) + unat p = 60000"
    and "total_bal A 0 d + 60000 < 2 ^ 64"
  shows "reward_paid A I pot (total_bal A 0 d + 60000)
    (foldl (\<lambda>s (vid, amount). pay_validator_id vid amount s) (if p > 0 then pay_validator_id v p (0, d) else (0, d)) xs)"
proof -
  let ?s = "if p > 0 then pay_validator_id v p (0, d) else (0, d)"
  have "unat p \<le> 100000" "total_bal A 0 d + unat (0 :: u64) + unat p < 2 ^ 64" using assms(3,4) by simp_all
  note e = pay_validator_id_effect [OF assms(1,2) this]
  have s: "reward_state A I pot (snd ?s)" "total_bal A 0 (snd ?s) + unat (fst ?s) = total_bal A 0 d + unat p"
    using e [of v] assms(1) by (auto simp: word_less_nat_alt)
  have "unat (snd x) \<le> 100000" if "x \<in> set xs" for x
    using member_le_sum_list [of "unat (snd x)" "map (\<lambda>x. unat (snd x)) xs"] that assms(3) by force
  then show ?thesis
    using pay_list_effect [OF s(1) assms(2), of xs] s(2) assms(3,4) unfolding reward_paid_def by simp
qed

lemma distribute_conserves:
  fixes block :: block and h :: u64
  assumes "keys_ok (ledger_keys A I) d" "payees_ok A d" "finite A" "loadActiveSet d \<noteq> []" "length (loadActiveSet d) < 2 ^ 64"
    and room: "total_bal A 0 d + unat (readU64Global ''pot'' d) + unat BLOCK_REWARD < 2 ^ 64"
  defines "d' \<equiv> distributeRewards block h d"
  shows "total_bal A 0 d' + unat (readU64Global ''pot'' d')
    = total_bal A 0 d + unat (readU64Global ''pot'' d) + unat BLOCK_REWARD"
proof -
  define pot where "pot = leaf (KGlobal ''pot'') d"
  have st: "reward_state A I pot d" using assms(1,2) by (simp add: reward_state_def pot_def)
  have rd: "readU64Global ''pot'' d = decode_u64 pot" by (simp add: readU64Global_leaf pot_def)
  have br: "unat BLOCK_REWARD = 100000" by (simp add: BLOCK_REWARD_def ATOMIC_UNITS_PER_COIN_def)
  have small: "total_bal A 0 d + 60000 < 2 ^ 64" using room br by simp
  define ctx where "ctx = RewardContext_default\<lparr>rc_height := h, rc_epoch_number := epochOf h,
    rc_active_set_size := ucast (hdr_active_validator_count (blk_header block)), rc_block_reward_atomic := BLOCK_REWARD,
    rc_total_staked := readU64Global ''total_staked'' d\<rparr>"
  define r where "r = computeBlockReward ctx (reward_registry (loadActiveSet d) d)"
  have reg: "reg_active_set (reward_registry (loadActiveSet d) d) = loadActiveSet d" by (simp add: reward_registry_def)
  have am: "unat (br_producer_amount r) + unat (br_set_amount r) = 60000"
    unfolding r_def by (rule reward_amounts) (simp_all add: reg assms(4) ctx_def)
  have sm: "sum_list (map (\<lambda>x. unat (snd x)) (br_validator_rewards r)) = unat (br_set_amount r)"
    unfolding r_def by (rule blockReward_sum) (use assms(4,5) in \<open>simp_all add: reg\<close>)
  obtain s where s: "d' = fill_pot s" "reward_paid A I pot (total_bal A 0 d + 60000) s"
  proof (cases "list_all (\<lambda>vid. case getValidator vid d of None \<Rightarrow> False | Some v \<Rightarrow> val_is_seed v) (loadActiveSet d)")
    case True
    show ?thesis
      by (rule that [OF _ seeds_paid [OF st assms(3,4,5) am small]])
        (use True assms(4) in \<open>simp add: d'_def distributeRewards_def Let_def split_beta r_def ctx_def\<close>)
  next
    case False
    have "sum_list (map (\<lambda>x. unat (snd x)) (br_validator_rewards r)) + unat (br_producer_amount r) = 60000"
      using sm am by simp
    note paid = set_paid [OF st assms(3) this small,
        of "case getValidatorByAddress (hdr_proposer (blk_header block)) d of None \<Rightarrow> loadActiveSet d ! 0 | Some indexed_id \<Rightarrow> indexed_id"]
    show ?thesis
      by (rule that [OF _ paid])
        (use False assms(4) in \<open>simp add: d'_def distributeRewards_def Let_def split_beta r_def ctx_def\<close>)
  qed
  obtain red d1 where p: "s = (red, d1)" by (cases s)
  have d1: "reward_state A I pot d1" "total_bal A 0 d1 + unat red = total_bal A 0 d + 60000"
    using s(2) by (simp_all add: p reward_paid_def)
  have "total_bal A 0 d1 + unat red + unat (decode_u64 pot) + 40000 < 2 ^ 64" using d1(2) room br rd by simp
  from fill_pot_effect [OF d1(1) this] show ?thesis unfolding s(1) p rd br using d1(2) by simp
qed

section \<open>The stakers at an epoch boundary\<close>

definition staker_list :: "db \<Rightarrow> address list" where
  "staker_list d = filter (\<lambda>k. length k = 32) (map fst (tab TBL_INDEX_STAKERS d))"

lemma forEachStaker_fold: "forEachStaker fn d s = foldl (\<lambda>s a. fn a s) s (staker_list d)"
proof -
  have "visit (\<lambda>key v s. if length key \<noteq> 32 then (True, s) else (True, fn key s)) rows s =
      foldl (\<lambda>s a. fn a s) s (filter (\<lambda>k. length k = 32) (map fst rows))" for rows
    by (induction rows arbitrary: s) auto
  then show ?thesis by (simp add: forEachStaker_def Txn_forEach_def staker_list_def)
qed

lemma distinct_stakers: "db_ok d \<Longrightarrow> distinct (staker_list d)"
  using rows_ok_tab [of d TBL_INDEX_STAKERS]
  by (simp add: staker_list_def rows_ok_def strict_sorted_iff)

text \<open>Weights and shares as numbers; someone who did not stake in the epoch has neither.\<close>

definition weight_of :: "u64 \<Rightarrow> u64 \<Rightarrow> db \<Rightarrow> address \<Rightarrow> nat" where
  "weight_of s e d a = (case staker_weight s e (getAccount a d) of None \<Rightarrow> 0 | Some w \<Rightarrow> unat w)"

definition share_of :: "u64 \<Rightarrow> u64 \<Rightarrow> u64 \<Rightarrow> db \<Rightarrow> u128 \<Rightarrow> address \<Rightarrow> u64" where
  "share_of s e D d W a = (case staker_weight s e (getAccount a d) of None \<Rightarrow> 0 | Some w \<Rightarrow> staker_share D w W)"

definition pending :: "db \<Rightarrow> address \<Rightarrow> u64" where
  "pending d a = acct_pending_rewards (getAccount a d)"

definition total_pending :: "address set \<Rightarrow> db \<Rightarrow> nat" where
  "total_pending A d = (\<Sum>a \<in> A. unat (pending d a))"

lemma total_weight:
  assumes "sum_list (map (weight_of s e d) as) + unat t < 2 ^ 128"
  shows "unat (foldl (\<lambda>total a. case staker_weight s e (getAccount a d) of None \<Rightarrow> total | Some w \<Rightarrow> total + w) t as)
    = sum_list (map (weight_of s e d) as) + unat t"
  using assms
proof (induction as arbitrary: t)
  case (Cons a as)
  show ?case
  proof (cases "staker_weight s e (getAccount a d)")
    case None
    then show ?thesis using Cons by (simp add: weight_of_def)
  next
    case (Some w)
    then have "unat (t + w) = unat t + unat w"
      using Cons.prems by (simp add: weight_of_def unat_word_ariths)
    then show ?thesis using Some Cons by (simp add: weight_of_def)
  qed
qed simp

lemma share_exact:
  assumes "weight_of s e d a \<le> unat W" "unat D * unat W < 2 ^ 128"
  shows "unat (share_of s e D d W a) = unat D * weight_of s e d a div unat W"
proof (cases "staker_weight s e (getAccount a d)")
  case (Some w)
  then have w: "unat w \<le> unat W" using assms(1) by (simp add: weight_of_def)
  then have le: "unat D * unat w \<le> unat D * unat W" by (rule mult_le_mono2)
  have "unat D * unat w < 340282366920938463463374607431768211456"
    using order.strict_trans1 [OF le assms(2)] by simp
  then have p: "unat ((ucast D :: u128) * w) = unat D * unat w" by (simp add: unat_word_ariths)
  have "unat D * unat w div unat W \<le> unat D"
    using div_le_mono [OF le, of "unat W"] by (cases "unat W = 0") simp_all
  then have "unat D * unat w div unat W < 18446744073709551616"
    using unat_u64_less [of D] by (rule order.strict_trans1)
  then show ?thesis using Some p by (simp add: share_of_def weight_of_def staker_share_def unat_div)
qed (simp add: share_of_def weight_of_def)

lemma sum_shares:
  fixes D W :: nat
  assumes "sum_list (map w as) = W"
  shows "sum_list (map (\<lambda>a. D * w a div W) as) \<le> D"
proof (cases "W = 0")
  case False
  have "sum_list (map (\<lambda>a. D * w a div W) as) * W \<le> D * sum_list (map w as)" for as
    by (induction as) (simp_all add: algebra_simps add_mono)
  from this [of as] have "sum_list (map (\<lambda>a. D * w a div W) as) * W \<le> D * W" unfolding assms .
  then show ?thesis using False by (simp only: mult_le_cancel2)
qed (simp add: sum_list_0)

lemma account_put:
  assumes "keys_ok (ledger_keys A I) d" "a \<in> A" "b \<in> A"
  shows "b \<noteq> a \<Longrightarrow> getAccount b (putAccount a x d) = getAccount b d"
    "acct_pending_rewards (getAccount a (putAccount a x d)) = acct_pending_rewards x"
  using getAccount_putAccount [OF assms(1), of a b x] getAccount_putAccount [OF assms(1), of a a x] assms(2,3)
  by (simp_all add: stored_account_def recalculateStaked_def Let_def)

definition pay_staker :: "u64 \<Rightarrow> u64 \<Rightarrow> u64 \<Rightarrow> u64 \<Rightarrow> u128 \<Rightarrow> db \<Rightarrow> address \<Rightarrow> db" where
  "pay_staker s e n D W d a =
     (let acct = getAccount a d
      in (case staker_weight s e acct of
            None \<Rightarrow> d
          | Some w \<Rightarrow> putAccount a (acct\<lparr>acct_pending_rewards := acct_pending_rewards acct + staker_share D w W,
                                        acct_last_reward_epoch := n\<rparr>) d))"

lemma pay_staker_effect:
  assumes "keys_ok (ledger_keys A I) d" "a \<in> A"
  shows "keys_ok (ledger_keys A I) (pay_staker s e n D W d a)"
    "b \<in> A \<Longrightarrow> b \<noteq> a \<Longrightarrow> getAccount b (pay_staker s e n D W d a) = getAccount b d"
    "pending (pay_staker s e n D W d a) a = pending d a + share_of s e D d W a"
    "b \<in> A \<Longrightarrow> bal b t (pay_staker s e n D W d a) = bal b t d"
proof -
  show "bal b t (pay_staker s e n D W d a) = bal b t d" if "b \<in> A"
  proof -
    have "ucast t = NATIVE_TOKEN_ID \<Longrightarrow> bal a t d = unat (acct_balance (getAccount a d))" by (simp add: bal_def)
    then show ?thesis by (simp add: pay_staker_def Let_def putAccount_bal [OF assms that] split: option.split)
  qed
qed (use assms account_put [OF assms] account_put(2) [OF assms assms(2)] in
    \<open>simp_all add: pay_staker_def Let_def pending_def share_of_def split: option.split\<close>)

lemma pay_stakers_loop:
  assumes "keys_ok (ledger_keys A I) d" "set as \<subseteq> A" "distinct as"
  shows "keys_ok (ledger_keys A I) (foldl (pay_staker s e n D W) d as)
    \<and> (\<forall>b \<in> A. pending (foldl (pay_staker s e n D W) d as) b
          = (if b \<in> set as then pending d b + share_of s e D d W b else pending d b)
        \<and> (\<forall>t. bal b t (foldl (pay_staker s e n D W) d as) = bal b t d))"
  using assms
proof (induction as arbitrary: d)
  case (Cons a as)
  then have a: "a \<in> A" and rest: "set as \<subseteq> A" "distinct as" "a \<notin> set as" by auto
  note st = pay_staker_effect [OF Cons.prems(1) a, where s = s and e = e and n = n and D = D and W = W]
  have keep: "pending (pay_staker s e n D W d a) b = pending d b"
    "share_of s e D (pay_staker s e n D W d a) W b = share_of s e D d W b" if "b \<in> A" "b \<noteq> a" for b
    using st(2) [OF that] by (simp_all add: pending_def share_of_def)
  have keep_rest: "pending (pay_staker s e n D W d a) b = pending d b \<and>
    share_of s e D (pay_staker s e n D W d a) W b = share_of s e D d W b" if "b \<in> set as" for b
    using keep [of b] rest that by blast
  show ?case using Cons.IH [OF st(1) rest(1,2)] st(3,4) keep keep_rest rest a by auto
qed simp

lemma pay_stakers_effect:
  fixes n :: u64
  assumes "keys_ok (ledger_keys A I) d" "finite A" "set (staker_list d) \<subseteq> A"
    and "unat D * sum_list (map (weight_of s e d) (staker_list d)) < 2 ^ 128" "sum_list (map (weight_of s e d) (staker_list d)) < 2 ^ 128"
    and "\<forall>a \<in> A. unat (pending d a) + unat D < 2 ^ 64"
  defines "d' \<equiv> pay_stakers s e n D d" and "W \<equiv> sum_list (map (weight_of s e d) (staker_list d))"
  shows "a \<in> A \<Longrightarrow> unat (pending d' a) = unat (pending d a)
      + (if a \<in> set (staker_list d) then unat D * weight_of s e d a div W else 0)"
    "a \<in> A \<Longrightarrow> bal a t d' = bal a t d"
    "total_pending A d' \<le> total_pending A d + unat D"
proof -
  let ?as = "staker_list d"
  define W' where "W' = foldl (\<lambda>total a. case staker_weight s e (getAccount a d) of None \<Rightarrow> total | Some w \<Rightarrow> total + w) 0 ?as"
  have W': "unat W' = W" unfolding W'_def W_def using total_weight [of s e d ?as 0] assms(5) by simp
  have dist: "distinct ?as" using keys_okD [OF assms(1)] by (intro distinct_stakers) simp
  have d': "d' = (if W' = 0 then d else foldl (pay_staker s e n D W') d ?as)"
    unfolding d'_def pay_stakers_def forEachStaker_fold W'_def [symmetric] Let_def pay_staker_def [abs_def] by simp
  have le: "weight_of s e d a \<le> W" if "a \<in> set ?as" for a
    unfolding W_def using that by (intro member_le_sum_list) auto
  have share: "unat (share_of s e D d W' a) = unat D * weight_of s e d a div W" if "a \<in> set ?as" for a
    using share_exact [of s e d a W' D] le [OF that] W' assms(4) by (simp add: W_def)
  have bound: "sum_list (map (\<lambda>a. unat D * weight_of s e d a div W) ?as) \<le> unat D"
    by (rule sum_shares) (simp add: W_def)
  have share_le: "unat D * weight_of s e d a div W \<le> unat D" if "a \<in> set ?as" for a
    by (rule order_trans [OF member_le_sum_list bound]) (use that in auto)
  have zero: "unat D * weight_of s e d a div W = 0" if "W' = 0" for a using W' that by simp
  note loop = pay_stakers_loop [OF assms(1,3) dist, where s = s and e = e and n = n and D = D and W = W']
  show p: "unat (pending d' a) = unat (pending d a)
      + (if a \<in> set ?as then unat D * weight_of s e d a div W else 0)" if "a \<in> A" for a
  proof (cases "W' \<noteq> 0 \<and> a \<in> set ?as")
    case True
    then have "unat (pending d a + share_of s e D d W' a) = unat (pending d a) + unat (share_of s e D d W' a)"
      using share share_le [of a] assms(6) that by (intro unat_add_no_overflow) force
    then show ?thesis using True loop that share by (simp add: d')
  next
    case False
    then show ?thesis using loop that zero by (auto simp: d')
  qed
  show "bal a t d' = bal a t d" if "a \<in> A" using loop that by (simp add: d')
  have "total_pending A d' = total_pending A d + (\<Sum>a \<in> A. if a \<in> set ?as then unat D * weight_of s e d a div W else 0)"
    by (simp add: total_pending_def p sum.distrib)
  also have "(\<Sum>a \<in> A. if a \<in> set ?as then unat D * weight_of s e d a div W else 0)
      = (\<Sum>a \<in> set ?as. unat D * weight_of s e d a div W)"
    using assms(2,3) by (simp add: sum.If_cases Int_absorb1)
  also have "\<dots> = sum_list (map (\<lambda>a. unat D * weight_of s e d a div W) ?as)"
    using dist by (rule sum_list_distinct_conv_sum_set [symmetric])
  finally show "total_pending A d' \<le> total_pending A d + unat D" using bound by simp
qed

end
