(* ===== verification/Block_Facts.thy ===== *)
theory Block_Facts
  imports Quorum_Laws Reward_Laws
begin

text \<open>
  What an accepted block has passed, what its hash binds, and what an accepted slash proof shows.
\<close>

section \<open>Accepted blocks\<close>

text \<open>The set whose signatures a block needs.\<close>

definition signing_set ::
    "((nat \<Rightarrow> nat \<Rightarrow> bool) \<Rightarrow> nat list \<Rightarrow> nat list) \<Rightarrow> block \<Rightarrow> block_context \<Rightarrow> db \<Rightarrow> id list" where
  "signing_set srt b ctx d = (if hdr_emergency_rotation (blk_header b) > 0
     then resolveActiveSet srt (loadActiveSet d) (bctx_current_height ctx) True d else loadActiveSet d)"

lemma apply_txs_receipts:
  assumes "apply_txs sig_ok ctx i txs run d = Some (run', d')" "run_error run' = None" "run_error run = None"
    and "length (run_receipts run) = length (run_tx_hashes run)" "list_all (\<lambda>r. rcpt_status r = Success) (run_receipts run)"
  shows "length (run_receipts run') = length (run_receipts run) + length txs \<and>
    length (run_tx_hashes run') = length (run_receipts run') \<and> list_all (\<lambda>r. rcpt_status r = Success) (run_receipts run')"
  using assms
proof (induction txs arbitrary: i run d)
  case (Cons tx txs)
  show ?case
  proof (cases "isSystemTx (tx_type tx)")
    case True
    obtain e d1 where s: "(if tx_type tx = Tx_Slash then applySlash sig_ok tx ctx d else (None, d)) = (e, d1)" by fastforce
    then have e: "e = None" using Cons.prems(1,2) True by (cases e) (auto simp: Let_def)
    show ?thesis using Cons.prems True Cons.IH [OF _ Cons.prems(2)] by (fastforce simp: Let_def s e)
  next
    case False
    then have wf: "Transaction_isWellFormed tx" using Cons.prems(1,2) by (auto simp: Let_def split: if_splits)
    let ?c = "\<lparr>ctx_current_height = bctx_current_height ctx, ctx_chain_id = bctx_chain_id ctx, ctx_tx_index_in_block = of_nat i\<rparr>"
    obtain r d1 where ex: "execute sig_ok tx ?c d = Some (r, d1)"
      using Cons.prems(1) False wf by (cases "execute sig_ok tx ?c d") (auto simp: Let_def)
    then have ok: "rcpt_status r = Success" using Cons.prems(1,2) False wf by (auto simp: Let_def split: if_splits)
    show ?thesis using Cons.prems False wf Cons.IH [OF _ Cons.prems(2)] by (fastforce simp: Let_def ex ok)
  qed
qed simp

lemma applyBlock_cases:
  assumes "applyBlock shr srt sig_ok state_root now_ms b ctx d = Some (r, d')"
  shows "res_valid r \<longleftrightarrow> res_error r = None" "res_failed_txid r = null32" "res_block_hash r = Block_hash (db_hash d) b"
  using assms unfolding applyBlock_def Let_def by (auto split: option.splits if_splits prod.splits)

lemma applyBlock_valid:
  assumes "applyBlock shr srt sig_ok state_root now_ms b ctx d = Some (r, d')" "res_valid r"
  defines "H \<equiv> db_hash d" and "act \<equiv> signing_set srt b ctx d"
  obtains run d1 where "checkHeader now_ms H b ctx = None" "checkTxRoot H b = None"
    "hdr_emergency_rotation (blk_header b) > 0 \<Longrightarrow>
       checkTimeoutCertificate sig_ok b (loadActiveSet d) (bctx_current_height ctx) d = None"
    "length act = unat (hdr_active_validator_count (blk_header b))"
    "\<not> bctx_dry_run ctx \<Longrightarrow> checkQuorum shr sig_ok b act d = None" "checkValidatorSetRoot H b act = None"
    "applyTransactions sig_ok b ctx d = Some (run, d1)" "run_error run = None"
    "finish_block srt b ctx (loadActiveSet d) act d1 = (res_epoch_fills r, d')"
    "check_commitments H b ctx (state_root d') run (res_epoch_fills r) = None"
    "res_new_state_root r = state_root d'" "res_receipts r = run_receipts run" "res_tx_hashes r = run_tx_hashes run"
  using assms unfolding applyBlock_def Let_def H_def act_def signing_set_def
  by (auto split: option.splits if_splits prod.splits)

section \<open>Agreement\<close>

text \<open>A key under which at most one block is signed at a height and round.\<close>

definition signs_once :: "(u32 \<Rightarrow> nat \<Rightarrow> u32) \<Rightarrow> (hash \<Rightarrow> pubkey \<Rightarrow> bytes \<Rightarrow> bool) \<Rightarrow> (bytes \<Rightarrow> hash) \<Rightarrow> height \<Rightarrow> round' \<Rightarrow> pubkey \<Rightarrow> bool" where
  "signs_once shr sig_ok H h r pk \<longleftrightarrow> (\<forall>x y s t. length x = 32 \<longrightarrow> length y = 32 \<longrightarrow>
     sig_ok (voteSigningHash shr H h r False x) pk s \<longrightarrow> sig_ok (voteSigningHash shr H h r False y) pk t \<longrightarrow> x = y)"

lemma quorums_agree:
  assumes "checkQuorum shr sig_ok a act d = None" "checkQuorum shr sig_ok b act d = None"
    and "hdr_height (blk_header a) = h" "hdr_height (blk_header b) = h"
    and "ucast (hdr_commit_round (blk_header a)) = r" "ucast (hdr_commit_round (blk_header b)) = r"
    and "distinct act" "length act < 2 ^ 62" "finite faulty" "3 * card faulty \<le> length act"
    and len: "\<And>x. length (db_hash d x) = 32"
    and honest: "\<And>vid pk. vid \<in> set act \<Longrightarrow> vid \<notin> faulty \<Longrightarrow> validatorKeyAtHeight vid h d = Some pk \<Longrightarrow>
      signs_once shr sig_ok (db_hash d) h r pk"
  shows "Block_hash (db_hash d) a = Block_hash (db_hash d) b"
proof -
  note qa = checkQuorum_sound [OF assms(1,8)] and qb = checkQuorum_sound [OF assms(2,8)]
  have "card faulty < card (signers a \<inter> signers b)"
    using quorum_overlap [OF qa(2) qb(2) qa(1) qb(1)] assms(10) by linarith
  moreover have "signers a \<inter> signers b \<subseteq> {..<length act}" using qa(2) by blast
  ultimately obtain i where i: "i \<in> signers a" "i \<in> signers b" "act ! i \<notin> faulty"
    using honest_position [OF assms(7) _ assms(9)] by blast
  then have mem: "act ! i \<in> set act" using qa(2) by auto
  obtain pk s where sa: "validatorKeyAtHeight (act ! i) h d = Some pk" "sig_ok (commit_hash shr a d) pk s"
    using qa(3) [OF i(1)] assms(3) by auto
  obtain t where sb: "sig_ok (commit_hash shr b d) pk t"
    using qb(3) [OF i(2)] assms(4) sa(1) by auto
  have "length (Block_hash (db_hash d) x) = 32" for x
    by (simp add: Block_hash_def BlockHeader_hash_def hashWithDomain_def len)
  then show ?thesis
    using honest [OF mem i(3) sa(1)] sa(2) sb unfolding signs_once_def assms(3-6) by blast
qed

section \<open>What the hash of a block binds\<close>

text \<open>The byte strings hashed on the way from a block to its hash.\<close>

definition tx_leaf_input :: "(bytes \<Rightarrow> hash) \<Rightarrow> transaction \<Rightarrow> bytes" where
  "tx_leaf_input H tx = str ''CLRTY_TXLEAF_V1'' @ Transaction_txid H tx"

definition txid_input :: "transaction \<Rightarrow> bytes" where
  "txid_input tx = map of_char TX_DOMAIN @ Transaction_serializeForSigning tx"

definition block_inputs :: "(bytes \<Rightarrow> hash) \<Rightarrow> block \<Rightarrow> bytes set" where
  "block_inputs H b = {str ''CLRTY_BLOCKHDR_V1'' @ BlockHeader_serializeForHash (blk_header b)}
     \<union> txid_input ` set (blk_transactions b) \<union> tx_leaf_input H ` set (blk_transactions b)
     \<union> merkle_inputs H (map (\<lambda>tx. H (tx_leaf_input H tx)) (blk_transactions b))"

lemma inj_on_map_eq: "inj_on f A \<Longrightarrow> map f xs = map f ys \<Longrightarrow> set xs \<union> set ys \<subseteq> A \<Longrightarrow> xs = ys"
  by (rule map_inj_on [where f = f]) (auto intro: inj_on_subset)

lemma block_hash_determines:
  assumes "Block_hash H a = Block_hash H b" "Header_wf (blk_header a)" "Header_wf (blk_header b)"
    and "\<And>x. length (H x) = 32" "inj_on H (block_inputs H a \<union> block_inputs H b)"
  shows "(blk_header a)\<lparr>hdr_commit_round := hdr_commit_round (blk_header b),
      hdr_timeout_certificate := hdr_timeout_certificate (blk_header b)\<rparr> = blk_header b"
    "checkTxRoot H a = None \<Longrightarrow> checkTxRoot H b = None \<Longrightarrow> list_all Transaction_wf (blk_transactions a) \<Longrightarrow>
     list_all Transaction_wf (blk_transactions b) \<Longrightarrow> length (blk_transactions a) = length (blk_transactions b) \<Longrightarrow>
     map (\<lambda>tx. tx\<lparr>tx_signature := []\<rparr>) (blk_transactions a) = map (\<lambda>tx. tx\<lparr>tx_signature := []\<rparr>) (blk_transactions b)"
proof -
  let ?ta = "blk_transactions a" and ?tb = "blk_transactions b"
  have "str ''CLRTY_BLOCKHDR_V1'' @ BlockHeader_serializeForHash (blk_header a) =
      str ''CLRTY_BLOCKHDR_V1'' @ BlockHeader_serializeForHash (blk_header b)"
    using assms(1) unfolding Block_hash_def BlockHeader_hash_def hashWithDomain_def
    by (rule inj_onD [OF assms(5)]) (simp_all add: block_inputs_def)
  then show hdr: "(blk_header a)\<lparr>hdr_commit_round := hdr_commit_round (blk_header b),
      hdr_timeout_certificate := hdr_timeout_certificate (blk_header b)\<rparr> = blk_header b"
    using serializeForHash_inj [OF assms(2,3)] by simp
  assume root: "checkTxRoot H a = None" "checkTxRoot H b = None" and wf: "list_all Transaction_wf ?ta" "list_all Transaction_wf ?tb"
    and len: "length ?ta = length ?tb"
  have "hdr_tx_root (blk_header a) = hdr_tx_root (blk_header b)" using hdr by (metis block_header.select_convs block_header.surjective block_header.update_convs)
  then have roots: "computeMerkleRoot H (map (\<lambda>tx. H (tx_leaf_input H tx)) ?ta) = computeMerkleRoot H (map (\<lambda>tx. H (tx_leaf_input H tx)) ?tb)"
    using root by (auto simp: checkTxRoot_def computeTxRoot_def tx_leaf_input_def split: if_splits)
  have "map (\<lambda>tx. H (tx_leaf_input H tx)) ?ta = map (\<lambda>tx. H (tx_leaf_input H tx)) ?tb"
    by (rule merkle_root_inj [OF assms(4) _ _ _ _ roots])
      (use assms(4) len in \<open>auto simp: list_all_iff block_inputs_def intro: inj_on_subset [OF assms(5)]\<close>)
  then have leaves: "map H (map (tx_leaf_input H) ?ta) = map H (map (tx_leaf_input H) ?tb)" by (simp add: comp_def)
  have "map (tx_leaf_input H) ?ta = map (tx_leaf_input H) ?tb"
    by (rule inj_on_map_eq [OF assms(5) leaves]) (auto simp: block_inputs_def)
  then have "map (drop 15) (map (tx_leaf_input H) ?ta) = map (drop 15) (map (tx_leaf_input H) ?tb)" by simp
  then have "map H (map txid_input ?ta) = map H (map txid_input ?tb)"
    by (simp add: tx_leaf_input_def Transaction_txid_def Transaction_signingHash_def txid_input_def comp_def)
  then have "map txid_input ?ta = map txid_input ?tb"
    by (rule inj_on_map_eq [OF assms(5)]) (auto simp: block_inputs_def)
  then have sig: "Transaction_serializeForSigning (?ta ! i) = Transaction_serializeForSigning (?tb ! i)" if "i < length ?ta" for i
    using that len by (metis append_eq_append_conv nth_map txid_input_def)
  show "map (\<lambda>tx. tx\<lparr>tx_signature := []\<rparr>) ?ta = map (\<lambda>tx. tx\<lparr>tx_signature := []\<rparr>) ?tb"
  proof (rule nth_equalityI)
    fix i assume "i < length (map (\<lambda>tx. tx\<lparr>tx_signature := []\<rparr>) ?ta)"
    then have i: "i < length ?ta" "i < length ?tb" using len by simp_all
    then have "(?ta ! i)\<lparr>tx_signature := tx_signature (?tb ! i)\<rparr> = ?tb ! i"
      using serializeForSigning_inj [OF _ _ sig] wf by (simp add: list_all_length)
    then have "(?tb ! i)\<lparr>tx_signature := []\<rparr> = (?ta ! i)\<lparr>tx_signature := tx_signature (?tb ! i)\<rparr>\<lparr>tx_signature := []\<rparr>" by simp
    then show "map (\<lambda>tx. tx\<lparr>tx_signature := []\<rparr>) ?ta ! i = map (\<lambda>tx. tx\<lparr>tx_signature := []\<rparr>) ?tb ! i"
      using i by simp
  qed (simp add: len)
qed

section \<open>Equivocation proofs\<close>

text \<open>Two votes of one signer for the same height and round that say different things.\<close>

definition conflicting :: "vote \<Rightarrow> vote \<Rightarrow> bool" where
  "conflicting a b \<longleftrightarrow> vote_height a = vote_height b \<and> vote_round a = vote_round b \<and> vote_signer_id a = vote_signer_id b \<and>
     vote_signer_id a \<noteq> INVALID_ID \<and>
     (vote_signer_index a = INVALID_INDEX \<or> vote_signer_index b = INVALID_INDEX \<or> vote_signer_index a = vote_signer_index b) \<and>
     (vote_block_hash a \<noteq> vote_block_hash b \<or> vote_is_nil a \<noteq> vote_is_nil b)"

definition vote_signed :: "(hash \<Rightarrow> pubkey \<Rightarrow> bytes \<Rightarrow> bool) \<Rightarrow> (bytes \<Rightarrow> hash) \<Rightarrow> pubkey \<Rightarrow> vote \<Rightarrow> bool" where
  "vote_signed sig_ok H key v \<longleftrightarrow> sig_ok (localVoteSigningHash H (vote_height v) (ucast (vote_round v))
     (vote_is_nil v) (vote_block_hash v)) key (vote_signature v)"

lemma verifyEquivocationProof_eq:
  assumes "length payload = 2 * VOTE_WIRE_SIZE" "decodeVote (take VOTE_WIRE_SIZE payload) = Some a"
    and "decodeVote (take VOTE_WIRE_SIZE (drop VOTE_WIRE_SIZE payload)) = Some b"
  shows "verifyEquivocationProof sig_ok payload act d = Some vid \<longleftrightarrow>
    vid = vote_signer_id a \<and> conflicting a b \<and> getValidator vid d \<noteq> None \<and> (act = [] \<or> vid \<in> set act) \<and>
    (\<exists>key. validatorKeyAtHeight vid (vote_height a) d = Some key \<and>
       vote_signed sig_ok (db_hash d) key a \<and> vote_signed sig_ok (db_hash d) key b)"
  using assms
  by (auto simp: verifyEquivocationProof_def Let_def conflicting_def vote_signed_def split: option.splits if_splits)

lemma verifyEquivocationProof_votes:
  assumes "verifyEquivocationProof sig_ok payload act d = Some vid"
  obtains a b where "length payload = 2 * VOTE_WIRE_SIZE" "decodeVote (take VOTE_WIRE_SIZE payload) = Some a"
    "decodeVote (take VOTE_WIRE_SIZE (drop VOTE_WIRE_SIZE payload)) = Some b"
  using assms by (auto simp: verifyEquivocationProof_def split: option.splits if_splits)

lemma payload_votes:
  assumes "Vote_wf a" "Vote_wf b"
  defines "payload \<equiv> encodeSlashPayload (encodeVote a) (encodeVote b)"
  shows "length payload = 2 * VOTE_WIRE_SIZE" "decodeVote (take VOTE_WIRE_SIZE payload) = Some a"
    "decodeVote (take VOTE_WIRE_SIZE (drop VOTE_WIRE_SIZE payload)) = Some b"
  using assms(1,2) length_encodeVote [of a] length_encodeVote [of b]
  by (simp_all add: payload_def encodeSlashPayload_def Vote_codec)

text \<open>The hash of a vote computed by the two implementations, when shifts past the width give zero.\<close>

lemma drop_bit_round: "(ucast (drop_bit n (r :: u32)) :: u8) = ucast (drop_bit n (ucast r :: u64))"
  by (rule bit_word_eqI) (auto simp: bit_simps dest: bit_imp_le_length)

lemma vote_hashes_agree:
  assumes "length x = 32"
  shows "voteSigningHash (\<lambda>r n. drop_bit n r) H h r nil x = localVoteSigningHash H h (ucast r) nil x"
  using assms by (simp add: voteSigningHash_def localVoteSigningHash_def hashDomain_def round_bytes_def drop_bit_round foldl_snoc)

text \<open>What a slash takes from the stake goes to the pot.\<close>

lemma slash_amount: "unat (applyBps stake SLASH_AMOUNT_BPS) = unat stake * 500 div 10000" "applyBps stake SLASH_AMOUNT_BPS \<le> stake"
  using applyBps_exact [of SLASH_AMOUNT_BPS stake] applyBps_le [of SLASH_AMOUNT_BPS stake]
  by (simp_all add: SLASH_AMOUNT_BPS_def)

lemma reader_pot_leaf: "reader_pot d = decode_u64 (leaf (KGlobal ''pot'') d)"
  by (simp add: reader_pot_def readGlobalU64_eq getGlobalU64_smt leaf_def)

lemma slash_moves_stake:
  assumes k: "keys_ok (ledger_keys A I) d" and v: "getValidator vid d = Some v" "\<not> val_is_seed v" "ValidatorInfo_wf v" "val_id v = vid"
    and room: "unat (reader_pot d) + unat (val_stake v) < 2 ^ 64"
  shows "\<exists>v'. getValidator vid (snd (executeSystemSlash vid h d)) = Some v' \<and>
      unat (val_stake v') = unat (val_stake v) - unat (val_stake v) * 500 div 10000 \<and>
      unat (reader_pot (snd (executeSystemSlash vid h d))) = unat (reader_pot d) + unat (val_stake v) * 500 div 10000"
proof -
  let ?s = "applyBps (val_stake v) SLASH_AMOUNT_BPS"
  define w where "w = applyInfractionPenalty (v\<lparr>val_stake := val_stake v - ?s\<rparr>) h"
  have w: "ValidatorInfo_wf w" "val_id w = vid" "val_stake w = val_stake v - ?s"
    using v(3,4) by (simp_all add: w_def applyInfractionPenalty_def Let_def ValidatorInfo_wf_def)
  define d1 where "d1 = putValidator w d"
  have k1: "keys_ok (ledger_keys A I) d1" using k by (simp add: d1_def)
  have g: "getValidator vid d1 = Some w" unfolding d1_def using getValidator_put(1) [OF k w(1), of vid] w(2) by simp
  have p: "reader_pot d1 = reader_pot d"
    using leaf_objects [OF k] by (simp add: d1_def reader_pot_leaf)
  have d': "snd (executeSystemSlash vid h d) = (if ?s > 0 then setPot (reader_pot d1 + ?s) d1 else d1)"
    using v slash_amount(2) [of "val_stake v"] by (simp add: executeSystemSlash_def Let_def d1_def w_def)
  have g': "getValidator vid (setPot x d1) = Some w" "reader_pot (setPot x d1) = x" for x
    using g leaf_objects [OF k1] by (simp_all add: setPot_def reader_pot_leaf getValidator_leaf writeGlobalU64_eq putGlobalU64_def)
  have "unat (reader_pot d + ?s) = unat (reader_pot d) + unat ?s"
    using room slash_amount(2) [of "val_stake v"] by (intro unat_add_no_overflow) (simp add: word_le_nat_alt)
  moreover have "unat (val_stake v - ?s) = unat (val_stake v) - unat ?s"
    using slash_amount(2) [of "val_stake v"] by (rule unat_sub_le)
  ultimately show ?thesis
    using g g' p w(3) slash_amount(1) [of "val_stake v"] unfolding d' by (auto simp: word_gt_0 unat_eq_0)
qed

section \<open>The offline check\<close>

lemma std_sort_Nil: "sort_ok srt \<Longrightarrow> strict_weak lt \<Longrightarrow> std_sort srt lt [] = []"
  using mset_std_sort [of srt lt "[]"] by simp

lemma offline_promotes_none:
  assumes "sort_ok srt" "\<And>vid v. vid \<in> set act \<Longrightarrow> getValidator vid d = Some v \<Longrightarrow> val_is_active v"
  shows "off_promoted (planOfflineRemoval srt (offline_registry act d) h) = []"
proof -
  have none: "filter (\<lambda>v. val_id v \<noteq> INVALID_ID \<and> \<not> val_is_active v \<and> val_id v \<notin> set xs \<and> canBeActive v)
      (reg_validators (offline_registry act d)) = []" for xs
    using assms(2) by (auto simp: offline_registry_def filter_empty_conv List.map_filter_def ValidatorInfo_default_def)
  show ?thesis
    unfolding planOfflineRemoval_def Let_def none std_sort_Nil [OF assms(1) strict_weak_orders(2)] by simp
qed

end
