(* ===== verification/Epoch_Laws.thy ===== *)
theory Epoch_Laws
  imports Reward_Laws
begin

text \<open>
  The epoch boundary as a whole: the pot and the pool of the epoch are split between what the stakers
  may claim, the new pot and what is burned.
\<close>

section \<open>Collections\<close>

definition collections :: "db \<Rightarrow> nft_collection list" where
  "collections d = List.map_filter (\<lambda>(key, v). if length key \<noteq> 8 then None else NftCollection_deserializeState v)
     (tab TBL_NFT_COLLECTIONS d)"

lemma forEachNftCollection_fold: "forEachNftCollection fn d s = foldl (\<lambda>s c. fn c s) s (collections d)"
proof -
  have "visit (\<lambda>key v s. if length key \<noteq> 8 then (True, s)
          else (case NftCollection_deserializeState v of None \<Rightarrow> (True, s) | Some c \<Rightarrow> (True, fn c s))) rows s =
      foldl (\<lambda>s c. fn c s) s (List.map_filter (\<lambda>(key, v). if length key \<noteq> 8 then None else NftCollection_deserializeState v) rows)" for rows
    by (induction rows arbitrary: s) (auto simp: map_filter_simps split: option.split)
  then show ?thesis by (simp add: forEachNftCollection_def Txn_forEach_def collections_def)
qed

text \<open>What the boundary leaves alone before the stakers are paid: accounts, their index and the globals.\<close>

definition same_stakers :: "address set \<Rightarrow> id set \<Rightarrow> db \<Rightarrow> db \<Rightarrow> bool" where
  "same_stakers A I d' d \<longleftrightarrow> (keys_ok (ledger_keys A I) d \<longrightarrow> keys_ok (ledger_keys A I) d') \<and>
     (\<forall>a \<in> A. leaf (KAccount a) d' = leaf (KAccount a) d) \<and> staker_list d' = staker_list d"

lemma same_stakers_trans: "same_stakers A I d2 d1 \<Longrightarrow> same_stakers A I d1 d \<Longrightarrow> same_stakers A I d2 d"
  by (simp add: same_stakers_def)

lemma accrue_frame:
  assumes "keys_ok (ledger_keys A I) d"
  shows "same_stakers A I (accrue_collection c d) d"
    "n \<in> global_names \<Longrightarrow> leaf (KGlobal n) (accrue_collection c d) = leaf (KGlobal n) d"
proof -
  have "tab TBL_INDEX_STAKERS (putNftCollection c' d) = tab TBL_INDEX_STAKERS d" for c'
    by (simp add: putNftCollection_def putBlobRow_def Let_def)
  then show "same_stakers A I (accrue_collection c d) d"
    using assms by (simp add: same_stakers_def accrue_collection_def Let_def staker_list_def leaf_objects)
  show "leaf (KGlobal n) (accrue_collection c d) = leaf (KGlobal n) d" if "n \<in> global_names"
    using assms that by (simp add: accrue_collection_def Let_def leaf_objects)
qed

lemma accrue_all_frame:
  assumes "keys_ok (ledger_keys A I) d"
  shows "same_stakers A I (foldl (\<lambda>s c. accrue_collection c s) d cs) d \<and>
    (\<forall>n \<in> global_names. leaf (KGlobal n) (foldl (\<lambda>s c. accrue_collection c s) d cs) = leaf (KGlobal n) d)"
  using assms
proof (induction cs arbitrary: d)
  case Nil
  then show ?case by (simp add: same_stakers_def)
next
  case (Cons c cs)
  note st = accrue_frame [OF Cons.prems, where c = c]
  have "keys_ok (ledger_keys A I) (accrue_collection c d)" using st(1) Cons.prems by (simp add: same_stakers_def)
  from Cons.IH [OF this] show ?case using st same_stakers_trans by auto
qed

lemma putMeta_same_stakers [simp]: "same_stakers A I (putMetaU64 n v d) d"
proof -
  have "tab TBL_INDEX_STAKERS (putMetaU64 n v d) = tab TBL_INDEX_STAKERS d"
    by (simp add: putMetaU64_def putMetaImpl_def)
  then show ?thesis by (simp add: same_stakers_def staker_list_def)
qed

lemma putGlobal_same_stakers:
  "keys_ok (ledger_keys A I) d \<Longrightarrow> n \<in> global_names \<Longrightarrow> same_stakers A I (putGlobal n b d) d"
  by (simp add: same_stakers_def staker_list_def leaf_objects) (simp add: putGlobal_def)

lemma same_stakers_reads:
  assumes "same_stakers A I d' d" "set (staker_list d) \<subseteq> A"
  shows "a \<in> A \<Longrightarrow> getAccount a d' = getAccount a d" "staker_list d' = staker_list d"
    "total_pending A d' = total_pending A d" "sum_list (map (weight_of s e d') (staker_list d')) = sum_list (map (weight_of s e d) (staker_list d))"
proof -
  show acct: "getAccount a d' = getAccount a d" if "a \<in> A" for a
    using assms(1) that by (simp add: same_stakers_def getAccount_smt leaf_def)
  show st: "staker_list d' = staker_list d" using assms(1) by (simp add: same_stakers_def)
  show "total_pending A d' = total_pending A d" by (simp add: total_pending_def pending_def acct)
  have "map (weight_of s e d') (staker_list d) = map (weight_of s e d) (staker_list d)"
    using assms(2) acct by (intro map_cong) (auto simp: weight_of_def)
  then show "sum_list (map (weight_of s e d') (staker_list d')) = sum_list (map (weight_of s e d) (staker_list d))"
    by (simp only: st)
qed

section \<open>The pot\<close>

definition EPOCH_POOL :: nat where "EPOCH_POOL = 2400000"

lemma epoch_pool: "unat (applyBps BLOCK_REWARD STAKER_SHARE_BPS * ROTATION_INTERVAL) = EPOCH_POOL"
  using reward_shares(2) by (simp add: unat_word_ariths ROTATION_INTERVAL_def EPOCH_POOL_def)

text \<open>The new pot as the code computes it, with signed 64-bit steps.\<close>

definition new_pot :: "u64 \<Rightarrow> pot_adjustment \<Rightarrow> u64 \<Rightarrow> u64" where
  "new_pot pot adj pot_max =
     (let p = pot + (adj_added_to_pot adj - adj_drained_from_pot adj); p = (if sint p < 0 then 0 else p)
      in if p > pot_max then pot_max else p)"

lemma new_pot_flow:
  fixes pot pool target base m :: u64
  assumes "unat pot + unat pool < 2 ^ 63"
  defines "adj \<equiv> applyPotMechanics pool target pot base"
  shows "\<exists>burned. unat (new_pot pot adj m) + unat (adj_distributed adj) + burned = unat pot + unat pool \<and>
    (burned > 0 \<longrightarrow> new_pot pot adj m = m)" "new_pot pot adj m \<le> m" "unat (adj_distributed adj) \<le> unat pot + unat pool"
proof -
  have "unat pot + unat pool < 2 ^ 64" using assms(1) by simp
  note fl = pot_flow [OF this, of target base, folded adj_def]
  have le: "unat (adj_drained_from_pot adj) \<le> unat pot" using fl(2) by (simp add: word_le_nat_alt)
  define p where "p = pot + (adj_added_to_pot adj - adj_drained_from_pot adj)"
  have pe: "p = pot + adj_added_to_pot adj - adj_drained_from_pot adj" by (simp add: p_def algebra_simps)
  have sum: "unat (pot + adj_added_to_pot adj) = unat pot + unat (adj_added_to_pot adj)"
    using fl(5) by (intro unat_add_no_overflow) simp
  have up: "unat p = unat pot + unat (adj_added_to_pot adj) - unat (adj_drained_from_pot adj)"
    unfolding pe using sum le by (subst unat_sub_le) (simp_all add: word_le_nat_alt)
  have flow: "unat p + unat (adj_distributed adj) = unat pot + unat pool" using up fl(1) le by linarith
  then have "unat p < 2 ^ 63" using assms(1) by simp
  then have "uint p < 2 ^ 63" by (metis of_nat_less_iff of_nat_numeral of_nat_power uint_nat)
  moreover have "- (2 ^ 63) \<le> uint p" by (rule order_trans [of _ 0]) simp_all
  ultimately have "sint p = uint p" unfolding sint_uint by (intro signed_take_bit_int_eq_self) simp_all
  then have "0 \<le> sint p" by simp
  then have np: "new_pot pot adj m = (if p > m then m else p)" by (simp add: new_pot_def p_def [symmetric] Let_def)
  show "new_pot pot adj m \<le> m" by (simp add: np not_less)
  show "unat (adj_distributed adj) \<le> unat pot + unat pool" using flow by simp
  show "\<exists>burned. unat (new_pot pot adj m) + unat (adj_distributed adj) + burned = unat pot + unat pool \<and>
    (burned > 0 \<longrightarrow> new_pot pot adj m = m)"
    by (rule exI [of _ "unat p - unat (new_pot pot adj m)"])
      (use flow in \<open>auto simp: np word_less_nat_alt\<close>)
qed

text \<open>The whole boundary.\<close>

lemma leaf_pay_stakers:
  assumes "keys_ok (ledger_keys A I) d" "set (staker_list d) \<subseteq> A" "n \<in> global_names" "n \<noteq> ''total_staked''" "n \<noteq> ''staker_count''"
  shows "leaf (KGlobal n) (pay_stakers s e k D d) = leaf (KGlobal n) d"
proof -
  have "leaf (KGlobal n) (foldl (pay_staker s e k D W) d as) = leaf (KGlobal n) d" if "set as \<subseteq> A" "keys_ok (ledger_keys A I) d" for W as d
    using that
  proof (induction as arbitrary: d)
    case (Cons a as)
    have "leaf (KGlobal n) (pay_staker s e k D W d a) = leaf (KGlobal n) d"
      using Cons.prems assms(3-5) by (simp add: pay_staker_def Let_def leaf_putAccount split: option.split)
    moreover have "keys_ok (ledger_keys A I) (pay_staker s e k D W d a)"
      using Cons.prems by (intro pay_staker_effect(1)) simp_all
    ultimately show ?case using Cons by simp
  qed simp
  from this [OF assms(2,1)] show ?thesis
    unfolding pay_stakers_def forEachStaker_fold Let_def pay_staker_def [abs_def] by simp
qed

lemma boundary_split:
  fixes block :: block and h :: u64 and d :: db
  obtains target d1 s e k where "\<And>A I. keys_ok (ledger_keys A I) d \<Longrightarrow> same_stakers A I d1 d"
    "\<And>A I. keys_ok (ledger_keys A I) d \<Longrightarrow> leaf (KGlobal ''pot'') d1 = Some (writeU64 (new_pot (readU64Global ''pot'' d)
       (applyPotMechanics (applyBps BLOCK_REWARD STAKER_SHARE_BPS * ROTATION_INTERVAL) target (readU64Global ''pot'' d)
          (applyBps BLOCK_REWARD STAKER_SHARE_BPS * ROTATION_INTERVAL))
       (applyBps BLOCK_REWARD STAKER_SHARE_BPS * ROTATION_INTERVAL * POT_MAX_EPOCHS)))"
    "processEpochBoundary block h d = d1 \<or> processEpochBoundary block h d = pay_stakers s e k
       (adj_distributed (applyPotMechanics (applyBps BLOCK_REWARD STAKER_SHARE_BPS * ROTATION_INTERVAL) target (readU64Global ''pot'' d)
          (applyBps BLOCK_REWARD STAKER_SHARE_BPS * ROTATION_INTERVAL))) d1"
    "s = (if h + 1 \<ge> ROTATION_INTERVAL then h + 1 - ROTATION_INTERVAL else 0)" "e = h"
proof -
  define pool where "pool = applyBps BLOCK_REWARD STAKER_SHARE_BPS * ROTATION_INTERVAL"
  define pot where "pot = readU64Global ''pot'' d"
  define tx where "tx = (if readU64Meta ''tx_counter'' d \<ge> readU64Meta ''tx_counter_at_epoch_start'' d
      then readU64Meta ''tx_counter'' d - readU64Meta ''tx_counter_at_epoch_start'' d else 0)"
  define rctx where "rctx = RewardContext_default\<lparr>rc_height := h, rc_epoch_number := epochOf h,
      rc_active_set_size := ucast (hdr_active_validator_count (blk_header block)),
      rc_total_staked := readU64Global ''total_staked'' d, rc_pot := pot, rc_fees_this_block := 0,
      rc_block_reward_atomic := BLOCK_REWARD, rc_apy_base_bps := APY_BASE_BPS,
      rc_apy_activity_bps := computeActivityBps (if ROTATION_INTERVAL > 0 then tx div ROTATION_INTERVAL else 0),
      rc_apy_pot_bonus_bps := computePotBonusBps pot pool\<rparr>"
  define apy where "apy = computeEffectiveApy rctx SECONDS_PER_EPOCH"
  define target where "target = computeTargetStakerPayout rctx apy SECONDS_PER_EPOCH"
  define adj where "adj = applyPotMechanics pool target pot pool"
  define d0 where "d0 = putMetaU64 ''tx_counter_at_epoch_start'' (readU64Meta ''tx_counter'' d) (putMetaU64 ''last_effective_apy_bps'' (ucast apy) d)"
  define dp where "dp = putGlobal ''pot'' (writeU64 (new_pot pot adj (pool * POT_MAX_EPOCHS))) d0"
  define dm where "dm = putMetaU64 ''total_pot_distributed'' (getMetaU64 ''total_pot_distributed'' dp + adj_distributed adj) dp"
  define d1 where "d1 = foldl (\<lambda>s c. accrue_collection c s) dm (collections dm)"
  let ?s = "if h + 1 \<ge> ROTATION_INTERVAL then h + 1 - ROTATION_INTERVAL else 0"
  have eq: "processEpochBoundary block h d = (if adj_distributed adj = 0 \<or> readU64Global ''total_staked'' d = 0 \<or> readU64Global ''staker_count'' d = 0
      then d1 else pay_stakers ?s h (epochOf h) (adj_distributed adj) d1)"
    unfolding processEpochBoundary_def forEachNftCollection_fold writeU64Global_eq d1_def dm_def dp_def d0_def adj_def target_def apy_def rctx_def tx_def pot_def pool_def new_pot_def Let_def
    by (simp only: reward_context.select_convs reward_context.update_convs RewardContext_default_def)
  show ?thesis
  proof (rule that [of d1 target ?s h "epochOf h", folded pool_def pot_def adj_def])
    fix A I assume k: "keys_ok (ledger_keys A I) d"
    then have k0: "keys_ok (ledger_keys A I) d0" by (simp add: d0_def)
    then have km: "keys_ok (ledger_keys A I) dm" by (simp add: dm_def dp_def)
    note ac = accrue_all_frame [OF km, of "collections dm", folded d1_def]
    have "same_stakers A I dm d"
      unfolding dm_def dp_def using putGlobal_same_stakers [OF k0, of "''pot''"]
      by (intro same_stakers_trans [OF putMeta_same_stakers same_stakers_trans [of A I _ d0 d]])
        (simp_all add: d0_def same_stakers_trans [OF putMeta_same_stakers putMeta_same_stakers])
    then show "same_stakers A I d1 d" using ac same_stakers_trans by blast
    have "leaf (KGlobal ''pot'') dm = Some (writeU64 (new_pot pot adj (pool * POT_MAX_EPOCHS)))"
      using k0 by (simp add: dm_def dp_def leaf_objects)
    then show "leaf (KGlobal ''pot'') d1 = Some (writeU64 (new_pot pot adj (pool * POT_MAX_EPOCHS)))" using ac by simp
  qed (auto simp: eq)
qed

lemma boundary_flow:
  fixes block :: block and h :: u64
  assumes "keys_ok (ledger_keys A I) d" "finite A" "set (staker_list d) \<subseteq> A"
    and "unat (readU64Global ''pot'' d) + EPOCH_POOL < 2 ^ 63"
    and "\<forall>a \<in> A. unat (pending d a) + (unat (readU64Global ''pot'' d) + EPOCH_POOL) < 2 ^ 64"
    and "(unat (readU64Global ''pot'' d) + EPOCH_POOL) * W < 2 ^ 128" "W < 2 ^ 128"
    and "W = sum_list (map (weight_of (if h + 1 \<ge> ROTATION_INTERVAL then h + 1 - ROTATION_INTERVAL else 0) h d) (staker_list d))"
  defines "d' \<equiv> processEpochBoundary block h d"
  shows "\<exists>distributed burned. unat (readU64Global ''pot'' d') + distributed + burned = unat (readU64Global ''pot'' d) + EPOCH_POOL \<and>
    total_pending A d' \<le> total_pending A d + distributed"
proof -
  let ?pool = "applyBps BLOCK_REWARD STAKER_SHARE_BPS * ROTATION_INTERVAL" and ?pot = "readU64Global ''pot'' d"
  obtain target d1 s e k where same: "same_stakers A I d1 d"
    and pot: "leaf (KGlobal ''pot'') d1 = Some (writeU64 (new_pot ?pot (applyPotMechanics ?pool target ?pot ?pool) (?pool * POT_MAX_EPOCHS)))"
    and d': "d' = d1 \<or> d' = pay_stakers s e k (adj_distributed (applyPotMechanics ?pool target ?pot ?pool)) d1"
    and se: "s = (if h + 1 \<ge> ROTATION_INTERVAL then h + 1 - ROTATION_INTERVAL else 0)" "e = h"
    using boundary_split [of d block h] assms(1) unfolding d'_def by metis
  let ?D = "adj_distributed (applyPotMechanics ?pool target ?pot ?pool)"
  have "unat ?pot + unat ?pool < 2 ^ 63" using assms(4) by (simp add: epoch_pool)
  note fl = new_pot_flow(1) [OF this, of target ?pool "?pool * POT_MAX_EPOCHS", unfolded epoch_pool]
    and most = new_pot_flow(3) [OF this, of target ?pool, unfolded epoch_pool]
  have k1: "keys_ok (ledger_keys A I) d1" using same assms(1) by (simp add: same_stakers_def)
  note rd = same_stakers_reads [OF same assms(3)]
  have as1: "set (staker_list d1) \<subseteq> A" using rd(2) assms(3) by simp
  have w1: "sum_list (map (weight_of s e d1) (staker_list d1)) = W" unfolding rd(4) assms(8) se by simp
  have "unat ?D * W \<le> (unat ?pot + EPOCH_POOL) * W" using most by (rule mult_le_mono1)
  then have wt: "unat ?D * W < 2 ^ 128" using assms(6) by (rule order.strict_trans1)
  have room: "\<forall>a \<in> A. unat (pending d1 a) + unat ?D < 2 ^ 64"
    using assms(5) most rd(1) by (fastforce simp: pending_def)
  note pay = pay_stakers_effect [OF k1 assms(2) as1, of ?D s e, unfolded w1, OF wt assms(7) room, where n = k]
  have pend: "total_pending A d' \<le> total_pending A d + unat ?D" using d' pay(3) rd(3) by auto
  have "leaf (KGlobal ''pot'') d' = leaf (KGlobal ''pot'') d1"
    using d' leaf_pay_stakers [OF k1 as1, of "''pot''" s e k ?D] by auto
  then have "readU64Global ''pot'' d' = new_pot ?pot (applyPotMechanics ?pool target ?pot ?pool) (?pool * POT_MAX_EPOCHS)"
    by (simp add: readU64Global_leaf pot)
  then show ?thesis using fl pend by auto
qed

end
