(* ===== verification/Block_Samples.thy ===== *)
theory Block_Samples
  imports Block_Facts Epoch_Laws Exec_Samples
begin

text \<open>
  A chain of four validators and a block on it, for the witnesses of the properties of blocks.
\<close>

section \<open>The active set\<close>

lemma save_bytes: "foldl (\<lambda>out vid. foldl (\<lambda>out i. out @ [ucast (drop_bit (i * 8) vid)]) out [0..<8]) out xs
    = out @ concat (map (\<lambda>vid :: u64. writeU64 vid) xs)"
  by (induction xs arbitrary: out) (simp_all add: writeU64_def foldl_snoc)

lemma length_concat_u64: "length (concat (map (\<lambda>vid :: u64. writeU64 vid) xs)) = length xs * 8"
  by (induction xs) simp_all

lemma nth_concat_u64:
  "i < length xs \<Longrightarrow> j < 8 \<Longrightarrow> concat (map (\<lambda>vid :: u64. writeU64 vid) xs) ! (i * 8 + j) = writeU64 (xs ! i) ! j"
proof (induction xs arbitrary: i)
  case (Cons x xs)
  show ?case
  proof (cases i)
    case 0
    then show ?thesis using Cons.prems by (simp add: nth_append)
  next
    case (Suc k)
    then show ?thesis using Cons by (simp add: nth_append)
  qed
qed simp

lemma loadActiveSet_leaf:
  "leaf (KGlobal ''active_set'') d = Some (concat (map (\<lambda>vid. writeU64 vid) xs)) \<Longrightarrow> loadActiveSet d = xs"
proof -
  assume l: "leaf (KGlobal ''active_set'') d = Some (concat (map (\<lambda>vid. writeU64 vid) xs))"
  have "foldl (\<lambda>v j. v OR push_bit (j * 8) (ucast (concat (map (\<lambda>vid. writeU64 vid) xs) ! (i * 8 + j)))) 0 [0..<8] = xs ! i"
    if "i < length xs" for i
  proof -
    have "foldl (\<lambda>v j. v OR push_bit (j * 8) (ucast (concat (map (\<lambda>vid. writeU64 vid) xs) ! (i * 8 + j)))) 0 [0..<8]
        = foldl (\<lambda>v j. v OR push_bit (j * 8) (ucast (writeU64 (xs ! i) ! j))) 0 [0..<8]"
      by (rule foldl_cong) (simp_all add: nth_concat_u64 that)
    also have "\<dots> = readU64 (writeU64 (xs ! i))" by (simp add: readU64_def)
    finally show ?thesis by (simp add: codec_simps)
  qed
  then have "map (\<lambda>i. foldl (\<lambda>v j. v OR push_bit (j * 8) (ucast (concat (map (\<lambda>vid. writeU64 vid) xs) ! (i * 8 + j)))) 0 [0..<8]) [0..<length xs] = xs"
    by (intro nth_equalityI) simp_all
  then show ?thesis using l by (simp add: loadActiveSet_def getGlobal_def leaf_def Keys_skey length_concat_u64)
qed

lemma loadActiveSet_save:
  "keys_ok (ledger_keys A I) d \<Longrightarrow> loadActiveSet (saveActiveSet xs d) = xs"
  by (rule loadActiveSet_leaf) (simp add: saveActiveSet_def save_bytes leaf_objects)

section \<open>A digest that keeps what a vote says\<close>

definition voteH :: "bytes \<Rightarrow> hash" where
  "voteH b = (if length b = 62 then drop 30 b else sampleH b)"

lemma length_voteH [simp]: "length (voteH b) = 32"
  by (simp add: voteH_def)

lemma skey_voteH: "k \<in> ledger_keys sample_addrs I \<Longrightarrow> skey_of voteH k = skey_of sampleH k"
proof -
  assume k: "k \<in> ledger_keys sample_addrs I"
  have "length (key_pre k) \<noteq> 62"
    using k global_names_nonzero by (cases k) (fastforce simp: key_pre_def ledger_keys_def sample_addrs_def)+
  then show ?thesis by (simp add: skey_of_def voteH_def)
qed

lemma keys_ok_voteH: "keys_ok (ledger_keys sample_addrs I) (db_init voteH v)"
proof -
  have "collision_free voteH (ledger_keys sample_addrs I)"
    using collision_free_sampleH [of I] unfolding collision_free_def by (simp cong: inj_on_cong add: skey_voteH)
  then show ?thesis by (simp add: keys_ok_def)
qed

section \<open>Four validators\<close>

definition sample_chain :: db where
  "sample_chain = saveActiveSet [1, 2, 3, 4] (putValidator (sample_validator 4 4) (putValidator (sample_validator 3 3)
     (putValidator (sample_validator 2 2) (putValidator (sample_validator 1 1) (db_init voteH 0)))))"

lemma chain_keys: "keys_ok (ledger_keys sample_addrs I) sample_chain"
  by (simp add: sample_chain_def saveActiveSet_def keys_ok_voteH)

lemma chain_active [simp]: "loadActiveSet sample_chain = [1, 2, 3, 4]"
  unfolding sample_chain_def by (rule loadActiveSet_save [where A = sample_addrs and I = "{}"]) (simp add: keys_ok_voteH)

lemma chain_hash [simp]: "db_hash sample_chain = voteH"
  by (simp add: sample_chain_def saveActiveSet_def)

lemma chain_validator:
  "getValidator i sample_chain = (if i \<in> {1, 2, 3, 4} then Some (sample_validator i (ucast i)) else None)"
  "validatorKeyAtHeight i h sample_chain = (if i \<in> {1, 2, 3, 4} then Some (sample_addr (ucast i)) else None)"
proof -
  let ?i = "db_init voteH 0"
  let ?d1 = "putValidator (sample_validator 1 1) ?i" let ?d2 = "putValidator (sample_validator 2 2) ?d1"
  let ?d3 = "putValidator (sample_validator 3 3) ?d2" let ?d4 = "putValidator (sample_validator 4 4) ?d3"
  have k: "keys_ok (ledger_keys sample_addrs {}) ?i" by (rule keys_ok_voteH)
  have k1: "keys_ok (ledger_keys sample_addrs {}) ?d1" and k2: "keys_ok (ledger_keys sample_addrs {}) ?d2"
    and k3: "keys_ok (ledger_keys sample_addrs {}) ?d3" and k4: "keys_ok (ledger_keys sample_addrs {}) ?d4"
    using k by simp_all
  have init: "leaf (KValidatorKeyHistory i) ?i = None" by (simp add: leaf_def smt_get_def db_init_def)
  have "leaf (KValidator i) sample_chain = leaf (KValidator i) ?d4"
    "leaf (KValidatorKeyHistory i) sample_chain = leaf (KValidatorKeyHistory i) ?d4"
    using k4 by (simp_all add: sample_chain_def saveActiveSet_def leaf_objects)
  then have eq: "getValidator i sample_chain = getValidator i ?d4"
    and hist: "leaf (KValidatorKeyHistory i) sample_chain = None"
    using init leaf_objects(4) [OF k] leaf_objects(4) [OF k1] leaf_objects(4) [OF k2] leaf_objects(4) [OF k3]
    by (simp_all add: getValidator_leaf)
  have none: "getValidator i ?i = None" by (simp add: getValidator_leaf leaf_def smt_get_def db_init_def)
  show v: "getValidator i sample_chain = (if i \<in> {1, 2, 3, 4} then Some (sample_validator i (ucast i)) else None)"
    unfolding eq using none by (auto simp: getValidator_put(1) [OF k] getValidator_put(1) [OF k1] getValidator_put(1) [OF k2]
        getValidator_put(1) [OF k3])
  have "getValidatorKeyHistory i sample_chain = None"
    using hist by (simp add: getValidatorKeyHistory_def smt_typed_alt leaf_def Keys_skey)
  then show "validatorKeyAtHeight i h sample_chain = (if i \<in> {1, 2, 3, 4} then Some (sample_addr (ucast i)) else None)"
    by (auto simp: validatorKeyAtHeight_def v effectiveConsensusKey_def sample_validator_def)
qed

section \<open>A block\<close>

definition sample_header :: block_header where
  "sample_header = \<lparr>hdr_version = 1, hdr_chain_id = 1, hdr_height = 5, hdr_parent_hash = sample_addr 9, hdr_timestamp_ms = 0,
     hdr_proposer = sample_addr 1, hdr_epoch = 0, hdr_rotation_index = 0, hdr_commit_round = 0, hdr_emergency_rotation = 0,
     hdr_timeout_certificate = [], hdr_timeout_certificate_hash = null32, hdr_state_root = sample_addr 7,
     hdr_tx_root = computeTxRoot voteH [], hdr_receipts_root = null32, hdr_epoch_fills_root = null32,
     hdr_validator_set_root = computeValidatorSetRoot voteH [1, 2, 3, 4], hdr_total_fees = 0, hdr_tx_count = 0,
     hdr_active_validator_count = 4\<rparr>"

definition sample_block :: "u16 list \<Rightarrow> block" where
  "sample_block ix = \<lparr>blk_header = sample_header, blk_transactions = [],
     blk_quorum_signatures = map (\<lambda>i. \<lparr>vs_signer_index = i, vs_signature = replicate 64 1\<rparr>) ix, blk_participants = []\<rparr>"

definition sample_bctx :: block_context where
  "sample_bctx = \<lparr>bctx_chain_id = 1, bctx_current_height = 5, bctx_dry_run = False\<rparr>"

lemma sample_block_fields [simp]:
  "blk_header (sample_block ix) = sample_header" "blk_transactions (sample_block ix) = []" "blk_participants (sample_block ix) = []"
  "hdr_version sample_header = 1" "hdr_chain_id sample_header = 1" "hdr_height sample_header = 5" "hdr_commit_round sample_header = 0"
  "hdr_emergency_rotation sample_header = 0" "hdr_timeout_certificate sample_header = []" "hdr_timestamp_ms sample_header = 0"
  "hdr_parent_hash sample_header = sample_addr 9" "hdr_proposer sample_header = sample_addr 1" "hdr_state_root sample_header = sample_addr 7"
  "hdr_tx_root sample_header = computeTxRoot voteH []" "hdr_receipts_root sample_header = null32"
  "hdr_epoch_fills_root sample_header = null32" "hdr_validator_set_root sample_header = computeValidatorSetRoot voteH [1, 2, 3, 4]"
  "hdr_tx_count sample_header = 0" "hdr_active_validator_count sample_header = 4" "hdr_timeout_certificate_hash sample_header = null32"
  "bctx_chain_id sample_bctx = 1" "bctx_current_height sample_bctx = 5" "\<not> bctx_dry_run sample_bctx"
  by (simp_all add: sample_block_def sample_header_def sample_bctx_def)

text \<open>Everyone signs the sample block and nothing else.\<close>

definition sample_sig :: "hash \<Rightarrow> pubkey \<Rightarrow> bytes \<Rightarrow> bool" where
  "sample_sig h pk s \<longleftrightarrow> h = voteSigningHash (\<lambda>r n. drop_bit n r) voteH 5 0 False (BlockHeader_hash voteH sample_header)"

lemma sample_signs_once: "signs_once (\<lambda>r n. drop_bit n r) sample_sig voteH 5 0 pk"
proof -
  have "voteSigningHash (\<lambda>r n. drop_bit n r) voteH 5 0 False x = x" if "length x = 32" for x
    using that by (simp add: voteSigningHash_def hashDomain_def voteH_def round_bytes_def)
  then show ?thesis by (simp add: signs_once_def sample_sig_def)
qed

lemma sample_accepted:
  assumes "ix = [0, 1, 2] \<or> ix = [1, 2, 3]"
  obtains r d' where "applyBlock (\<lambda>r n. drop_bit n r) srt sample_sig (\<lambda>_. sample_addr 7) 0 (sample_block ix) sample_bctx sample_chain = Some (r, d')"
    "res_valid r"
proof -
  let ?b = "sample_block ix"
  have hdr: "checkHeader 0 voteH ?b sample_bctx = None"
    by (simp add: checkHeader_def BlockHeader_isWellFormed_def CURRENT_BLOCK_VERSION_def)
  have q: "checkQuorum (\<lambda>r n. drop_bit n r) sample_sig ?b [1, 2, 3, 4] sample_chain = None"
    using assms by (auto simp: checkQuorum_def sample_block_def Let_def bftQuorum_def INVALID_INDEX_def chain_validator
        sample_sig_def Block_hash_def unat_word_ariths)
  have st: "applyTransactions sample_sig ?b sample_bctx sample_chain =
      Some (\<lparr>run_error = None, run_failed_txid = null32, run_receipts = [], run_tx_hashes = []\<rparr>, sample_chain)"
    by (simp add: applyTransactions_def)
  obtain d' where fin: "finish_block srt ?b sample_bctx [1, 2, 3, 4] [1, 2, 3, 4] sample_chain = ([], d')"
    by (simp add: finish_block_def ROTATION_INTERVAL_def Let_def)
  have "applyBlock (\<lambda>r n. drop_bit n r) srt sample_sig (\<lambda>_. sample_addr 7) 0 ?b sample_bctx sample_chain =
      Some (\<lparr>res_valid = True, res_error = None, res_new_state_root = sample_addr 7, res_new_receipts_root = null32,
        res_receipts = [], res_tx_hashes = [], res_block_hash = Block_hash voteH ?b, res_failed_txid = null32, res_epoch_fills = []\<rparr>, d')"
    unfolding applyBlock_def Let_def chain_hash chain_active hdr
    using q st fin
    by (simp add: checkTxRoot_def checkValidatorSetRoot_def check_commitments_def)
  then show ?thesis using that by simp
qed

lemma sample_block_wf:
  "length ix \<le> 10000 \<Longrightarrow> Block_wf ((sample_block ix)\<lparr>blk_header := sample_header\<lparr>hdr_commit_round := c\<rparr>\<rparr>)"
  "length ix \<ge> 3 \<Longrightarrow> Block_isWellFormed ((sample_block ix)\<lparr>blk_header := sample_header\<lparr>hdr_commit_round := c\<rparr>\<rparr>)"
proof -
  have roots: "length (computeTxRoot voteH []) = 32" "length (computeValidatorSetRoot voteH xs) = 32" for xs
    unfolding computeTxRoot_def computeValidatorSetRoot_def by (rule length_merkle_root; simp add: list_all_iff)+
  have hw: "Header_wf (sample_header\<lparr>hdr_commit_round := c\<rparr>)"
    using roots by (simp add: Header_wf_def Certificate_wf_def MAX_CERT_VOTES_def null32_def TimeoutCertificate_serialize_eq MAX_CERT_BYTES_def)
  have "length (BlockHeader_serialize (sample_header\<lparr>hdr_commit_round := c\<rparr>)) \<le> MAX_HEADER_BYTES"
    by (simp add: BlockHeader_serialize_eq MAX_HEADER_BYTES_def TimeoutCertificate_serialize_eq roots null32_def)
  then show "length ix \<le> 10000 \<Longrightarrow> Block_wf ((sample_block ix)\<lparr>blk_header := sample_header\<lparr>hdr_commit_round := c\<rparr>\<rparr>)"
    using hw by (simp add: Block_wf_def) (simp add: sample_block_def list_all_iff)
  show "length ix \<ge> 3 \<Longrightarrow> Block_isWellFormed ((sample_block ix)\<lparr>blk_header := sample_header\<lparr>hdr_commit_round := c\<rparr>\<rparr>)"
    by (simp add: Block_isWellFormed_def BlockHeader_isWellFormed_def CURRENT_BLOCK_VERSION_def bftQuorum_def unat_word_ariths)
      (simp add: sample_block_def)
qed

lemma sample_block_round: "(sample_block ix)\<lparr>blk_header := sample_header\<lparr>hdr_commit_round := 0\<rparr>\<rparr> = sample_block ix"
  by (simp add: sample_block_def sample_header_def)

section \<open>Balances, the pot and a staker\<close>

lemma chain_bal: "a \<in> sample_addrs \<Longrightarrow> bal a t sample_chain = 0"
proof -
  assume a: "a \<in> sample_addrs"
  have k: "keys_ok (ledger_keys sample_addrs {}) (db_init voteH 0)" by (rule keys_ok_voteH)
  have "same_funds sample_addrs {} sample_chain (db_init voteH 0)"
    unfolding sample_chain_def saveActiveSet_def
    by (rule same_funds_trans [OF same_funds_ops(1)] same_funds_trans [OF same_funds_ops(4)] same_funds_refl | (use k in simp))+
  then show ?thesis using a bal_init [of a t voteH 0] by (simp add: same_funds_def)
qed

lemma chain_other:
  assumes "k \<in> ledger_keys sample_addrs I" "k \<noteq> KGlobal ''active_set''" "\<And>i. k \<noteq> KValidator i"
  shows "leaf k sample_chain = None"
proof -
  let ?i = "db_init voteH 0"
  let ?d1 = "putValidator (sample_validator 1 1) ?i" let ?d2 = "putValidator (sample_validator 2 2) ?d1"
  let ?d3 = "putValidator (sample_validator 3 3) ?d2" let ?d4 = "putValidator (sample_validator 4 4) ?d3"
  have k: "keys_ok (ledger_keys sample_addrs I) ?i" by (rule keys_ok_voteH)
  then have k1: "keys_ok (ledger_keys sample_addrs I) ?d1" and k2: "keys_ok (ledger_keys sample_addrs I) ?d2"
    and k3: "keys_ok (ledger_keys sample_addrs I) ?d3" and k4: "keys_ok (ledger_keys sample_addrs I) ?d4" by simp_all
  have "leaf k ?i = None" by (simp add: leaf_def smt_get_def db_init_def)
  then show ?thesis
    using assms leaf_objects(4) [OF k] leaf_objects(4) [OF k1] leaf_objects(4) [OF k2] leaf_objects(4) [OF k3] leaf_objects(1) [OF k4]
    by (simp add: sample_chain_def saveActiveSet_def)
qed

lemma chain_globals: "n \<in> global_names \<Longrightarrow> n \<noteq> ''active_set'' \<Longrightarrow> readU64Global n sample_chain = 0"
  using chain_other [of "KGlobal n" "{}"] by (simp add: readU64Global_leaf)

lemma chain_account: "a \<in> sample_addrs \<Longrightarrow> getAccount a sample_chain = Account_default"
  using chain_other [of "KAccount a" "{}"] by (simp add: getAccount_leaf decode_account_def)

lemma chain_payees: "payees_ok sample_addrs sample_chain"
  by (auto simp: payees_ok_def chain_validator split: if_splits)
    (auto simp: sample_validator_def ValidatorInfo_default_def REWARD_MULTIPLIER_START_def)

text \<open>At height 1 one account holds fifty coins.\<close>

definition next_chain :: db where
  "next_chain = sample_chain\<lparr>db_version := 1\<rparr>"

lemma next_chain_reads:
  "leaf k next_chain = leaf k sample_chain" "tab t next_chain = tab t sample_chain" "db_hash next_chain = voteH" "db_version next_chain = 1"
  "getAccount a next_chain = getAccount a sample_chain"
  by (simp_all add: next_chain_def leaf_def smt_get_def tab_def getAccount_def)

lemma next_chain_keys: "keys_ok (ledger_keys sample_addrs I) next_chain"
  using chain_keys [of I] by (simp add: next_chain_def keys_ok_def db_ok_def)

definition staked_chain :: db where
  "staked_chain = putAccount (sample_addr 1) (sample_account 5000000) next_chain"

lemma staked_keys: "keys_ok (ledger_keys sample_addrs I) staked_chain"
  by (simp add: staked_chain_def next_chain_keys)

lemma tab_init [simp]: "tab t (db_init H v) = []"
  by (simp add: tab_def db_init_def)

lemma staked_stakers: "staker_list staked_chain = [sample_addr 1]"
proof -
  have "tab TBL_INDEX_STAKERS next_chain = []"
    by (simp add: next_chain_reads) (simp add: sample_chain_def saveActiveSet_def putGlobal_def putValidator_def putBlobRow_def putSentinel_def Let_def)
  moreover have "acct_staked (getAccount (sample_addr 1) next_chain) = 0" "acct_balance (getAccount (sample_addr 1) next_chain) = 0"
    by (simp_all add: next_chain_reads chain_account Account_default_def)
  moreover have "acct_staked (recalculateStaked AUTO_STAKE_THRESHOLD (sample_account 5000000)) = 5000000"
    "acct_balance (recalculateStaked AUTO_STAKE_THRESHOLD (sample_account 5000000)) = 5000000"
    by (simp_all add: recalculateStaked_def sample_account_def Account_default_def AUTO_STAKE_THRESHOLD_def ATOMIC_UNITS_PER_COIN_def)
  ultimately show ?thesis
    by (simp add: staker_list_def staked_chain_def putAccount_def Let_def indexStaker_def putSentinel_def putGlobalU64_def putGlobal_def
        indexTokenBalanceRow_def putU64Row_def putBlobRow_def)
qed

lemma staked_account:
  "a \<in> sample_addrs \<Longrightarrow> getAccount a staked_chain = (if a = sample_addr 1
     then (sample_account 5000000)\<lparr>acct_staked := 5000000, acct_staker_since_height := 1\<rparr> else Account_default)"
  using getAccount_putAccount [OF next_chain_keys, of "sample_addr 1" a "{}" "sample_account 5000000"] chain_account [of a]
  by (simp add: staked_chain_def stored_account_def recalculateStaked_def sample_account_def Account_default_def
      AUTO_STAKE_THRESHOLD_def ATOMIC_UNITS_PER_COIN_def chain_account next_chain_reads)

lemma staked_pot: "readU64Global ''pot'' staked_chain = 0"
  using leaf_putAccount [OF next_chain_keys, of "KGlobal ''pot''" "{}" "sample_addr 1"] chain_other [of "KGlobal ''pot''" "{}"]
  by (simp add: staked_chain_def readU64Global_leaf next_chain_reads)

lemma staked_weight: "weight_of 0 59 staked_chain (sample_addr 1) = 5000000 * 59"
  by (simp add: weight_of_def staker_weight_def staked_account sample_account_def Account_default_def blocksStakedIn_def
      ROTATION_INTERVAL_def BALANCE_BONUS_THRESHOLD_def ATOMIC_UNITS_PER_COIN_def Let_def)

end
