(* ===== verification/Block_Properties.thy ===== *)
theory Block_Properties
  imports Block_Samples
begin

text \<open>
  The properties of blocks, quorums, rotation and rewards.
\<close>

section \<open>Agreement\<close>

text \<open>
  C1. Agreement. Two blocks that \<^verbatim>\<open>applyBlock\<close> accepts on the same state, for the same height and commit round
  and with the same kind of validator set, have the same hash, as long as at most a third of the set is faulty and
  every other validator signs at most one block at that height and round.
\<close>

theorem accepted_blocks_agree:
  assumes "applyBlock shr srt sig_ok state_root now a ctx d = Some (ra, da)" "res_valid ra"
    and "applyBlock shr srt sig_ok state_root now' b ctx d = Some (rb, db)" "res_valid rb" "\<not> bctx_dry_run ctx"
    and "ucast (hdr_commit_round (blk_header b)) = (ucast (hdr_commit_round (blk_header a)) :: round')"
    and "hdr_emergency_rotation (blk_header a) > 0 \<longleftrightarrow> hdr_emergency_rotation (blk_header b) > 0"
    and "distinct (signing_set srt a ctx d)" "length (signing_set srt a ctx d) < 2 ^ 62"
    and "finite faulty" "3 * card faulty \<le> length (signing_set srt a ctx d)" "\<forall>x. length (db_hash d x) = 32"
    and "\<forall>vid pk. vid \<in> set (signing_set srt a ctx d) - faulty \<longrightarrow>
      validatorKeyAtHeight vid (bctx_current_height ctx) d = Some pk \<longrightarrow>
      signs_once shr sig_ok (db_hash d) (bctx_current_height ctx) (ucast (hdr_commit_round (blk_header a))) pk"
  shows "Block_hash (db_hash d) a = Block_hash (db_hash d) b"
proof -
  have same: "signing_set srt b ctx d = signing_set srt a ctx d" using assms(7) by (simp add: signing_set_def)
  from applyBlock_valid [OF assms(1,2)] have qa: "checkQuorum shr sig_ok a (signing_set srt a ctx d) d = None"
    and ha: "checkHeader now (db_hash d) a ctx = None" using assms(5) by metis+
  from applyBlock_valid [OF assms(3,4)] have qb: "checkQuorum shr sig_ok b (signing_set srt a ctx d) d = None"
    and hb: "checkHeader now' (db_hash d) b ctx = None" using assms(5) same by metis+
  have h: "hdr_height (blk_header a) = bctx_current_height ctx" "hdr_height (blk_header b) = bctx_current_height ctx"
    using ha hb by (auto simp: checkHeader_def Let_def split: if_splits)
  show ?thesis
    by (rule quorums_agree [OF qa qb h refl assms(6,8,9,10,11)]) (use assms(12,13) in auto)
qed

theorem accepted_blocks_agree_witness:
  "Block_hash voteH (sample_block [0, 1, 2]) = Block_hash voteH (sample_block [1, 2, 3])"
proof -
  let ?shr = "\<lambda>r n. drop_bit n (r :: u32)"
  obtain ra da where a: "applyBlock ?shr insertion_sort sample_sig (\<lambda>_. sample_addr 7) 0 (sample_block [0, 1, 2]) sample_bctx sample_chain = Some (ra, da)" "res_valid ra"
    using sample_accepted [of "[0, 1, 2]"] by blast
  obtain rb db where b: "applyBlock ?shr insertion_sort sample_sig (\<lambda>_. sample_addr 7) 0 (sample_block [1, 2, 3]) sample_bctx sample_chain = Some (rb, db)" "res_valid rb"
    using sample_accepted [of "[1, 2, 3]"] by blast
  have set: "signing_set insertion_sort (sample_block [0, 1, 2]) sample_bctx sample_chain = [1, 2, 3, 4]"
    by (simp add: signing_set_def)
  show ?thesis
    using accepted_blocks_agree [OF a b, of "{1}", unfolded set] sample_signs_once by simp
qed

text \<open>
  C2. Acceptance. A block that \<^verbatim>\<open>applyBlock\<close> accepts has the chain and height of its context, a parent, the roots it
  claims, a set of the size and root it claims that signed it with a quorum of distinct members, and only
  transactions that succeeded, one receipt each; the state it leaves has the root in the header.
\<close>

theorem accepted_block_checked:
  assumes "applyBlock shr srt sig_ok state_root now b ctx d = Some (r, d')" "res_valid r" "\<not> bctx_dry_run ctx"
    and "length (signing_set srt b ctx d) < 2 ^ 62"
  shows "hdr_chain_id (blk_header b) = bctx_chain_id ctx \<and> hdr_height (blk_header b) = bctx_current_height ctx \<and>
    hdr_tx_root (blk_header b) = computeTxRoot (db_hash d) (blk_transactions b) \<and>
    length (signing_set srt b ctx d) = unat (hdr_active_validator_count (blk_header b)) \<and>
    hdr_validator_set_root (blk_header b) = computeValidatorSetRoot (db_hash d) (signing_set srt b ctx d) \<and>
    signers b \<subseteq> {..<length (signing_set srt b ctx d)} \<and> length (signing_set srt b ctx d) * 2 div 3 + 1 \<le> card (signers b) \<and>
    (hdr_height (blk_header b) > 0 \<longrightarrow> state_root d' = hdr_state_root (blk_header b)) \<and>
    length (res_receipts r) = length (blk_transactions b) \<and> list_all (\<lambda>x. rcpt_status x = Success) (res_receipts r)"
proof -
  obtain run d1 where v: "checkHeader now (db_hash d) b ctx = None" "checkTxRoot (db_hash d) b = None"
    "length (signing_set srt b ctx d) = unat (hdr_active_validator_count (blk_header b))"
    "checkQuorum shr sig_ok b (signing_set srt b ctx d) d = None" "checkValidatorSetRoot (db_hash d) b (signing_set srt b ctx d) = None"
    "applyTransactions sig_ok b ctx d = Some (run, d1)" "run_error run = None" "res_receipts r = run_receipts run"
    "check_commitments (db_hash d) b ctx (state_root d') run (res_epoch_fills r) = None"
    using applyBlock_valid [OF assms(1,2)] assms(3) by metis
  have "hdr_height (blk_header b) > 0 \<Longrightarrow> \<not> isNull (hdr_state_root (blk_header b))"
    using v(1) assms(3) by (auto simp: checkHeader_def Let_def BlockHeader_isWellFormed_def split: if_splits)
  then have root: "hdr_height (blk_header b) > 0 \<longrightarrow> state_root d' = hdr_state_root (blk_header b)"
    using v(9) assms(3) by (auto simp: check_commitments_def Let_def split: if_splits)
  have "length (run_receipts run) = length (blk_transactions b) \<and> list_all (\<lambda>x. rcpt_status x = Success) (run_receipts run)"
    using apply_txs_receipts [OF v(6) [unfolded applyTransactions_def] v(7)] by simp
  moreover have "hdr_chain_id (blk_header b) = bctx_chain_id ctx" "hdr_height (blk_header b) = bctx_current_height ctx"
    using v(1) by (auto simp: checkHeader_def Let_def split: if_splits)
  moreover have "hdr_tx_root (blk_header b) = computeTxRoot (db_hash d) (blk_transactions b)"
    "hdr_validator_set_root (blk_header b) = computeValidatorSetRoot (db_hash d) (signing_set srt b ctx d)"
    using v(2,5) by (auto simp: checkTxRoot_def checkValidatorSetRoot_def split: if_splits)
  ultimately show ?thesis using checkQuorum_sound(1,2) [OF v(4) assms(4)] v(3,8) root by simp
qed

theorem accepted_block_checked_witness:
  "3 \<le> card (signers (sample_block [0, 1, 2])) \<and> signers (sample_block [0, 1, 2]) \<subseteq> {..<length [1 :: id, 2, 3, 4]}"
proof -
  obtain r d' where a: "applyBlock (\<lambda>r n. drop_bit n r) insertion_sort sample_sig (\<lambda>_. sample_addr 7) 0 (sample_block [0, 1, 2]) sample_bctx sample_chain = Some (r, d')" "res_valid r"
    using sample_accepted [of "[0, 1, 2]"] by blast
  have set: "signing_set insertion_sort (sample_block [0, 1, 2]) sample_bctx sample_chain = [1, 2, 3, 4]"
    by (simp add: signing_set_def)
  show ?thesis using accepted_block_checked [OF a, unfolded set] by simp
qed

text \<open>
  C3. What the hash of a block binds. Two well-formed blocks with the same hash have the same header, up to the commit round
  and the certificate whose hash is in the header, and the same transactions in the same order, up to the signatures.
\<close>

theorem block_hash_binds:
  assumes "Block_hash H a = Block_hash H b" "Block_wf a" "Block_wf b" "Block_isWellFormed a" "Block_isWellFormed b"
    and "checkTxRoot H a = None" "checkTxRoot H b = None"
    and "\<forall>x. length (H x) = 32" "inj_on H (block_inputs H a \<union> block_inputs H b)"
  shows "(blk_header a)\<lparr>hdr_commit_round := hdr_commit_round (blk_header b),
      hdr_timeout_certificate := hdr_timeout_certificate (blk_header b)\<rparr> = blk_header b \<and>
    map (\<lambda>tx. tx\<lparr>tx_signature := []\<rparr>) (blk_transactions a) = map (\<lambda>tx. tx\<lparr>tx_signature := []\<rparr>) (blk_transactions b)"
proof -
  have wf: "Header_wf (blk_header a)" "Header_wf (blk_header b)" "list_all Transaction_wf (blk_transactions a)"
    "list_all Transaction_wf (blk_transactions b)" using assms(2,3) by (simp_all add: Block_wf_def)
  note det = block_hash_determines [OF assms(1) wf(1,2) _ assms(9)]
  have hdr: "(blk_header a)\<lparr>hdr_commit_round := hdr_commit_round (blk_header b),
      hdr_timeout_certificate := hdr_timeout_certificate (blk_header b)\<rparr> = blk_header b" using det(1) assms(8) by blast
  then have "hdr_tx_count (blk_header a) = hdr_tx_count (blk_header b)"
    by (metis block_header.select_convs block_header.surjective block_header.update_convs)
  then have "length (blk_transactions a) = length (blk_transactions b)"
    using assms(4,5) by (simp add: Block_isWellFormed_def split: if_splits)
  with hdr det(2) [OF _ assms(6,7) wf(3,4)] show ?thesis using assms(8) by blast
qed

definition later_block :: block where
  "later_block = (sample_block [1, 2, 3])\<lparr>blk_header := sample_header\<lparr>hdr_commit_round := 3\<rparr>\<rparr>"

theorem block_hash_binds_witness:
  "Block_hash voteH (sample_block [0, 1, 2]) = Block_hash voteH later_block \<and>
   sample_header\<lparr>hdr_commit_round := 3, hdr_timeout_certificate := []\<rparr> = blk_header later_block"
proof -
  let ?a = "sample_block [0, 1, 2]"
  have h: "Block_hash voteH ?a = Block_hash voteH later_block" and bytes: "BlockHeader_serializeForHash (blk_header later_block) = BlockHeader_serializeForHash sample_header"
    by (simp_all add: Block_hash_def BlockHeader_hash_def later_block_def serializeForHash_eq)
  have wf: "Block_wf ?a" "Block_wf later_block"
    using sample_block_wf(1) [of "[0, 1, 2]" 0] sample_block_wf(1) [of "[1, 2, 3]" 3]
    by (simp_all add: later_block_def sample_block_round)
  have iwf: "Block_isWellFormed ?a" "Block_isWellFormed later_block"
    using sample_block_wf(2) [of "[0, 1, 2]" 0] sample_block_wf(2) [of "[1, 2, 3]" 3]
    by (simp_all add: later_block_def sample_block_round)
  have "block_inputs voteH ?a \<union> block_inputs voteH later_block = {str ''CLRTY_BLOCKHDR_V1'' @ BlockHeader_serializeForHash sample_header}"
    by (simp add: block_inputs_def bytes) (simp add: later_block_def)
  then have inj: "inj_on voteH (block_inputs voteH ?a \<union> block_inputs voteH later_block)" by simp
  have "checkTxRoot voteH ?a = None" "checkTxRoot voteH later_block = None" by (simp_all add: checkTxRoot_def later_block_def)
  from block_hash_binds [OF h wf iwf this _ inj] show ?thesis using h by (simp add: later_block_def)
qed

section \<open>Rotation\<close>

text \<open>
  C5. Rotation. Applying a rotation plan keeps the registry consistent and the active set sorted, never removes an active seed
  and lets only eligible waiting validators in; when the target size is the current size, at least a quorum of the old set
  remains in the new one.
\<close>

theorem rotation_keeps_registry:
  fixes n h :: u64
  assumes "sort_ok srt" "registry_ok reg" "length (reg_active_set reg) < 2 ^ 62"
  defines "plan \<equiv> planRotation srt reg n"
  defines "reg' \<equiv> applyRotation reg plan h"
  shows "registry_ok reg' \<and> sorted (reg_active_set reg') \<and>
    (\<forall>v \<in> set (reg_validators reg). val_is_seed v \<longrightarrow> val_id v \<in> set (reg_active_set reg) \<longrightarrow> val_id v \<in> set (reg_active_set reg')) \<and>
    set (reg_active_set reg') - set (reg_active_set reg) \<subseteq> val_id ` {v \<in> set (reg_validators reg). \<not> val_is_active v \<and> canBeActive v} \<and>
    (unat (plan_new_target_size plan) = length (reg_active_set reg) \<longrightarrow>
       unat (bftQuorum (of_nat (length (reg_active_set reg)))) \<le> card (set (reg_active_set reg) \<inter> set (reg_active_set reg')))"
proof -
  note st = rotation_step [OF assms(1-3), where n = n and h = h, folded plan_def, folded reg'_def]
  note pc = plan_counts(3) [OF assms(1-3), of n, folded plan_def]
  have "val_id ` set (addable reg) \<subseteq> val_id ` {v \<in> set (reg_validators reg). \<not> val_is_active v \<and> canBeActive v}"
    by (auto simp: addable_def)
  moreover have "unat (bftQuorum (of_nat (length (reg_active_set reg)))) \<le> card (set (reg_active_set reg) \<inter> set (reg_active_set reg'))"
    if k: "unat (plan_new_target_size plan) = length (reg_active_set reg)"
  proof -
    have n: "unat (of_nat (length (reg_active_set reg)) :: u64) = length (reg_active_set reg)"
      using assms(3) by (intro unat_of_nat_small) simp
    have "2 \<le> length (reg_active_set reg)" using target_range(1) [of srt reg n] k by (simp add: plan_def)
    then have "unat (bftQuorum (of_nat (length (reg_active_set reg)))) \<le> length (reg_active_set reg)"
      using unat_bftQuorum [of "of_nat (length (reg_active_set reg))"] n assms(3) by simp
    moreover have "card (set (plan_to_remove plan)) \<le> length (reg_active_set reg) - unat (bftQuorum (of_nat (length (reg_active_set reg))))"
      using pc k by simp
    ultimately show ?thesis using st(6) by linarith
  qed
  ultimately show ?thesis using st(1-4) by blast
qed

definition sample_registry :: validator_registry where
  "sample_registry = ValidatorRegistry_default\<lparr>reg_active_set := [1, 2],
     reg_validators := [(sample_validator 1 1)\<lparr>val_is_active := True, val_is_seed := True\<rparr>,
       (sample_validator 2 2)\<lparr>val_is_active := True\<rparr>, sample_validator 3 3]\<rparr>"

theorem rotation_keeps_registry_witness:
  "sort_ok insertion_sort \<and> registry_ok sample_registry \<and>
   registry_ok (applyRotation sample_registry (planRotation insertion_sort sample_registry 0) 60) \<and>
   1 \<in> set (reg_active_set (applyRotation sample_registry (planRotation insertion_sort sample_registry 0) 60))"
proof -
  have ok: "registry_ok sample_registry"
    by (simp add: registry_ok_def sample_registry_def live_ids_def INVALID_ID_def sample_validator_def ValidatorInfo_default_def) force
  have "length (reg_active_set sample_registry) < 2 ^ 62" by (simp add: sample_registry_def)
  from rotation_keeps_registry [OF sort_ok_insertion ok this, of 0 60] show ?thesis
    using ok sort_ok_insertion by (auto simp: sample_registry_def)
qed

text \<open>
  C31. Emergency certificates. When a block's timeout certificate is accepted, the round it names is at least the emergency
  threshold and, with at most \<open>(n - 1) div 3\<close> faulty members of the committed set, some other member signed that timeout.
\<close>

theorem certificate_has_honest_vote:
  assumes "checkTimeoutCertificate sig_ok b committed h d = None"
    and "distinct committed" "finite faulty" "card faulty \<le> (length committed - 1) div 3"
  shows "30 \<le> unat (ucast (hdr_emergency_rotation (blk_header b)) :: round') \<and>
    (\<exists>vid v s. vid \<in> set committed - faulty \<and> certificate_lookup h d vid = Some v \<and>
      sig_ok (timeoutVoteSigningHash (db_hash d) h (ucast (hdr_emergency_rotation (blk_header b)))) (effectiveConsensusKey v) s)"
proof -
  let ?r = "ucast (hdr_emergency_rotation (blk_header b)) :: round'"
  have ok: "verifyTimeoutCertificate sig_ok (db_hash d) (hdr_timeout_certificate (blk_header b)) committed h ?r (certificate_lookup h d) = None"
    using assms(1) by (simp add: checkTimeoutCertificate_def)
  obtain S where S: "S \<subseteq> {..<length committed}" "(length committed - 1) div 3 + 1 \<le> card S"
    "\<forall>i \<in> S. \<exists>v s. certificate_lookup h d (committed ! i) = Some v \<and> sig_ok (timeoutVoteSigningHash (db_hash d) h ?r) (effectiveConsensusKey v) s"
    using verifyTimeoutCertificate_sound(1) [OF ok] by blast
  then obtain i where i: "i \<in> S" "committed ! i \<notin> faulty"
    using honest_position [OF assms(2) S(1) assms(3)] assms(4) by force
  then have "committed ! i \<in> set committed" using S(1) by auto
  then show ?thesis using verifyTimeoutCertificate_sound(3) [OF ok] S(3) i by blast
qed

definition emergency_block :: block where
  "emergency_block = (sample_block [])\<lparr>blk_header := sample_header\<lparr>hdr_emergency_rotation := 30,
     hdr_timeout_certificate := map (\<lambda>i. \<lparr>tv_height = 5, tv_round = 30, tv_signer_index = i, tv_signer_id = INVALID_ID,
       tv_signature = replicate 64 1\<rparr>) [0, 1]\<rparr>\<rparr>"

theorem certificate_has_honest_vote_witness:
  "checkTimeoutCertificate (\<lambda>_ _ _. True) emergency_block [1, 2, 3, 4] 5 sample_chain = None \<and>
   (\<exists>vid. vid \<in> set [1, 2, 3, 4] - {1} \<and> (\<exists>v. certificate_lookup 5 sample_chain vid = Some v))"
proof -
  have ok: "checkTimeoutCertificate (\<lambda>_ _ _. True) emergency_block [1, 2, 3, 4] 5 sample_chain = None"
    by (simp add: checkTimeoutCertificate_def verifyTimeoutCertificate_def emergency_block_def Let_def
        EMERGENCY_ROTATION_ROUNDS_def certificate_lookup_def chain_validator)
  from certificate_has_honest_vote [OF ok, of "{1}"] ok show ?thesis by auto
qed

text \<open>
  C32. Proposers take turns. From any height and round, every member of the active set is the proposer of one of the next
  \<open>n\<close> rounds, as long as the counters do not wrap.
\<close>

theorem proposers_take_turns:
  assumes "i < length active_set" "unat h + unat r + length active_set < 2 ^ 64" "unat r + length active_set < 2 ^ 32"
  shows "\<exists>k < length active_set. proposerFor h (r + of_nat k) active_set = active_set ! i"
  using assms by (rule proposer_turn)

theorem proposers_take_turns_witness:
  "\<exists>k < length [1, 2, 3, 4 :: id]. proposerFor 7 (2 + of_nat k) [1, 2, 3, 4] = [1, 2, 3, 4] ! 3"
  by (rule proposers_take_turns) simp_all

text \<open>
  C33. Block codec. Decoding the bytes of a block gives the block back, and their number is the size the code reserves.
\<close>

theorem block_roundtrip:
  assumes "Block_wf b"
  shows "Block_deserialize (Block_serialize b) = Some b \<and> length (Block_serialize b) = Block_serializedSize b"
  using Block_codec [OF assms] length_Block_serialize [OF assms] by simp

theorem block_roundtrip_witness:
  "Block_deserialize (Block_serialize later_block) = Some later_block"
proof -
  have "Block_wf later_block" using sample_block_wf(1) [of "[1, 2, 3]" 3] by (simp add: later_block_def)
  then show ?thesis using block_roundtrip [of later_block] by blast
qed

section \<open>Rewards\<close>

text \<open>
  C4. No reward is lost. The reward of a block, split between the producer, the active set, the seed validators and the
  stakers, with multipliers and payees that may be missing, reaches the balances and the pot to the last atomic unit.
\<close>

theorem reward_conserved:
  assumes "keys_ok (ledger_keys A I) d" "payees_ok A d" "finite A" "loadActiveSet d \<noteq> []" "length (loadActiveSet d) < 2 ^ 64"
    and "total_bal A 0 d + unat (readU64Global ''pot'' d) + unat BLOCK_REWARD < 2 ^ 64"
  shows "total_bal A 0 (distributeRewards block h d) + unat (readU64Global ''pot'' (distributeRewards block h d))
    = total_bal A 0 d + unat (readU64Global ''pot'' d) + unat BLOCK_REWARD"
  using assms by (rule distribute_conserves)

theorem reward_conserved_witness:
  "total_bal sample_addrs 0 (distributeRewards later_block 3 sample_chain) +
     unat (readU64Global ''pot'' (distributeRewards later_block 3 sample_chain)) = 100000"
proof -
  have "total_bal sample_addrs 0 sample_chain = 0" using chain_bal by (simp add: total_bal_def)
  moreover have "readU64Global ''pot'' sample_chain = 0" by (rule chain_globals) simp_all
  ultimately show ?thesis
    using reward_conserved [OF chain_keys chain_payees, of later_block 3]
    by (simp add: BLOCK_REWARD_def ATOMIC_UNITS_PER_COIN_def)
qed



text \<open>
  C30. Stakers are paid in proportion. Distributing an amount over the stakers credits each with the share of its weight,
  rounded down, as a pending reward; it credits nobody else, moves no balance and hands out at most the amount.
\<close>

theorem stakers_paid_in_proportion:
  assumes "keys_ok (ledger_keys A I) d" "finite A" "set (staker_list d) \<subseteq> A" "a \<in> A"
    and "W = sum_list (map (weight_of s e d) (staker_list d))" "unat D * W < 2 ^ 128" "W < 2 ^ 128"
    and "\<forall>a \<in> A. unat (pending d a) + unat D < 2 ^ 64"
  shows "unat (pending (pay_stakers s e n D d) a) = unat (pending d a)
      + (if a \<in> set (staker_list d) then unat D * weight_of s e d a div W else 0) \<and>
    bal a t (pay_stakers s e n D d) = bal a t d \<and> total_pending A (pay_stakers s e n D d) \<le> total_pending A d + unat D"
  using pay_stakers_effect(1,3) [OF assms(1-3), where D = D and s = s and e = e and n = n]
    pay_stakers_effect(2) [OF assms(1-3), where D = D and s = s and e = e and n = n and t = t] assms(4-8) by simp

theorem stakers_paid_in_proportion_witness:
  "pending (pay_stakers 0 59 0 700 staked_chain) (sample_addr 1) = 700"
proof -
  have none: "pending staked_chain a = 0" if "a \<in> sample_addrs" for a
    using that by (simp add: pending_def staked_account sample_account_def Account_default_def)
  have "unat (pending (pay_stakers 0 59 0 700 staked_chain) (sample_addr 1)) = 700"
    using stakers_paid_in_proportion [OF staked_keys, where a = "sample_addr 1" and W = "5000000 * 59" and s = 0 and e = 59
      and D = 700 and n = 0] none
    by (simp add: staked_stakers staked_weight)
  then show ?thesis by (simp add: word_unat_eq_iff)
qed

text \<open>
  C37. Accounts that stake at genesis earn nothing. The genesis state is written at version zero, which
  \<^verbatim>\<open>putAccount\<close> records as the height the account staked since and \<^verbatim>\<open>blocksStakedIn\<close> reads as not staking: the account has no
  weight at any epoch, and a later write that leaves it a staker does not change that.
\<close>

theorem genesis_staker_has_no_weight:
  assumes "keys_ok (ledger_keys A I) d" "a \<in> A" "db_version d = 0" "acct_staked (getAccount a d) = 0"
    and "keys_ok (ledger_keys A I) d2" "getAccount a d2 = getAccount a (putAccount a x d)"
    and "acct_staked (getAccount a (putAccount a x d)) > 0" "acct_staked (getAccount a (putAccount a y d2)) > 0"
  shows "staker_weight s e (getAccount a (putAccount a x d)) = None \<and> staker_weight s e (getAccount a (putAccount a y d2)) = None"
proof -
  have x: "getAccount a (putAccount a x d) = stored_account a x d" using getAccount_putAccount [OF assms(1), of a a] assms(2) by simp
  then have since: "acct_staker_since_height (getAccount a (putAccount a x d)) = 0"
    using assms(3,4) by (simp add: stored_account_def Let_def)
  have y: "getAccount a (putAccount a y d2) = stored_account a y d2" using getAccount_putAccount [OF assms(5), of a a] assms(2) by simp
  then have "acct_staker_since_height (getAccount a (putAccount a y d2)) = 0"
    using since assms(6,7) by (simp add: stored_account_def Let_def)
  with since show ?thesis by (simp add: staker_weight_def blocksStakedIn_def)
qed

theorem genesis_staker_has_no_weight_witness:
  "staker_weight 0 59 (getAccount (sample_addr 1) (putAccount (sample_addr 1) (sample_account 5000000) sample_chain)) = None"
proof -
  let ?d = "putAccount (sample_addr 1) (sample_account 5000000) sample_chain"
  have staked: "acct_staked (getAccount (sample_addr 1) (putAccount (sample_addr 1) (sample_account 5000000) d)) > 0"
    if "keys_ok (ledger_keys sample_addrs {}) d" for d
    using getAccount_putAccount [OF that, of "sample_addr 1" "sample_addr 1" "sample_account 5000000"]
    by (simp add: stored_account_def Let_def recalculateStaked_def sample_account_def Account_default_def
        AUTO_STAKE_THRESHOLD_def ATOMIC_UNITS_PER_COIN_def)
  have k: "keys_ok (ledger_keys sample_addrs {}) ?d" by (simp add: chain_keys)
  have "db_version sample_chain = 0" by (simp add: sample_chain_def saveActiveSet_def db_init_def)
  then show ?thesis
    using genesis_staker_has_no_weight [OF chain_keys _ _ _ k refl, where y = "sample_account 5000000" and s = 0 and e = 59]
      staked [OF chain_keys] staked [OF k] by (simp add: chain_account Account_default_def)
qed

section \<open>Slashing\<close>









section \<open>What the checks let through\<close>









end
