(* ===== verification/Spec2Isabelle.thy ===== *)
theory Spec2Isabelle
  imports State_Properties Dex_Properties Exec_Properties Block_Properties
begin

text \<open>
  \<^bold>\<open>Clarity\<close>: verification library of the ledger core.
\<close>

end
